(* ===== verification/Prelude.thy ===== *)
theory Prelude
  imports
    Main
    "HOL-Library.State_Monad"
    "HOL-Library.AList"
    "HOL-Library.Multiset"
    "HOL-Library.Word"
    "HOL-Library.Signed_Division"
begin

text \<open>
  Shared ground of the development: Go errors and the ways a Go function can end, Go maps as
  association lists (their order is the order a \<open>range\<close> loop happens to take), the theorem
  collections, and generic lemmas on lists, maps and the state monad.
\<close>

section \<open>Errors and outcomes\<close>

text \<open>
  The errno values the sources compare against are named; any other one is \<open>EOTHER\<close>.
  An error value of the code is an errno, or the result of \<open>fmt.Errorf\<close> with its format and
  arguments. The nil error is \<open>None\<close>.
\<close>

datatype errno = EPERM | EEXIST | ENOENT | EINTR | ECHILD | ENETCLOSED | EOTHER nat

datatype err = Errno errno | Errorf string "arg list"
  and arg = ArgS string | ArgI int | ArgE err

text \<open>
  A call either returns, ends the process (\<open>os.Exit\<close>), panics, or does not come back because
  \<open>exec\<close> replaced the process image.
\<close>

datatype 'a outcome = Ret 'a | Exit int | Panic string | Replaced

fun is_Ret :: "'a outcome \<Rightarrow> bool" where
  "is_Ret (Ret _) = True"
| "is_Ret _ = False"

abbreviation return :: "'a \<Rightarrow> ('s, 'a) state" where
  "return \<equiv> State_Monad.return"

text \<open>Continue after a returned value; an exit or a panic skips the continuation.\<close>

definition obind ::
  "('s, 'a outcome) state \<Rightarrow> ('a \<Rightarrow> ('s, 'b outcome) state) \<Rightarrow> ('s, 'b outcome) state" where
  "obind m f = do {
     r \<leftarrow> m;
     case r of Ret x \<Rightarrow> f x | Exit n \<Rightarrow> return (Exit n) | Panic p \<Rightarrow> return (Panic p)
     | Replaced \<Rightarrow> return Replaced
   }"

text \<open>Pure counterpart, for functions that only can panic.\<close>

fun outcome_bind :: "'a outcome \<Rightarrow> ('a \<Rightarrow> 'b outcome) \<Rightarrow> 'b outcome" where
  "outcome_bind (Ret x) f = f x"
| "outcome_bind (Exit n) f = Exit n"
| "outcome_bind (Panic p) f = Panic p"
| "outcome_bind Replaced f = Replaced"

lemma outcome_bind_Ret_iff:
  "outcome_bind m f = Ret y \<longleftrightarrow> (\<exists>x. m = Ret x \<and> f x = Ret y)"
  by (cases m) auto

section \<open>Theorem collections\<close>

named_theorems gostr \<open>facts on the string functions of the Go library\<close>
named_theorems io_only \<open>functions that only append to the trace of system calls\<close>
named_theorems runs \<open>what running a computation yields\<close>

section \<open>Go maps\<close>

type_synonym ('k, 'v) gomap = "('k \<times> 'v) list"

abbreviation map_get :: "('k, 'v) gomap \<Rightarrow> 'k \<Rightarrow> 'v option" where
  "map_get \<equiv> map_of"

abbreviation map_put :: "'k \<Rightarrow> 'v \<Rightarrow> ('k, 'v) gomap \<Rightarrow> ('k, 'v) gomap" where
  "map_put \<equiv> AList.update"

abbreviation map_del :: "'k \<Rightarrow> ('k, 'v) gomap \<Rightarrow> ('k, 'v) gomap" where
  "map_del \<equiv> AList.delete"

abbreviation map_keys :: "('k, 'v) gomap \<Rightarrow> 'k list" where
  "map_keys m \<equiv> map fst m"

text \<open>An association list stands for a Go map when its keys are distinct.\<close>

definition gomap_ok :: "('k, 'v) gomap \<Rightarrow> bool" where
  "gomap_ok m \<longleftrightarrow> distinct (map_keys m)"

lemma gomap_ok_Nil [simp]: "gomap_ok []"
  by (simp add: gomap_ok_def)

lemma gomap_ok_put [simp, intro]: "gomap_ok m \<Longrightarrow> gomap_ok (map_put k v m)"
  by (simp add: gomap_ok_def distinct_update)

lemma gomap_ok_del [simp, intro]: "gomap_ok m \<Longrightarrow> gomap_ok (map_del k m)"
  by (simp add: gomap_ok_def distinct_delete)

lemma map_get_put [simp]: "map_get (map_put k v m) = (map_get m)(k \<mapsto> v)"
  by (simp add: update_conv')

lemma map_get_del [simp]: "map_get (map_del k m) = (map_get m)(k := None)"
  by (simp add: delete_conv')

lemma set_map_keys: "set (map_keys m) = dom (map_get m)"
  by (simp add: dom_map_of_conv_image_fst)

lemma map_get_Some_iff:
  "gomap_ok m \<Longrightarrow> map_get m k = Some v \<longleftrightarrow> (k, v) \<in> set m"
  by (simp add: gomap_ok_def map_of_eq_Some_iff)

lemma set_map_del: "gomap_ok m \<Longrightarrow> set (map_del k m) = {(j, v) \<in> set m. j \<noteq> k}"
  by (auto simp: AList.delete_eq)

lemma set_map_put:
  "gomap_ok m \<Longrightarrow> set (map_put k v m) = insert (k, v) {(j, w) \<in> set m. j \<noteq> k}"
  by (induction m) (auto simp: gomap_ok_def image_iff)

lemma fst_set_map_put: "fst ` set (map_put k v m) = insert k (fst ` set m)"
  using dom_update [of k v m] by simp

lemma fst_set_map_del: "fst ` set (map_del k m) = fst ` set m - {k}"
  by (auto simp: AList.delete_eq image_iff)

section \<open>Lists\<close>

text \<open>Go's \<open>xs[i]\<close> for a slice: a panic out of range.\<close>

definition index_or_panic :: "'a list \<Rightarrow> int \<Rightarrow> 'a outcome" where
  "index_or_panic xs i =
     (if 0 \<le> i \<and> i < int (length xs) then Ret (xs ! nat i) else Panic ''index out of range'')"

lemma index_or_panic_Ret [simp]:
  "index_or_panic xs i = Ret x \<longleftrightarrow> 0 \<le> i \<and> i < int (length xs) \<and> x = xs ! nat i"
  by (auto simp: index_or_panic_def)

lemma find_None_filter: "find P xs = None \<longleftrightarrow> filter P xs = []"
  by (auto simp: find_None_iff filter_empty_conv)

lemma find_SomeD: "find P xs = Some x \<Longrightarrow> x \<in> set xs \<and> P x"
  by (auto simp: find_Some_iff)

lemma find_length_0:
  assumes "\<And>p. p \<in> set ps \<Longrightarrow> p \<noteq> []"
  shows "(case find P ps of None \<Rightarrow> 0 | Some p \<Rightarrow> length p) = 0 \<longleftrightarrow> (\<forall>p \<in> set ps. \<not> P p)"
proof (cases "find P ps")
  case None
  then have "\<forall>p \<in> set ps. \<not> P p" by (simp add: find_None_iff)
  with None show ?thesis by simp
next
  case (Some p)
  with assms show ?thesis by (auto dest: find_SomeD)
qed

lemma find_unique:
  assumes x: "x \<in> set xs" "P x" and u: "\<And>y. y \<in> set xs \<Longrightarrow> P y \<Longrightarrow> y = x"
  shows "find P xs = Some x"
proof (cases "find P xs")
  case None
  with x show ?thesis by (auto simp: find_None_iff)
next
  case (Some y)
  then have "y \<in> set xs" and "P y" by (auto simp: find_Some_iff)
  with u Some show ?thesis by simp
qed

lemma takeWhile_all: "(\<And>x. x \<in> set xs \<Longrightarrow> P x) \<Longrightarrow> takeWhile P (xs @ ys) = xs @ takeWhile P ys"
  by simp

section \<open>Running state computations\<close>

lemma run_obind [simp]:
  "run_state (obind m f) s =
     (case run_state m s of
        (Ret x, s') \<Rightarrow> run_state (f x) s'
      | (Exit n, s') \<Rightarrow> (Exit n, s')
      | (Panic p, s') \<Rightarrow> (Panic p, s')
      | (Replaced, s') \<Rightarrow> (Replaced, s'))"
  by (simp add: obind_def split: prod.splits outcome.splits)

text \<open>A loop over a list that only has effects.\<close>

fun for_each :: "'a list \<Rightarrow> ('a \<Rightarrow> ('s, unit) state) \<Rightarrow> ('s, unit) state" where
  "for_each [] f = return ()"
| "for_each (x # xs) f = do { _ \<leftarrow> f x; for_each xs f }"

text \<open>A loop that returns from the function at the first error.\<close>

fun for_each_err :: "'a list \<Rightarrow> ('a \<Rightarrow> ('s, 'e option) state) \<Rightarrow> ('s, 'e option) state" where
  "for_each_err [] f = return None"
| "for_each_err (x # xs) f = do {
     e \<leftarrow> f x;
     case e of Some er \<Rightarrow> return (Some er) | None \<Rightarrow> for_each_err xs f
   }"

text \<open>\<open>defer\<close>: run \<open>d\<close> when \<open>m\<close> is over, and keep the result of \<open>m\<close>.\<close>

definition deferring :: "('s, unit) state \<Rightarrow> ('s, 'a) state \<Rightarrow> ('s, 'a) state" where
  "deferring d m = do { r \<leftarrow> m; _ \<leftarrow> d; return r }"

end
