(* ===== verification/GoStrings.thy ===== *)
theory GoStrings
  imports Prelude
begin

text \<open>
  The functions of Go's packages \<open>strings\<close>, \<open>unicode/utf8\<close> and \<open>path/filepath\<close> the sources
  call. A Go string is a sequence of bytes, so it is a HOL \<open>string\<close>, whose characters are
  bytes; text beyond ASCII is its UTF-8 encoding.
\<close>

section \<open>Prefixes, suffixes, search\<close>

definition HasPrefix :: "string \<Rightarrow> string \<Rightarrow> bool" where
  "HasPrefix s p \<longleftrightarrow> length p \<le> length s \<and> take (length p) s = p"

definition HasSuffix :: "string \<Rightarrow> string \<Rightarrow> bool" where
  "HasSuffix s p \<longleftrightarrow> length p \<le> length s \<and> drop (length s - length p) s = p"

definition TrimPrefix :: "string \<Rightarrow> string \<Rightarrow> string" where
  "TrimPrefix s p = (if HasPrefix s p then drop (length p) s else s)"

definition TrimSuffix :: "string \<Rightarrow> string \<Rightarrow> string" where
  "TrimSuffix s p = (if HasSuffix s p then take (length s - length p) s else s)"

lemma HasPrefix_iff [gostr]: "HasPrefix s p \<longleftrightarrow> (\<exists>r. s = p @ r)"
  by (auto simp: HasPrefix_def) (metis append_take_drop_id)

lemma HasSuffix_iff [gostr]: "HasSuffix s p \<longleftrightarrow> (\<exists>r. s = r @ p)"
  by (auto simp: HasSuffix_def) (metis append_take_drop_id)

lemma HasPrefix_append [simp]: "HasPrefix (p @ r) p"
  by (auto simp: HasPrefix_iff)

lemma TrimPrefix_append [simp]: "TrimPrefix (p @ r) p = r"
  by (simp add: TrimPrefix_def)

lemma HasPrefix_Cons [simp]:
  "HasPrefix s [] = True" "HasPrefix [] (b # p) = False"
  "HasPrefix (a # s) (b # p) \<longleftrightarrow> a = b \<and> HasPrefix s p"
  by (auto simp: HasPrefix_def)

text \<open>\<open>strings.Contains\<close>: some suffix of the string starts with the substring.\<close>

fun Contains :: "string \<Rightarrow> string \<Rightarrow> bool" where
  "Contains [] sub = (sub = [])"
| "Contains (c # cs) sub = (HasPrefix (c # cs) sub \<or> Contains cs sub)"

lemma Contains_iff: "Contains s sub \<longleftrightarrow> (\<exists>u v. s = u @ sub @ v)"
proof (induction s)
  case Nil
  show ?case by auto
next
  case (Cons c cs)
  have "(\<exists>u v. c # cs = u @ sub @ v) \<longleftrightarrow>
      HasPrefix (c # cs) sub \<or> (\<exists>u v. cs = u @ sub @ v)"
    by (auto simp: HasPrefix_iff Cons_eq_append_conv)
  with Cons show ?case by simp
qed

text \<open>\<open>strings.Index\<close> of a one-byte string; \<open>None\<close> is -1.\<close>

fun IndexByte :: "string \<Rightarrow> char \<Rightarrow> nat option" where
  "IndexByte [] c = None"
| "IndexByte (x # xs) c = (if x = c then Some 0 else map_option Suc (IndexByte xs c))"

section \<open>Splitting and joining\<close>

text \<open>\<open>strings.Split\<close> at a one-byte separator: always at least one piece.\<close>

fun Split :: "string \<Rightarrow> char \<Rightarrow> string list" where
  "Split [] sep = [[]]"
| "Split (c # cs) sep =
     (if c = sep then [] # Split cs sep
      else case Split cs sep of p # ps \<Rightarrow> (c # p) # ps | [] \<Rightarrow> [[c]])"

text \<open>\<open>strings.SplitN\<close> with a positive bound: at most n pieces, the last one unsplit.\<close>

fun SplitN :: "string \<Rightarrow> char \<Rightarrow> nat \<Rightarrow> string list" where
  "SplitN s sep 0 = []"
| "SplitN s sep (Suc 0) = [s]"
| "SplitN s sep (Suc (Suc n)) =
     (if sep \<in> set s
      then takeWhile (\<lambda>c. c \<noteq> sep) s # SplitN (tl (dropWhile (\<lambda>c. c \<noteq> sep) s)) sep (Suc n)
      else [s])"

fun Join :: "string list \<Rightarrow> string \<Rightarrow> string" where
  "Join [] sep = []"
| "Join [x] sep = x"
| "Join (x # y # ys) sep = x @ sep @ Join (y # ys) sep"

lemma Split_ne [simp]: "Split s sep \<noteq> []"
  by (induction s) (auto split: list.splits)

lemma Split_no_sep: "sep \<notin> set s \<Longrightarrow> Split s sep = [s]"
  by (induction s) auto

lemma Split_append_sep:
  "Split (s @ sep # r) sep = Split s sep @ Split r sep"
  by (induction s) (auto split: list.splits)

lemma Split_pieces: "p \<in> set (Split s sep) \<Longrightarrow> sep \<notin> set p"
proof (induction s arbitrary: p)
  case Nil
  then show ?case by simp
next
  case (Cons c cs)
  then show ?case by (cases "Split cs sep") (auto split: if_splits)
qed

lemma Join_Cons: "xs \<noteq> [] \<Longrightarrow> Join (x # xs) sep = x @ sep @ Join xs sep"
  by (cases xs) auto

lemma Join_Split: "Join (Split s sep) [sep] = s"
proof (induction s)
  case Nil
  show ?case by simp
next
  case (Cons c cs)
  then show ?case
    by (cases "Split cs sep"; cases "tl (Split cs sep)") (auto simp: Join_Cons)
qed

lemma Split_Join:
  "\<lbrakk> ls \<noteq> []; \<And>l. l \<in> set ls \<Longrightarrow> sep \<notin> set l \<rbrakk> \<Longrightarrow> Split (Join ls [sep]) sep = ls"
  by (induction ls "[sep]" rule: Join.induct) (auto simp: Split_no_sep Split_append_sep)

text \<open>\<open>strings.ReplaceAll(s, c, "")\<close>, \<open>strings.TrimRight(s, c)\<close> and \<open>strings.Repeat\<close>.\<close>

definition RemoveByte :: "string \<Rightarrow> char \<Rightarrow> string" where
  "RemoveByte s c = filter (\<lambda>x. x \<noteq> c) s"

definition TrimRightByte :: "string \<Rightarrow> char \<Rightarrow> string" where
  "TrimRightByte s c = rev (dropWhile (\<lambda>x. x = c) (rev s))"

definition Repeat :: "string \<Rightarrow> nat \<Rightarrow> string" where
  "Repeat s n = concat (replicate n s)"

text \<open>\<open>strings.ToUpper\<close> on ASCII letters; bytes of other runes are kept.\<close>

definition upper_byte :: "char \<Rightarrow> char" where
  "upper_byte c = (if (97::nat) \<le> of_char c \<and> of_char c \<le> (122::nat)
     then char_of (of_char c - (32::nat)) else c)"

definition ToUpper :: "string \<Rightarrow> string" where
  "ToUpper s = map upper_byte s"

section \<open>White space\<close>

text \<open>
  The UTF-8 encodings of the runes for which \<open>unicode.IsSpace\<close> holds: the six ASCII ones,
  U+0085, U+00A0, U+1680, U+2000 to U+200A, U+2028, U+2029, U+202F, U+205F, U+3000. Each
  begins with a byte no other rune contains, so a byte sequence of this list occurs in a
  string exactly where decoding the string yields that rune.
\<close>

definition space_runes :: "string list" where
  "space_runes =
     [[CHR 0x20], [CHR 0x09], [CHR 0x0A], [CHR 0x0B], [CHR 0x0C], [CHR 0x0D],
      [CHR 0xC2, CHR 0x85], [CHR 0xC2, CHR 0xA0], [CHR 0xE1, CHR 0x9A, CHR 0x80],
      [CHR 0xE2, CHR 0x80, CHR 0x80], [CHR 0xE2, CHR 0x80, CHR 0x81],
      [CHR 0xE2, CHR 0x80, CHR 0x82], [CHR 0xE2, CHR 0x80, CHR 0x83],
      [CHR 0xE2, CHR 0x80, CHR 0x84], [CHR 0xE2, CHR 0x80, CHR 0x85],
      [CHR 0xE2, CHR 0x80, CHR 0x86], [CHR 0xE2, CHR 0x80, CHR 0x87],
      [CHR 0xE2, CHR 0x80, CHR 0x88], [CHR 0xE2, CHR 0x80, CHR 0x89],
      [CHR 0xE2, CHR 0x80, CHR 0x8A], [CHR 0xE2, CHR 0x80, CHR 0xA8],
      [CHR 0xE2, CHR 0x80, CHR 0xA9], [CHR 0xE2, CHR 0x80, CHR 0xAF],
      [CHR 0xE2, CHR 0x81, CHR 0x9F], [CHR 0xE3, CHR 0x80, CHR 0x80]]"

text \<open>Bytes a white-space rune can begin with.\<close>

definition space_start :: "char \<Rightarrow> bool" where
  "space_start c \<longleftrightarrow> c \<in> set (map hd space_runes)"

definition space_len :: "string \<Rightarrow> nat" where
  "space_len s = (case find (HasPrefix s) space_runes of None \<Rightarrow> 0 | Some p \<Rightarrow> length p)"

definition space_suffix_len :: "string \<Rightarrow> nat" where
  "space_suffix_len s = (case find (HasSuffix s) space_runes of None \<Rightarrow> 0 | Some p \<Rightarrow> length p)"

lemma space_runes_ne: "p \<in> set space_runes \<Longrightarrow> p \<noteq> []"
  by (auto simp: space_runes_def)

lemma space_len_le: "space_len s \<le> length s"
  by (auto simp: space_len_def HasPrefix_iff split: option.splits dest!: find_Some_iff [THEN iffD1])

lemma space_suffix_len_le: "space_suffix_len s \<le> length s"
  by (auto simp: space_suffix_len_def HasSuffix_iff split: option.splits
      dest!: find_Some_iff [THEN iffD1])

lemma space_len_0: "space_len s = 0 \<longleftrightarrow> (\<forall>p \<in> set space_runes. \<not> HasPrefix s p)"
  unfolding space_len_def by (rule find_length_0) (rule space_runes_ne)

lemma space_len_pos:
  "0 < space_len s \<Longrightarrow> \<exists>p \<in> set space_runes. HasPrefix s p \<and> space_len s = length p"
  by (auto simp: space_len_def split: option.splits dest: find_SomeD)

lemma space_suffix_len_0: "space_suffix_len s = 0 \<longleftrightarrow> (\<forall>p \<in> set space_runes. \<not> HasSuffix s p)"
  unfolding space_suffix_len_def by (rule find_length_0) (rule space_runes_ne)

lemma space_suffix_len_pos:
  "0 < space_suffix_len s \<Longrightarrow> \<exists>p \<in> set space_runes. HasSuffix s p \<and> space_suffix_len s = length p"
  by (auto simp: space_suffix_len_def split: option.splits dest: find_SomeD)

lemma space_len_start: "\<not> space_start c \<Longrightarrow> space_len (c # s) = 0"
  by (auto simp: space_len_0 HasPrefix_iff space_start_def image_iff)
    (metis list.sel(1) append_Cons neq_Nil_conv space_runes_ne)

function TrimLeftSpace :: "string \<Rightarrow> string" where
  "TrimLeftSpace s = (if space_len s = 0 then s else TrimLeftSpace (drop (space_len s) s))"
  by pat_completeness auto
termination
proof (relation "measure length")
  fix s assume "space_len s \<noteq> 0"
  with space_len_le [of s] show "(drop (space_len s) s, s) \<in> measure length"
    by simp
qed simp

function TrimRightSpace :: "string \<Rightarrow> string" where
  "TrimRightSpace s =
     (if space_suffix_len s = 0 then s
      else TrimRightSpace (take (length s - space_suffix_len s) s))"
  by pat_completeness auto
termination
proof (relation "measure length")
  fix s assume "space_suffix_len s \<noteq> 0"
  with space_suffix_len_le [of s]
  show "(take (length s - space_suffix_len s) s, s) \<in> measure length"
    by simp
qed simp

declare TrimLeftSpace.simps [simp del] TrimRightSpace.simps [simp del]

definition TrimSpace :: "string \<Rightarrow> string" where
  "TrimSpace s = TrimRightSpace (TrimLeftSpace s)"

text \<open>\<open>strings.Fields\<close>: the maximal runs without white space.\<close>

definition flush_field :: "string \<Rightarrow> string list" where
  "flush_field cur = (if cur = [] then [] else [cur])"

function fields_from :: "string \<Rightarrow> string \<Rightarrow> string list" where
  "fields_from cur [] = flush_field cur"
| "fields_from cur (c # cs) =
     (if space_len (c # cs) = 0 then fields_from (cur @ [c]) cs
      else flush_field cur @ fields_from [] (drop (space_len (c # cs)) (c # cs)))"
  by pat_completeness auto
termination
proof (relation "measure (\<lambda>(cur, s). length s)")
  fix cur :: string and c cs assume "space_len (c # cs) \<noteq> 0"
  with space_len_le [of "c # cs"]
  show "(([], drop (space_len (c # cs)) (c # cs)), cur, c # cs) \<in> measure (\<lambda>(cur, s). length s)"
    by simp
qed simp_all

definition Fields :: "string \<Rightarrow> string list" where
  "Fields s = fields_from [] s"


subsection \<open>Facts on trimming\<close>

definition space_end :: "char \<Rightarrow> bool" where
  "space_end c \<longleftrightarrow> c \<in> set (map last space_runes)"

lemma space_suffix_len_end: "\<not> space_end c \<Longrightarrow> space_suffix_len (s @ [c]) = 0"
  by (auto simp: space_suffix_len_0 HasSuffix_iff space_end_def image_iff)
    (metis last_appendR last_snoc space_runes_ne)

lemma space_len_Nil [simp]: "space_len [] = 0"
  using space_len_le [of "[]"] by simp

lemma space_suffix_len_Nil [simp]: "space_suffix_len [] = 0"
  using space_suffix_len_le [of "[]"] by simp

lemma TrimLeftSpace_id: "space_len s = 0 \<Longrightarrow> TrimLeftSpace s = s"
  by (simp add: TrimLeftSpace.simps)

lemma TrimRightSpace_id: "space_suffix_len s = 0 \<Longrightarrow> TrimRightSpace s = s"
  by (simp add: TrimRightSpace.simps)

lemma space_len_TrimLeftSpace: "space_len (TrimLeftSpace s) = 0"
  by (induction s rule: TrimLeftSpace.induct) (simp add: TrimLeftSpace.simps)

lemma space_suffix_len_TrimRightSpace: "space_suffix_len (TrimRightSpace s) = 0"
  by (induction s rule: TrimRightSpace.induct) (simp add: TrimRightSpace.simps)

lemma TrimRightSpace_prefix: "\<exists>r. s = TrimRightSpace s @ r"
proof (induction s rule: TrimRightSpace.induct)
  case (1 s)
  show ?case
  proof (cases "space_suffix_len s = 0")
    case True
    then show ?thesis by (simp add: TrimRightSpace_id)
  next
    case False
    let ?t = "take (length s - space_suffix_len s) s"
    from "1" [OF False] obtain r where "?t = TrimRightSpace ?t @ r" by blast
    then have "s = TrimRightSpace ?t @ r @ drop (length s - space_suffix_len s) s"
      by (metis append.assoc append_take_drop_id)
    moreover from False have "TrimRightSpace s = TrimRightSpace ?t"
      by (subst TrimRightSpace.simps) simp
    ultimately show ?thesis by auto
  qed
qed

lemma space_len_prefix: "space_len (s @ r) = 0 \<Longrightarrow> space_len s = 0"
  by (auto simp: space_len_0 HasPrefix_iff)

lemma space_len_TrimSpace: "space_len (TrimSpace s) = 0"
  unfolding TrimSpace_def
  using TrimRightSpace_prefix [of "TrimLeftSpace s"] space_len_TrimLeftSpace [of s]
  by (metis space_len_prefix)

lemma space_suffix_len_TrimSpace: "space_suffix_len (TrimSpace s) = 0"
  by (simp add: TrimSpace_def space_suffix_len_TrimRightSpace)

lemma TrimSpace_id: "space_len s = 0 \<Longrightarrow> space_suffix_len s = 0 \<Longrightarrow> TrimSpace s = s"
  by (simp add: TrimSpace_def TrimLeftSpace_id TrimRightSpace_id)

lemma TrimSpace_idem [simp]: "TrimSpace (TrimSpace s) = TrimSpace s"
  by (rule TrimSpace_id) (rule space_len_TrimSpace, rule space_suffix_len_TrimSpace)

lemma TrimSpace_Nil [simp]: "TrimSpace [] = []"
  by (simp add: TrimSpace_id)

subsection \<open>Facts on fields\<close>

text \<open>A token without a byte that could begin white space is one field.\<close>

definition token :: "string \<Rightarrow> bool" where
  "token w \<longleftrightarrow> w \<noteq> [] \<and> (\<forall>c \<in> set w. \<not> space_start c)"

lemma fields_from_clean:
  "\<forall>c \<in> set w. \<not> space_start c \<Longrightarrow> fields_from cur (w @ s) = fields_from (cur @ w) s"
  by (induction w arbitrary: cur) (auto simp: space_len_start)

lemma space_len_blank [simp]: "space_len (CHR '' '' # s) = 1"
  by (simp add: space_len_def space_runes_def)

lemma fields_from_blank [simp]:
  "fields_from cur (CHR '' '' # s) = flush_field cur @ Fields s"
  by (simp add: Fields_def)

lemma Fields_token: "token w \<Longrightarrow> Fields w = [w]"
  using fields_from_clean [of w "[]" "[]"] by (simp add: token_def Fields_def flush_field_def)

lemma Fields_token_blank: "token w \<Longrightarrow> Fields (w @ CHR '' '' # s) = w # Fields s"
  using fields_from_clean [of w "[]" "CHR '' '' # s"]
  by (simp add: token_def Fields_def flush_field_def)

lemma Fields_Join: "(\<And>w. w \<in> set ws \<Longrightarrow> token w) \<Longrightarrow> Fields (Join ws '' '') = ws"
  by (induction ws "'' ''" rule: Join.induct)
    (simp_all add: Fields_token Fields_token_blank, simp add: Fields_def flush_field_def)

lemma fields_from_ne: "[] \<notin> set (fields_from cur s)"
  by (induction cur s rule: fields_from.induct) (auto simp: flush_field_def)

lemma Fields_ne: "[] \<notin> set (Fields s)"
  by (simp add: Fields_def fields_from_ne)

lemma HasSuffix_drop: "HasSuffix (drop n s) p \<Longrightarrow> HasSuffix s p"
  by (auto simp: HasSuffix_iff) (metis append.assoc append_take_drop_id)

lemma space_suffix_len_drop: "space_suffix_len (drop n s) \<noteq> 0 \<Longrightarrow> space_suffix_len s \<noteq> 0"
  by (auto simp: space_suffix_len_0 dest: HasSuffix_drop)

text \<open>Only white space has no field, so a string that is trimmed on the right has one.\<close>

lemma fields_from_eq_Nil:
  "fields_from cur s = [] \<Longrightarrow> cur = [] \<and> (s = [] \<or> space_suffix_len s \<noteq> 0)"
proof (induction cur s rule: fields_from.induct)
  case (1 cur)
  then show ?case by (simp add: flush_field_def split: if_splits)
next
  case (2 cur c cs)
  let ?n = "space_len (c # cs)" and ?s = "c # cs"
  show ?case
  proof (cases "?n = 0")
    case True
    with 2 show ?thesis by auto
  next
    case False
    with "2.prems" have cur: "cur = []" and rest: "fields_from [] (drop ?n ?s) = []"
      by (auto simp: flush_field_def split: if_splits)
    from "2.IH"(2) [OF False rest] have "drop ?n ?s = [] \<or> space_suffix_len (drop ?n ?s) \<noteq> 0"
      by simp
    then show ?thesis
    proof
      assume "drop ?n ?s = []"
      moreover from False space_len_pos [of ?s] obtain p
        where "p \<in> set space_runes" and "HasPrefix ?s p" and "?n = length p" by auto
      ultimately have "?s = p"
        by (metis HasPrefix_def drop_eq_Nil order_antisym_conv take_all)
      with \<open>p \<in> set space_runes\<close> have "space_suffix_len ?s \<noteq> 0"
        by (auto simp: space_suffix_len_0 HasSuffix_iff)
      with cur show ?thesis by simp
    next
      assume "space_suffix_len (drop ?n ?s) \<noteq> 0"
      then have "space_suffix_len ?s \<noteq> 0" by (rule space_suffix_len_drop)
      with cur show ?thesis by simp
    qed
  qed
qed

lemma Fields_eq_Nil: "Fields s = [] \<Longrightarrow> s = [] \<or> space_suffix_len s \<noteq> 0"
  by (auto simp: Fields_def dest: fields_from_eq_Nil)

lemma space_suffix_len_blank: "space_suffix_len (s @ '' '') \<noteq> 0"
  by (auto simp: space_suffix_len_0 HasSuffix_iff space_runes_def)

text \<open>A trimmed command line that starts with a word and a blank has at least two fields.\<close>

lemma trimmed_two_fields:
  assumes "HasPrefix (TrimSpace l) (w @ '' '')" and "token w"
  shows "\<exists>r. TrimSpace l = w @ '' '' @ r \<and> Fields (TrimSpace l) = w # Fields r \<and> Fields r \<noteq> []"
proof -
  from assms(1) obtain r where r: "TrimSpace l = w @ '' '' @ r" by (auto simp: HasPrefix_iff)
  have "Fields r \<noteq> []"
  proof
    assume "Fields r = []"
    then have "r = [] \<or> space_suffix_len r \<noteq> 0" by (rule Fields_eq_Nil)
    then have "space_suffix_len (TrimSpace l) \<noteq> 0"
    proof
      assume "r = []"
      then show ?thesis using space_suffix_len_blank [of w] by (simp add: r)
    next
      assume "space_suffix_len r \<noteq> 0"
      then show ?thesis
        using space_suffix_len_drop [of "length w + 1" "w @ '' '' @ r"] by (simp add: r)
    qed
    then show False by (simp add: space_suffix_len_TrimSpace)
  qed
  with r assms(2) show ?thesis by (simp add: Fields_token_blank)
qed

end
