(* ===== verification/GoStrconv.thy ===== *)
theory GoStrconv
  imports GoStrings
begin

text \<open>
  Number formatting and parsing of Go's packages \<open>strconv\<close> and \<open>fmt\<close>, as far as the sources
  use them: decimal \<open>Itoa\<close>/\<open>%d\<close>, \<open>%016x\<close>, \<open>Atoi\<close> (64-bit \<open>int\<close>) and \<open>ParseUint\<close>.
\<close>

section \<open>Digits\<close>

definition digit_char :: "nat \<Rightarrow> char" where
  "digit_char d = char_of (if d < 10 then 48 + d else 87 + d)"

text \<open>The value of a digit in bases up to 36, in either case.\<close>

definition digit_val :: "char \<Rightarrow> nat option" where
  "digit_val c = (let n = of_char c :: nat in
     if 48 \<le> n \<and> n \<le> 57 then Some (n - 48)
     else if 97 \<le> n \<and> n \<le> 122 then Some (n - 87)
     else if 65 \<le> n \<and> n \<le> 90 then Some (n - 55)
     else None)"

definition is_decimal :: "char \<Rightarrow> bool" where
  "is_decimal c \<longleftrightarrow> (48::nat) \<le> of_char c \<and> of_char c \<le> (57::nat)"

definition is_lower :: "char \<Rightarrow> bool" where
  "is_lower c \<longleftrightarrow> (97::nat) \<le> of_char c \<and> of_char c \<le> (122::nat)"

lemma of_char_digit_char: "d < 36 \<Longrightarrow> of_char (digit_char d) = (if d < 10 then 48 + d else 87 + d)"
  by (auto simp: digit_char_def of_char_of)

lemma digit_val_digit_char [simp]: "d < 36 \<Longrightarrow> digit_val (digit_char d) = Some d"
  by (auto simp: digit_val_def Let_def of_char_digit_char)

lemma is_decimal_digit_char [simp]: "d < 10 \<Longrightarrow> is_decimal (digit_char d)"
  by (auto simp: is_decimal_def of_char_digit_char)

lemma is_decimal_val: "is_decimal c \<Longrightarrow> \<exists>d < 10. digit_val c = Some d"
  by (auto simp: is_decimal_def digit_val_def Let_def)

section \<open>Formatting\<close>

text \<open>Digits of a number in a base, most significant first; zero is one digit.\<close>

function nat_digits :: "nat \<Rightarrow> nat \<Rightarrow> string" where
  "nat_digits b n =
     (if b < 2 \<or> n < b then [digit_char n] else nat_digits b (n div b) @ [digit_char (n mod b)])"
  by pat_completeness auto
termination
  by (relation "measure (\<lambda>(b, n). n)") auto

declare nat_digits.simps [simp del]

definition Itoa :: "int \<Rightarrow> string" where
  "Itoa i = (if i < 0 then CHR ''-'' # nat_digits 10 (nat (- i)) else nat_digits 10 (nat i))"

text \<open>\<open>%016x\<close> of a 64-bit value: sixteen digits, padded with zeros on the left.\<close>

definition hex16 :: "64 word \<Rightarrow> string" where
  "hex16 w = map (\<lambda>i. digit_char (unat w div 16 ^ i mod 16)) (rev [0..<16])"

lemma nat_digits_ne: "nat_digits b n \<noteq> []"
  by (subst nat_digits.simps) simp

lemma nat_digits_decimal: "\<forall>c \<in> set (nat_digits 10 n). is_decimal c"
proof (induction "10::nat" n rule: nat_digits.induct)
  case (1 n)
  then show ?case by (subst nat_digits.simps) auto
qed

section \<open>Parsing\<close>

text \<open>
  The loop of \<open>strconv.ParseUint(s, base, 64)\<close>: the value and whether it is an error. A bad
  digit is a syntax error with value 0; going over the maximum is a range error that returns
  the maximum at once.
\<close>

datatype num_error = ErrSyntax | ErrRange

definition max_uint64 :: nat where
  "max_uint64 = 2 ^ 64 - 1"

fun parse_uint_loop :: "nat \<Rightarrow> nat \<Rightarrow> string \<Rightarrow> 64 word \<times> num_error option" where
  "parse_uint_loop base n [] = (of_nat n, None)"
| "parse_uint_loop base n (c # cs) =
     (case digit_val c of
        None \<Rightarrow> (0, Some ErrSyntax)
      | Some d \<Rightarrow>
          if d \<ge> base then (0, Some ErrSyntax)
          else if n * base + d > max_uint64 then (of_nat max_uint64, Some ErrRange)
          else parse_uint_loop base (n * base + d) cs)"

definition ParseUint :: "string \<Rightarrow> nat \<Rightarrow> 64 word \<times> num_error option" where
  "ParseUint s base = (if s = [] then (0, Some ErrSyntax) else parse_uint_loop base 0 s)"

text \<open>\<open>strconv.Atoi\<close>: an optional sign, then decimal digits, within 64 signed bits.\<close>

fun dec_val :: "nat \<Rightarrow> string \<Rightarrow> nat option" where
  "dec_val n [] = Some n"
| "dec_val n (c # cs) =
     (case digit_val c of
        None \<Rightarrow> None
      | Some d \<Rightarrow> if d \<ge> 10 then None else dec_val (n * 10 + d) cs)"

definition Atoi :: "string \<Rightarrow> num_error + int" where
  "Atoi s =
     (let neg = HasPrefix s ''-'';
          body = (if neg \<or> HasPrefix s ''+'' then drop 1 s else s)
      in if body = [] then Inl ErrSyntax
         else case dec_val 0 body of
           None \<Rightarrow> Inl ErrSyntax
         | Some n \<Rightarrow>
             (let v = (if neg then - int n else int n)
              in if v < - (2 ^ 63) \<or> v \<ge> 2 ^ 63 then Inl ErrRange else Inr v))"

section \<open>Reading back what was printed\<close>

lemma dec_val_append:
  "dec_val n (xs @ ys) = (case dec_val n xs of None \<Rightarrow> None | Some m \<Rightarrow> dec_val m ys)"
  by (induction n xs rule: dec_val.induct) (auto split: option.splits)

lemma dec_val_shift: "dec_val a xs = Some v \<Longrightarrow> dec_val 0 xs = Some (v - a * 10 ^ length xs) \<and> a * 10 ^ length xs \<le> v"
proof (induction xs arbitrary: a v rule: rev_induct)
  case Nil
  then show ?case by simp
next
  case (snoc x xs)
  from snoc.prems obtain m d where m: "dec_val a xs = Some m" and d: "digit_val x = Some d" "d < 10"
    and v: "v = m * 10 + d"
    by (auto simp: dec_val_append split: option.splits if_splits)
  from snoc.IH [OF m] have "dec_val 0 xs = Some (m - a * 10 ^ length xs)" and "a * 10 ^ length xs \<le> m"
    by auto
  with d v show ?case by (simp add: dec_val_append diff_mult_distrib)
qed

lemma dec_val_nat_digits: "dec_val 0 (nat_digits 10 n) = Some n"
proof (induction "10::nat" n rule: nat_digits.induct)
  case (1 n)
  then show ?case by (subst nat_digits.simps) (auto simp: dec_val_append)
qed

lemma decimal_not_sign: "is_decimal c \<Longrightarrow> c \<noteq> CHR ''-'' \<and> c \<noteq> CHR ''+''"
  by (auto simp: is_decimal_def)

lemma HasPrefix_single: "HasPrefix s [c] \<longleftrightarrow> s \<noteq> [] \<and> hd s = c"
  by (cases s) auto

lemma Atoi_Itoa:
  assumes "- (2 ^ 63) \<le> i" and "i < 2 ^ 63"
  shows "Atoi (Itoa i) = Inr i"
proof -
  let ?s = "nat_digits 10 (nat \<bar>i\<bar>)"
  have "is_decimal (hd ?s)" using nat_digits_decimal nat_digits_ne by (metis hd_in_set)
  then have s: "\<not> HasPrefix ?s ''-''" "\<not> HasPrefix ?s ''+''"
    by (auto simp: HasPrefix_single dest: decimal_not_sign)
  show ?thesis
  proof (cases "i < 0")
    case True
    with assms show ?thesis
      by (simp add: Itoa_def Atoi_def Let_def dec_val_nat_digits nat_digits_ne)
  next
    case False
    with assms s show ?thesis
      by (simp add: Itoa_def Atoi_def Let_def dec_val_nat_digits nat_digits_ne)
  qed
qed

lemma Itoa_inj: "0 \<le> i \<Longrightarrow> 0 \<le> j \<Longrightarrow> Itoa i = Itoa j \<Longrightarrow> i = j"
  by (auto simp: Itoa_def) (metis dec_val_nat_digits eq_nat_nat_iff option.inject)

lemma Itoa_decimal: "0 \<le> i \<Longrightarrow> Itoa i \<noteq> [] \<and> (\<forall>c \<in> set (Itoa i). is_decimal c)"
  by (simp add: Itoa_def nat_digits_ne nat_digits_decimal)

text \<open>Sixteen hexadecimal digits parse back to the value.\<close>

lemma parse_uint_loop_digits:
  assumes "\<And>d. d \<in> set ds \<Longrightarrow> d < 16" and "foldl (\<lambda>n d. n * 16 + d) n ds \<le> max_uint64"
  shows "parse_uint_loop 16 n (map digit_char ds) = (of_nat (foldl (\<lambda>n d. n * 16 + d) n ds), None)"
  using assms
proof (induction ds arbitrary: n)
  case Nil
  then show ?case by simp
next
  case (Cons d ds)
  have mono: "m \<le> foldl (\<lambda>n d. n * 16 + d) m es" for m :: nat and es
  proof (induction es arbitrary: m)
    case (Cons e es)
    from Cons [of "m * 16 + e"] show ?case by simp
  qed simp
  from Cons.prems mono [of "n * 16 + d" ds] have "n * 16 + d \<le> max_uint64" by simp
  moreover from Cons.prems(1) have "d < 16" by simp
  then have "digit_val (digit_char d) = Some d" and "\<not> 16 \<le> d" by simp_all
  ultimately show ?case using Cons.IH [of "n * 16 + d"] Cons.prems by simp
qed

lemma foldl_base16:
  "foldl (\<lambda>n d. n * 16 + d) 0 (map (\<lambda>i. v div 16 ^ i mod 16) (rev [0..<k])) = v mod 16 ^ k"
  for v :: nat
proof (induction k arbitrary: v)
  case 0
  show ?case by simp
next
  case (Suc k)
  have "rev [0..<Suc k] = map Suc (rev [0..<k]) @ [0]"
    by (simp add: upt_conv_Cons rev_map [symmetric] map_Suc_upt [symmetric] del: upt_Suc map_Suc_upt)
  then have "map (\<lambda>i. v div 16 ^ i mod 16) (rev [0..<Suc k]) =
      map (\<lambda>i. (v div 16) div 16 ^ i mod 16) (rev [0..<k]) @ [v mod 16]"
    by (simp add: div_mult2_eq del: upt_Suc)
  then have "foldl (\<lambda>n d. n * 16 + d) 0 (map (\<lambda>i. v div 16 ^ i mod 16) (rev [0..<Suc k])) =
      (v div 16) mod 16 ^ k * 16 + v mod 16"
    by (simp only: Suc foldl_append foldl.simps)
  also have "\<dots> = v mod 16 ^ Suc k"
    by (simp add: mod_mult2_eq)
  finally show ?case .
qed

lemma ParseUint_hex16: "ParseUint (hex16 w) 16 = (w, None)"
proof -
  let ?ds = "map (\<lambda>i. unat w div 16 ^ i mod 16) (rev [0..<16])"
  have lt: "unat w < 2 ^ LENGTH(64)" by (rule unsigned_less)
  then have "unat w < 16 ^ 16" by simp
  then have v: "foldl (\<lambda>n d. n * 16 + d) 0 ?ds = unat w"
    by (simp only: foldl_base16 mod_less)
  from lt have "unat w \<le> max_uint64" by (simp add: max_uint64_def)
  with v have "parse_uint_loop 16 0 (map digit_char ?ds) = (w, None)"
    by (subst parse_uint_loop_digits) auto
  moreover have "hex16 w = map digit_char ?ds" by (simp add: hex16_def del: upt_rec_numeral)
  moreover have "hex16 w \<noteq> []" by (simp add: hex16_def)
  ultimately show ?thesis by (simp add: ParseUint_def)
qed

end
