(* ===== verification/Os.thy ===== *)
theory Os
  imports Prelude
begin

text \<open>
  The boundary of the program. Every system call, netlink call, terminal output, log line and
  lock operation of the sources is a value of type \<open>call\<close>. Performing one appends it to the
  trace of the state, and what it returns is given by the state's oracles: functions of the
  calls made before and of the call itself, one per type of result. The kernel, the packages
  outside the repository and the user are thus parameters: a theorem about a function here
  holds for every behaviour they may show. Flags are kept symbolic, as the list of the names
  the code combines with \<open>|\<close>.
\<close>

section \<open>Calls\<close>

datatype mflag = MS_REC | MS_SLAVE | MS_PRIVATE | MS_BIND | MS_REMOUNT | MS_RDONLY
  | MS_NOSUID | MS_NODEV | MS_NOEXEC

datatype cflag = CLONE_NEWUSER | CLONE_NEWNET | CLONE_NEWNS | CLONE_NEWPID | CLONE_NEWIPC
  | CLONE_NEWUTS | CLONE_NEWCGROUP

datatype fscall =
    Mount string string string "mflag list" string
  | UnmountDetach string
  | Chdir string
  | PivotRootTo string string
  | MkdirAll string
  | Stat string
  | OpenCreate string
  | OpenFile string
  | OpenPath string
  | FileSync string
  | FileClose string
  | ReadFile string
  | WriteFile string string
  | Remove string
  | RemoveAll string
  | Symlink string string
  | Readlink string
  | Statfs string

datatype socktype = SOCK_SEQPACKET | SOCK_STREAM

datatype fdcall =
    Read int
  | Write int string
  | Close int
  | Dup2 int int
  | SetNonblock int
  | IoctlTIOCSCTTY int
  | Setsid
  | Pipe
  | Socketpair socktype
  | PtyOpen
  | Sendmsg int string "int list"
  | Recvmsg int nat
  | MakeRaw int
  | Restore int

datatype prctl_op = PR_CAPBSET_DROP "64 word" | PR_CAP_AMBIENT_CLEAR_ALL
  | PR_CAP_AMBIENT_RAISE "64 word"

text \<open>\<open>unix.CapUserData\<close>: one of the two 32-bit halves of the capability sets.\<close>

record CapUserData =
  ud_Effective :: "32 word"
  ud_Permitted :: "32 word"
  ud_Inheritable :: "32 word"

text \<open>\<open>struct sock_filter\<close>: one instruction of a filter program.\<close>

record sock_filter =
  sf_code :: "16 word"
  sf_jt :: "8 word"
  sf_jf :: "8 word"
  sf_k :: "32 word"

datatype signal = SIGKILL | SIGNONE | SIG int

datatype prcall =
    Fork
  | Wait4 int
  | Kill int signal
  | Exec string "string list" "string list"
  | Command string "string list"
  | Getpid
  | Getuid
  | Geteuid
  | Getgid
  | Getegid
  | Prctl prctl_op
  | Capget
  | Capset CapUserData CapUserData
  | Unshare "cflag list"
  | Setns int cflag
  | NoNewPrivs
  | SeccompFilter "sock_filter list"
  | SleepMs nat
  | NumCPU

datatype ntcall =
    AddBridge string
  | AddVeth string string
  | LinkByName string
  | LinkByIndex int
  | LinkDel string
  | LinkSetMaster string string
  | LinkSetUp string
  | LinkSetDown string
  | LinkSetName string string
  | LinkSetNsFd string int
  | AddrAdd string string
  | RouteAdd int string
  | RouteList
  | NetnsGet
  | NetnsGetFromPid int
  | NetnsSet int
  | NetnsClose int
  | Listen string
  | ListenerClose int
  | Accept int
  | Dial string
  | ConnClose int
  | IoCopy int int
  | RandRead nat

datatype loglevel = TypeInfo | TypeSuccess | TypeWarn | TypeError | TypeContainer

text \<open>\<open>LogMsg\<close> of \<open>lib/logger.go\<close>, what the log channel carries.\<close>

record LogMsg =
  MsgContainer :: string
  MsgData :: string
  MsgType :: loglevel
  IsHeader :: bool
  IsFooter :: bool

datatype mutex = ScxMu | MuxMu | AllocMu | ForwardMu

text \<open>
  Calls of the runtime and the terminal. \<open>TableWrite\<close> is no call of the program: it marks, in the
  trace, a write of the supervisor's table of containers (an assignment to an entry or its
  deletion), so that what is held at that moment can be stated.
\<close>

datatype uicall =
    Log loglevel string "arg list"
  | Print string
  | Printf string "arg list"
  | SendLog LogMsg
  | Lock mutex
  | Unlock mutex
  | TableWrite string
  | Spawn string "arg list"
  | TrySend int
  | WgAdd
  | WgDone
  | WgWait
  | ChanSend string
  | ChanRecv string
  | ChanClose string

datatype call = FsC fscall | FdC fdcall | PrC prcall | NetC ntcall | UiC uicall

section \<open>The state and its oracles\<close>

text \<open>
  Control data that comes with a received message, after the parsers of \<open>x/sys/unix\<close> have seen
  it: none, unparsable, no message in it, a message that is no \<open>SCM_RIGHTS\<close>, or descriptors.
\<close>

datatype control = NoControl | BadControl err | EmptyControl | BadRights err | Rights "int list"

text \<open>
  A route as the sources read it: destination and gateway, if there is one, and the link's index.
\<close>

type_synonym route = "string option \<times> string option \<times> int"

record os =
  trace :: "call list"
  o_err :: "call list \<Rightarrow> call \<Rightarrow> err option"
  o_int :: "call list \<Rightarrow> call \<Rightarrow> err + int"
  o_str :: "call list \<Rightarrow> call \<Rightarrow> err + string"
  o_dir :: "call list \<Rightarrow> call \<Rightarrow> err + bool"
  o_pair :: "call list \<Rightarrow> call \<Rightarrow> err + int \<times> int"
  o_msg :: "call list \<Rightarrow> call \<Rightarrow> err + string \<times> control"
  o_caps :: "call list \<Rightarrow> call \<Rightarrow> err + CapUserData \<times> CapUserData"
  o_routes :: "call list \<Rightarrow> call \<Rightarrow> err + route list"

text \<open>A state whose calls all succeed, with some fixed results; examples override its fields.\<close>

definition quiet_os :: os where
  "quiet_os = \<lparr>trace = [], o_err = (\<lambda>_ _. None), o_int = (\<lambda>_ _. Inr 7), o_str = (\<lambda>_ _. Inr []),
     o_dir = (\<lambda>_ _. Inr False), o_pair = (\<lambda>_ _. Inr (3, 4)), o_msg = (\<lambda>_ _. Inr ([], NoControl)),
     o_caps = (\<lambda>_ _. Inr (\<lparr>ud_Effective = 0, ud_Permitted = 0, ud_Inheritable = 0\<rparr>,
       \<lparr>ud_Effective = 0, ud_Permitted = 0, ud_Inheritable = 0\<rparr>)), o_routes = (\<lambda>_ _. Inr [])\<rparr>"

definition emit :: "call \<Rightarrow> 'z os_scheme \<Rightarrow> 'z os_scheme" where
  "emit c s = s\<lparr>trace := trace s @ [c]\<rparr>"

definition sys_err :: "call \<Rightarrow> ('z os_scheme, err option) state" where
  "sys_err c = State (\<lambda>s. (o_err s (trace s) c, emit c s))"

definition sys_int :: "call \<Rightarrow> ('z os_scheme, err + int) state" where
  "sys_int c = State (\<lambda>s. (o_int s (trace s) c, emit c s))"

definition sys_str :: "call \<Rightarrow> ('z os_scheme, err + string) state" where
  "sys_str c = State (\<lambda>s. (o_str s (trace s) c, emit c s))"

definition sys_dir :: "call \<Rightarrow> ('z os_scheme, err + bool) state" where
  "sys_dir c = State (\<lambda>s. (o_dir s (trace s) c, emit c s))"

definition sys_pair :: "call \<Rightarrow> ('z os_scheme, err + int \<times> int) state" where
  "sys_pair c = State (\<lambda>s. (o_pair s (trace s) c, emit c s))"

definition sys_msg :: "call \<Rightarrow> ('z os_scheme, err + string \<times> control) state" where
  "sys_msg c = State (\<lambda>s. (o_msg s (trace s) c, emit c s))"

definition sys_caps :: "call \<Rightarrow> ('z os_scheme, err + CapUserData \<times> CapUserData) state" where
  "sys_caps c = State (\<lambda>s. (o_caps s (trace s) c, emit c s))"

definition sys_routes :: "call \<Rightarrow> ('z os_scheme, err + route list) state" where
  "sys_routes c = State (\<lambda>s. (o_routes s (trace s) c, emit c s))"

text \<open>A call whose result the code ignores.\<close>

definition sys :: "call \<Rightarrow> ('z os_scheme, unit) state" where
  "sys c = State (\<lambda>s. ((), emit c s))"

text \<open>
  \<open>LogError\<close> of \<open>lib/logger.go\<close> logs and returns the same text as an error; the other log
  functions only log. A log line is kept as its format and arguments.
\<close>

definition LogError :: "string \<Rightarrow> arg list \<Rightarrow> ('z os_scheme, err) state" where
  "LogError fmt args = do { _ \<leftarrow> sys (UiC (Log TypeError fmt args)); return (Errorf fmt args) }"

definition LogInfo :: "string \<Rightarrow> arg list \<Rightarrow> ('z os_scheme, unit) state" where
  "LogInfo fmt args = sys (UiC (Log TypeInfo fmt args))"

definition LogWarn :: "string \<Rightarrow> arg list \<Rightarrow> ('z os_scheme, unit) state" where
  "LogWarn fmt args = sys (UiC (Log TypeWarn fmt args))"

definition LogSuccess :: "string \<Rightarrow> arg list \<Rightarrow> ('z os_scheme, unit) state" where
  "LogSuccess fmt args = sys (UiC (Log TypeSuccess fmt args))"

text \<open>\<open>WaitFd\<close> and \<open>FreeFd\<close> of \<open>lib/types.go\<close>: read one byte, or write one, and close.\<close>

definition WaitFd :: "int \<Rightarrow> ('z os_scheme, unit) state" where
  "WaitFd fd = do { _ \<leftarrow> sys (FdC (Read fd)); sys (FdC (Close fd)) }"

definition FreeFd :: "int \<Rightarrow> ('z os_scheme, unit) state" where
  "FreeFd fd = do { _ \<leftarrow> sys (FdC (Write fd [CHR 0x01])); sys (FdC (Close fd)) }"

section \<open>Running the primitives\<close>

lemma run_sys_err [simp]: "run_state (sys_err c) s = (o_err s (trace s) c, emit c s)"
  by (simp add: sys_err_def)

lemma run_sys_int [simp]: "run_state (sys_int c) s = (o_int s (trace s) c, emit c s)"
  by (simp add: sys_int_def)

lemma run_sys_str [simp]: "run_state (sys_str c) s = (o_str s (trace s) c, emit c s)"
  by (simp add: sys_str_def)

lemma run_sys_dir [simp]: "run_state (sys_dir c) s = (o_dir s (trace s) c, emit c s)"
  by (simp add: sys_dir_def)

lemma run_sys_pair [simp]: "run_state (sys_pair c) s = (o_pair s (trace s) c, emit c s)"
  by (simp add: sys_pair_def)

lemma run_sys_msg [simp]: "run_state (sys_msg c) s = (o_msg s (trace s) c, emit c s)"
  by (simp add: sys_msg_def)

lemma run_sys_caps [simp]: "run_state (sys_caps c) s = (o_caps s (trace s) c, emit c s)"
  by (simp add: sys_caps_def)

lemma run_sys_routes [simp]: "run_state (sys_routes c) s = (o_routes s (trace s) c, emit c s)"
  by (simp add: sys_routes_def)

lemma run_sys [simp]: "run_state (sys c) s = ((), emit c s)"
  by (simp add: sys_def)

lemma run_LogError [simp]:
  "run_state (LogError fmt args) s = (Errorf fmt args, emit (UiC (Log TypeError fmt args)) s)"
  by (simp add: LogError_def)

lemma run_Log [simp]:
  "run_state (LogInfo fmt args) s = ((), emit (UiC (Log TypeInfo fmt args)) s)"
  "run_state (LogWarn fmt args) s = ((), emit (UiC (Log TypeWarn fmt args)) s)"
  "run_state (LogSuccess fmt args) s = ((), emit (UiC (Log TypeSuccess fmt args)) s)"
  by (simp_all add: LogInfo_def LogWarn_def LogSuccess_def)

lemma run_WaitFd [simp]:
  "run_state (WaitFd fd) s = ((), emit (FdC (Close fd)) (emit (FdC (Read fd)) s))"
  by (simp add: WaitFd_def)

lemma run_FreeFd [simp]:
  "run_state (FreeFd fd) s = ((), emit (FdC (Close fd)) (emit (FdC (Write fd [CHR 0x01])) s))"
  by (simp add: FreeFd_def)

lemma trace_emit [simp]: "trace (emit c s) = trace s @ [c]"
  by (simp add: emit_def)

lemma oracles_emit [simp]:
  "o_err (emit c s) = o_err s" "o_int (emit c s) = o_int s" "o_str (emit c s) = o_str s"
  "o_dir (emit c s) = o_dir s" "o_pair (emit c s) = o_pair s" "o_msg (emit c s) = o_msg s"
  "o_caps (emit c s) = o_caps s" "o_routes (emit c s) = o_routes s"
  by (simp_all add: emit_def)

section \<open>Computations that only append calls\<close>

text \<open>
  \<open>appends m\<close>: all \<open>m\<close> does to the state is to append calls to its trace; \<open>calls m s\<close> are the
  calls it makes from \<open>s\<close>.
\<close>

definition appends :: "('z os_scheme, 'a) state \<Rightarrow> bool" where
  "appends m \<longleftrightarrow> (\<forall>s. \<exists>cs. snd (run_state m s) = s\<lparr>trace := trace s @ cs\<rparr>)"

definition calls :: "('z os_scheme, 'a) state \<Rightarrow> 'z os_scheme \<Rightarrow> call list" where
  "calls m s = drop (length (trace s)) (trace (snd (run_state m s)))"

definition result :: "('z os_scheme, 'a) state \<Rightarrow> 'z os_scheme \<Rightarrow> 'a" where
  "result m s = fst (run_state m s)"

definition with_calls :: "call list \<Rightarrow> 'z os_scheme \<Rightarrow> 'z os_scheme" where
  "with_calls cs s = s\<lparr>trace := trace s @ cs\<rparr>"

lemma with_calls_simps [simp]:
  "trace (with_calls cs s) = trace s @ cs" "o_err (with_calls cs s) = o_err s" "o_int (with_calls cs s) = o_int s"
  "o_str (with_calls cs s) = o_str s" "o_dir (with_calls cs s) = o_dir s" "o_pair (with_calls cs s) = o_pair s"
  "o_msg (with_calls cs s) = o_msg s" "o_caps (with_calls cs s) = o_caps s" "o_routes (with_calls cs s) = o_routes s"
  "with_calls [] s = s" "with_calls ds (with_calls cs s) = with_calls (cs @ ds) s" "with_calls ds (emit c s) = with_calls (c # ds) s"
  "emit c (with_calls cs s) = with_calls (cs @ [c]) s"
  by (simp_all add: with_calls_def emit_def)

lemma emit_with_calls: "emit c s = with_calls [c] s"
  by (simp add: with_calls_def emit_def)

lemma appends_run:
  assumes "appends m"
  shows "run_state m s = (result m s, with_calls (calls m s) s)"
proof -
  from assms obtain cs where "snd (run_state m s) = s\<lparr>trace := trace s @ cs\<rparr>"
    by (auto simp: appends_def)
  then have "calls m s = cs" and "snd (run_state m s) = with_calls cs s"
    by (simp_all add: calls_def with_calls_def)
  then show ?thesis by (simp add: result_def prod_eq_iff)
qed

lemma appendsI: "(\<And>s. \<exists>cs. snd (run_state m s) = with_calls cs s) \<Longrightarrow> appends m"
  by (auto simp: appends_def with_calls_def)

lemma appends_return [io_only]: "appends (return x)"
  by (rule appendsI) (auto intro: exI [of _ "[]"])

lemma appends_prims [io_only]:
  "appends (sys_err c)" "appends (sys_int c)" "appends (sys_str c)" "appends (sys_dir c)"
  "appends (sys_pair c)" "appends (sys_msg c)" "appends (sys_caps c)" "appends (sys_routes c)"
  "appends (sys c)"
  by (auto intro!: appendsI simp: emit_with_calls)

lemma appends_bind [io_only]:
  assumes m: "appends m" and f: "\<And>x. appends (f x)"
  shows "appends (m \<bind> f)"
proof (rule appendsI)
  fix s
  show "\<exists>cs. snd (run_state (m \<bind> f) s) = with_calls cs s"
    by (simp add: appends_run [OF m] appends_run [OF f])
      blast
qed

lemma appends_obind [io_only]:
  assumes m: "appends m" and f: "\<And>x. appends (f x)"
  shows "appends (obind m f)"
  unfolding obind_def by (intro appends_bind m) (auto split: outcome.splits intro: f appends_return)

lemma appends_if [io_only]: "appends m \<Longrightarrow> appends n \<Longrightarrow> appends (if b then m else n)"
  by simp

lemma appends_case_option [io_only]:
  "appends m \<Longrightarrow> (\<And>x. appends (f x)) \<Longrightarrow> appends (case v of None \<Rightarrow> m | Some x \<Rightarrow> f x)"
  by (simp split: option.split)

lemma appends_case_sum [io_only]:
  "(\<And>e. appends (f e)) \<Longrightarrow> (\<And>x. appends (g x)) \<Longrightarrow> appends (case r of Inl e \<Rightarrow> f e | Inr x \<Rightarrow> g x)"
  by (simp split: sum.split)

lemma appends_case_prod [io_only]:
  "(\<And>x y. appends (f x y)) \<Longrightarrow> appends (case p of (x, y) \<Rightarrow> f x y)"
  by (simp split: prod.split)

lemma appends_case_outcome [io_only]:
  "\<lbrakk> \<And>x. appends (f x); \<And>n. appends (g n); \<And>p. appends (h p); appends k \<rbrakk> \<Longrightarrow>
    appends (case r of Ret x \<Rightarrow> f x | Exit n \<Rightarrow> g n | Panic p \<Rightarrow> h p | Replaced \<Rightarrow> k)"
  by (simp split: outcome.split)

lemma appends_for_each [io_only]: "(\<And>x. appends (f x)) \<Longrightarrow> appends (for_each xs f)"
  by (induction xs) (auto intro!: io_only)

lemma appends_for_each_err [io_only]: "(\<And>x. appends (f x)) \<Longrightarrow> appends (for_each_err xs f)"
  by (induction xs) (auto intro!: io_only)

lemma appends_deferring [io_only]: "appends d \<Longrightarrow> appends m \<Longrightarrow> appends (deferring d m)"
  unfolding deferring_def by (intro io_only)

lemma run_deferring [simp]:
  "run_state (deferring d m) s = (fst (run_state m s), snd (run_state d (snd (run_state m s))))"
  by (simp add: deferring_def case_prod_unfold)

lemma appends_Log [io_only]:
  "appends (LogError fmt args)" "appends (LogInfo fmt args)" "appends (LogWarn fmt args)"
  "appends (LogSuccess fmt args)" "appends (WaitFd fd)" "appends (FreeFd fd)"
  by (simp_all add: LogError_def LogInfo_def LogWarn_def LogSuccess_def WaitFd_def FreeFd_def io_only)

text \<open>Composing runs.\<close>

lemma calls_bind:
  assumes "appends m" and "\<And>x. appends (f x)"
  shows "calls (m \<bind> f) s = calls m s @ calls (f (result m s)) (with_calls (calls m s) s)"
  using appends_run [OF assms(1)] appends_run [OF assms(2)]
  by (simp add: calls_def [of "m \<bind> f"])

lemma result_bind:
  assumes "appends m"
  shows "result (m \<bind> f) s = result (f (result m s)) (with_calls (calls m s) s)"
  using appends_run [OF assms] by (simp add: result_def [of "m \<bind> f"] result_def [of "f _"])

text \<open>Calls of a loop that emits one call per element.\<close>

lemma run_for_each_sys:
  "run_state (for_each xs (\<lambda>x. sys (f x))) s = ((), with_calls (map f xs) s)"
  by (induction xs arbitrary: s) auto

text \<open>Every call of the trace with \<open>P\<close> has an earlier one with \<open>Q\<close>.\<close>

definition preceded_by :: "(call \<Rightarrow> bool) \<Rightarrow> (call \<Rightarrow> bool) \<Rightarrow> call list \<Rightarrow> bool" where
  "preceded_by P Q cs \<longleftrightarrow> (\<forall>us c vs. cs = us @ c # vs \<longrightarrow> P c \<longrightarrow> (\<exists>d \<in> set us. Q d))"

section \<open>Results and calls together\<close>

text \<open>
  \<open>yields m Q\<close>: \<open>m\<close> only appends calls, and its result and those calls are related by \<open>Q\<close>,
  whatever the oracles answer. The rules below compute it along the structure of \<open>m\<close>.
\<close>

definition yields :: "('z os_scheme, 'a) state \<Rightarrow> ('a \<Rightarrow> call list \<Rightarrow> bool) \<Rightarrow> bool" where
  "yields m Q \<longleftrightarrow> (\<forall>s. \<exists>cs. snd (run_state m s) = with_calls cs s \<and> Q (fst (run_state m s)) cs)"

named_theorems yield_rules \<open>what a computation returns and calls\<close>

lemma yieldsD: "yields m Q \<Longrightarrow> Q (result m s) (calls m s)"
proof -
  assume "yields m Q"
  then obtain cs where "snd (run_state m s) = with_calls cs s" "Q (fst (run_state m s)) cs"
    by (auto simp: yields_def)
  moreover from this have "calls m s = cs" by (simp add: calls_def)
  ultimately show ?thesis by (simp add: result_def)
qed

lemma yields_mono: "yields m P \<Longrightarrow> (\<And>r cs. P r cs \<Longrightarrow> Q r cs) \<Longrightarrow> yields m Q"
  by (auto simp: yields_def) blast

lemma yields_appends: "yields m Q \<Longrightarrow> appends m"
  by (auto simp: yields_def intro!: appendsI)

lemma yields_return [yield_rules]: "Q x [] \<Longrightarrow> yields (return x) Q"
  unfolding yields_def by (intro allI exI [of _ "[]"]) simp

lemma yields_bind:
  assumes "yields m (\<lambda>x cs. yields (f x) (\<lambda>r ds. Q r (cs @ ds)))"
  shows "yields (m \<bind> f) Q"
  unfolding yields_def
proof
  fix s
  obtain x s' where r: "run_state m s = (x, s')" by (cases "run_state m s")
  with assms obtain cs where 1: "s' = with_calls cs s" "yields (f x) (\<lambda>r ds. Q r (cs @ ds))"
    unfolding yields_def [of m] by (metis fst_conv snd_conv)
  then obtain ds where "snd (run_state (f x) s') = with_calls ds s'" "Q (fst (run_state (f x) s')) (cs @ ds)"
    unfolding yields_def by blast
  with r 1 show "\<exists>cs. snd (run_state (m \<bind> f) s) = with_calls cs s \<and> Q (fst (run_state (m \<bind> f) s)) cs"
    by (intro exI [of _ "cs @ ds"]) simp
qed

lemma yields_prims [yield_rules]:
  "(\<And>x. Q x [c]) \<Longrightarrow> yields (sys_err c) Q" "(\<And>x. Q' x [c]) \<Longrightarrow> yields (sys_int c) Q'"
  "(\<And>x. Qs x [c]) \<Longrightarrow> yields (sys_str c) Qs" "(\<And>x. Qd x [c]) \<Longrightarrow> yields (sys_dir c) Qd"
  "(\<And>x. Qp x [c]) \<Longrightarrow> yields (sys_pair c) Qp" "(\<And>x. Qm x [c]) \<Longrightarrow> yields (sys_msg c) Qm"
  "(\<And>x. Qc x [c]) \<Longrightarrow> yields (sys_caps c) Qc" "(\<And>x. Qr x [c]) \<Longrightarrow> yields (sys_routes c) Qr"
  "Qu () [c] \<Longrightarrow> yields (sys c) Qu"
  unfolding yields_def by (auto simp: emit_with_calls intro!: exI [of _ "[c]"])

lemma yields_bind_prims [yield_rules]:
  "(\<And>x. yields (fe x) (\<lambda>r ds. Q r (c # ds))) \<Longrightarrow> yields (sys_err c \<bind> fe) Q"
  "(\<And>x. yields (fi x) (\<lambda>r ds. Q r (c # ds))) \<Longrightarrow> yields (sys_int c \<bind> fi) Q"
  "(\<And>x. yields (fs x) (\<lambda>r ds. Q r (c # ds))) \<Longrightarrow> yields (sys_str c \<bind> fs) Q"
  "(\<And>x. yields (fd x) (\<lambda>r ds. Q r (c # ds))) \<Longrightarrow> yields (sys_dir c \<bind> fd) Q"
  "(\<And>x. yields (fp x) (\<lambda>r ds. Q r (c # ds))) \<Longrightarrow> yields (sys_pair c \<bind> fp) Q"
  "(\<And>x. yields (fm x) (\<lambda>r ds. Q r (c # ds))) \<Longrightarrow> yields (sys_msg c \<bind> fm) Q"
  "(\<And>x. yields (fc x) (\<lambda>r ds. Q r (c # ds))) \<Longrightarrow> yields (sys_caps c \<bind> fc) Q"
  "(\<And>x. yields (fr x) (\<lambda>r ds. Q r (c # ds))) \<Longrightarrow> yields (sys_routes c \<bind> fr) Q"
  "yields (fu ()) (\<lambda>r ds. Q r (c # ds)) \<Longrightarrow> yields (sys c \<bind> fu) Q"
  by (rule yields_bind, rule yield_rules, simp)+

lemma yields_bind_return [yield_rules]: "yields (f x) Q \<Longrightarrow> yields (return x \<bind> f) Q"
  by (rule yields_bind, rule yield_rules) simp

lemma yields_bind_Log [yield_rules]:
  "yields (f (Errorf fmt args)) (\<lambda>r ds. Q r (UiC (Log TypeError fmt args) # ds)) \<Longrightarrow>
    yields (LogError fmt args \<bind> f) Q"
  "yields (g ()) (\<lambda>r ds. Q r (UiC (Log TypeInfo fmt args) # ds)) \<Longrightarrow> yields (LogInfo fmt args \<bind> g) Q"
  "yields (g ()) (\<lambda>r ds. Q r (UiC (Log TypeWarn fmt args) # ds)) \<Longrightarrow> yields (LogWarn fmt args \<bind> g) Q"
  "yields (g ()) (\<lambda>r ds. Q r (UiC (Log TypeSuccess fmt args) # ds)) \<Longrightarrow> yields (LogSuccess fmt args \<bind> g) Q"
  "yields (g ()) (\<lambda>r ds. Q r (FdC (Read fd) # FdC (Close fd) # ds)) \<Longrightarrow> yields (WaitFd fd \<bind> g) Q"
  "yields (g ()) (\<lambda>r ds. Q r (FdC (Write fd [CHR 0x01]) # FdC (Close fd) # ds)) \<Longrightarrow>
    yields (FreeFd fd \<bind> g) Q"
  by (rule yields_bind, simp add: LogError_def LogInfo_def LogWarn_def LogSuccess_def WaitFd_def
      FreeFd_def yield_rules)+

lemma yields_Log [yield_rules]:
  "Q (Errorf fmt args) [UiC (Log TypeError fmt args)] \<Longrightarrow> yields (LogError fmt args) Q"
  "Qu () [UiC (Log TypeInfo fmt args)] \<Longrightarrow> yields (LogInfo fmt args) Qu"
  "Qu () [UiC (Log TypeWarn fmt args)] \<Longrightarrow> yields (LogWarn fmt args) Qu"
  "Qu () [UiC (Log TypeSuccess fmt args)] \<Longrightarrow> yields (LogSuccess fmt args) Qu"
  "Qu () [FdC (Read fd), FdC (Close fd)] \<Longrightarrow> yields (WaitFd fd) Qu"
  "Qu () [FdC (Write fd [CHR 0x01]), FdC (Close fd)] \<Longrightarrow> yields (FreeFd fd) Qu"
  by (simp_all add: LogError_def LogInfo_def LogWarn_def LogSuccess_def WaitFd_def FreeFd_def yield_rules)

lemma yields_split [yield_rules]:
  "(b \<Longrightarrow> yields m Q) \<Longrightarrow> (\<not> b \<Longrightarrow> yields n Q) \<Longrightarrow> yields (if b then m else n) Q"
  "(v = None \<Longrightarrow> yields m Q) \<Longrightarrow> (\<And>x. v = Some x \<Longrightarrow> yields (f x) Q) \<Longrightarrow>
    yields (case v of None \<Rightarrow> m | Some x \<Rightarrow> f x) Q"
  "(\<And>e. r = Inl e \<Longrightarrow> yields (g e) Q) \<Longrightarrow> (\<And>x. r = Inr x \<Longrightarrow> yields (h x) Q) \<Longrightarrow>
    yields (case r of Inl e \<Rightarrow> g e | Inr x \<Rightarrow> h x) Q"
  "(\<And>x y. yields (k x y) Q) \<Longrightarrow> yields (case p of (x, y) \<Rightarrow> k x y) Q"
  "(\<And>x. yields (l x) Q) \<Longrightarrow> yields (let x = w in l x) Q"
  by (simp_all add: Let_def split: option.split sum.split prod.split)

lemma yields_deferring [yield_rules]:
  "yields m (\<lambda>x cs. yields d (\<lambda>_ ds. Q x (cs @ ds))) \<Longrightarrow> yields (deferring d m) Q"
  unfolding deferring_def
  by (rule yields_bind, erule yields_mono, rule yields_bind, erule yields_mono, rule yield_rules) simp

text \<open>The same for computations that may not return.\<close>

lemma yields_obind:
  assumes "yields m (\<lambda>x cs. case x of Ret y \<Rightarrow> yields (f y) (\<lambda>r ds. Q r (cs @ ds))
    | Exit n \<Rightarrow> Q (Exit n) cs | Panic p \<Rightarrow> Q (Panic p) cs | Replaced \<Rightarrow> Q Replaced cs)"
  shows "yields (obind m f) Q"
  unfolding obind_def
  by (rule yields_bind, rule yields_mono [OF assms]) (auto intro!: yield_rules split: outcome.splits)

lemma yields_bind_rule:
  "\<lbrakk> yields m P; \<And>x cs. P x cs \<Longrightarrow> yields (f x) (\<lambda>r ds. Q r (cs @ ds)) \<rbrakk> \<Longrightarrow> yields (m \<bind> f) Q"
  by (rule yields_bind, erule yields_mono)

lemma yields_obind_rule:
  "\<lbrakk> yields m P; \<And>x cs. P (Ret x) cs \<Longrightarrow> yields (f x) (\<lambda>r ds. Q r (cs @ ds));
     \<And>n cs. P (Exit n) cs \<Longrightarrow> Q (Exit n) cs; \<And>p cs. P (Panic p) cs \<Longrightarrow> Q (Panic p) cs;
     \<And>cs. P Replaced cs \<Longrightarrow> Q Replaced cs \<rbrakk> \<Longrightarrow> yields (obind m f) Q"
  by (rule yields_obind, erule yields_mono) (auto split: outcome.splits)

lemma yields_conj: "yields m P \<Longrightarrow> yields m Q \<Longrightarrow> yields m (\<lambda>r cs. P r cs \<and> Q r cs)"
  unfolding yields_def
proof
  fix s
  assume "\<forall>s. \<exists>cs. snd (run_state m s) = with_calls cs s \<and> P (fst (run_state m s)) cs"
    and "\<forall>s. \<exists>cs. snd (run_state m s) = with_calls cs s \<and> Q (fst (run_state m s)) cs"
  then obtain cs ds where "snd (run_state m s) = with_calls cs s" "P (fst (run_state m s)) cs"
    "snd (run_state m s) = with_calls ds s" "Q (fst (run_state m s)) ds" by blast
  moreover from this have "trace (with_calls cs s) = trace (with_calls ds s)" by simp
  then have "cs = ds" by simp
  ultimately show "\<exists>cs. snd (run_state m s) = with_calls cs s \<and> P (fst (run_state m s)) cs \<and>
      Q (fst (run_state m s)) cs" by blast
qed

text \<open>Loops that stop at the first error: what each round calls, and what they call in all.\<close>

lemma yields_for_each_err_all:
  assumes "\<And>x. x \<in> set xs \<Longrightarrow> yields (f x) (\<lambda>_ cs. \<forall>c \<in> set cs. S c)"
  shows "yields (for_each_err xs f) (\<lambda>_ cs. \<forall>c \<in> set cs. S c)"
  using assms
proof (induction xs)
  case (Cons x xs)
  have IH: "yields (for_each_err xs f) (\<lambda>_ cs. \<forall>c \<in> set cs. S c)" using Cons by simp
  show ?case
    unfolding for_each_err.simps
    by (rule yields_bind, rule yields_mono [OF Cons.prems [of x]], simp)
      (auto intro!: yield_rules intro: yields_mono [OF IH])
qed (simp add: yield_rules)

lemma yields_for_each_err_ok:
  fixes f :: "'a \<Rightarrow> ('z os_scheme, 'e option) state"
  assumes "\<And>x. x \<in> set xs \<Longrightarrow> yields (f x) (\<lambda>r cs. r = None \<longrightarrow> P x cs)"
  shows "yields (for_each_err xs f) (\<lambda>r cs. r = None \<longrightarrow> (\<exists>css. list_all2 P xs css \<and> cs = concat css))"
  using assms
proof (induction xs)
  case (Cons x xs)
  have IH: "yields (for_each_err xs f) (\<lambda>r cs. r = None \<longrightarrow> (\<exists>css. list_all2 P xs css \<and> cs = concat css))"
    using Cons by simp
  show ?case
    unfolding for_each_err.simps
  proof (rule yields_bind, rule yields_mono [OF Cons.prems [of x]], simp)
    fix r :: "'e option" and cs assume p: "r = None \<longrightarrow> P x cs"
    show "yields (case r of None \<Rightarrow> for_each_err xs f | Some er \<Rightarrow> return (Some er))
        (\<lambda>r ds. r = None \<longrightarrow> (\<exists>css. list_all2 P (x # xs) css \<and> cs @ ds = concat css))"
    proof (cases r)
      case None
      with p have p: "P x cs" by simp
      have "yields (for_each_err xs f)
        (\<lambda>r ds. r = None \<longrightarrow> (\<exists>css. list_all2 P (x # xs) css \<and> cs @ ds = concat css))"
      proof (rule yields_mono [OF IH], intro impI)
        fix r ds assume "r = None \<longrightarrow> (\<exists>css. list_all2 P xs css \<and> ds = concat css)" and "r = None"
        then obtain css where "list_all2 P xs css" "ds = concat css" by blast
        with p show "\<exists>css. list_all2 P (x # xs) css \<and> cs @ ds = concat css"
          by (intro exI [of _ "cs # css"]) simp
      qed
      with None show ?thesis by simp
    qed (simp add: yield_rules)
  qed
qed (simp add: yield_rules)

section \<open>Locks\<close>

text \<open>
  The mutexes held after a sequence of calls, innermost first. Go's mutexes are not reentrant and
  unlocking one that is not held is fatal, so neither leads anywhere; nor does writing the table of
  containers without the supervisor's mutex. Nor does locking out of
  order: the supervisor's mutex comes first, and under one of the others none is taken. Code that
  keeps to this order cannot deadlock on its mutexes.
\<close>

fun rank :: "mutex \<Rightarrow> nat" where
  "rank ScxMu = 0"
| "rank MuxMu = 1"
| "rank AllocMu = 1"
| "rank ForwardMu = 1"

fun held :: "mutex list \<Rightarrow> call list \<Rightarrow> mutex list option" where
  "held h [] = Some h"
| "held h (UiC (Lock m) # cs) = (if \<exists>k \<in> set h. rank m \<le> rank k then None else held (m # h) cs)"
| "held h (UiC (Unlock m) # cs) = (if m \<in> set h then held (remove1 m h) cs else None)"
| "held h (UiC (TableWrite k) # cs) = (if ScxMu \<in> set h then held h cs else None)"
| "held h (c # cs) = held h cs"

lemma held_append: "held h (cs @ ds) = Option.bind (held h cs) (\<lambda>h'. held h' ds)"
  by (induction h cs rule: held.induct) auto

text \<open>
  \<open>locks h m h'\<close>: run with the mutexes \<open>h\<close> held, \<open>m\<close> neither blocks on one it holds nor
  unlocks one it does not, whatever its calls return, and ends holding \<open>h'\<close>.
\<close>

definition locks :: "mutex list \<Rightarrow> ('z os_scheme, 'a) state \<Rightarrow> mutex list \<Rightarrow> bool" where
  "locks h m h' \<longleftrightarrow>
     (\<forall>s. \<exists>cs. trace (snd (run_state m s)) = trace s @ cs \<and> held h cs = Some h')"

named_theorems lock_rules \<open>which mutexes a computation holds before and after\<close>

lemma locks_held: "locks h m h' \<Longrightarrow> held h (calls m s) = Some h'"
  unfolding locks_def calls_def by (metis append_eq_conv_conj)

lemma locks_bind [lock_rules]:
  assumes m: "locks h m h'" and f: "\<And>x. locks h' (f x) h''"
  shows "locks h (m \<bind> f) h''"
  unfolding locks_def
proof
  fix s
  obtain x s' where r: "run_state m s = (x, s')" by (cases "run_state m s")
  with m obtain cs where 1: "trace s' = trace s @ cs" "held h cs = Some h'"
    unfolding locks_def by (metis snd_conv)
  from f [of x] obtain ds where 2: "trace (snd (run_state (f x) s')) = trace s' @ ds" "held h' ds = Some h''"
    unfolding locks_def by blast
  from r 1 2 show "\<exists>cs. trace (snd (run_state (m \<bind> f) s)) = trace s @ cs \<and> held h cs = Some h''"
    by (intro exI [of _ "cs @ ds"]) (simp add: held_append)
qed

lemma locks_skip:
  assumes "\<And>s. trace (snd (run_state m s)) = trace s"
  shows "locks h m h"
  unfolding locks_def using assms by (intro allI exI [of _ "[]"]) simp

lemma locks_return [lock_rules]: "locks h (return x) h" "locks h State_Monad.get h"
  by (rule locks_skip, simp)+

lemma locks_update [lock_rules]:
  "(\<And>s. trace (f s) = trace s) \<Longrightarrow> locks h (State_Monad.update f) h"
  by (rule locks_skip) (simp add: State_Monad.update_def)

fun is_lock :: "call \<Rightarrow> bool" where
  "is_lock (UiC (Lock _)) = True"
| "is_lock (UiC (Unlock _)) = True"
| "is_lock (UiC (TableWrite _)) = True"
| "is_lock _ = False"

lemma held_skip: "\<not> is_lock c \<Longrightarrow> held h (c # cs) = held h cs"
  by (induction h "c # cs" rule: held.induct) auto

lemma locks_call:
  assumes "\<And>s. trace (snd (run_state m s)) = trace s @ [c]" and "\<not> is_lock c"
  shows "locks h m h"
  unfolding locks_def using assms held_skip [OF assms(2), of h "[]"] by (intro allI exI [of _ "[c]"]) simp

lemma locks_prims [lock_rules]:
  assumes "\<not> is_lock c"
  shows "locks h (sys_err c) h" "locks h (sys_int c) h" "locks h (sys_str c) h"
    "locks h (sys_dir c) h" "locks h (sys_pair c) h" "locks h (sys_msg c) h" "locks h (sys_caps c) h"
    "locks h (sys_routes c) h" "locks h (sys c) h"
  by (rule locks_call [OF _ assms], simp)+

lemma locks_Log [lock_rules]:
  "locks h (LogError fmt args) h" "locks h (LogInfo fmt args) h" "locks h (LogWarn fmt args) h"
  "locks h (LogSuccess fmt args) h" "locks h (WaitFd fd) h" "locks h (FreeFd fd) h"
  unfolding LogError_def LogInfo_def LogWarn_def LogSuccess_def WaitFd_def FreeFd_def
  by (rule conjunctionI | rule lock_rules | simp)+

lemma locks_Lock [lock_rules]: "\<forall>k \<in> set h. rank k < rank m \<Longrightarrow> locks h (sys (UiC (Lock m))) (m # h)"
  unfolding locks_def by (intro allI exI [of _ "[UiC (Lock m)]"]) (auto simp: not_le)

lemma locks_Unlock [lock_rules]: "locks (m # h) (sys (UiC (Unlock m))) h"
  unfolding locks_def by (intro allI exI [of _ "[UiC (Unlock m)]"]) simp

lemma locks_TableWrite [lock_rules]: "ScxMu \<in> set h \<Longrightarrow> locks h (sys (UiC (TableWrite k))) h"
  unfolding locks_def by (intro allI exI [of _ "[UiC (TableWrite k)]"]) simp

lemma locks_if [lock_rules]: "locks h m h' \<Longrightarrow> locks h n h' \<Longrightarrow> locks h (if b then m else n) h'"
  by simp

lemma locks_case_option [lock_rules]:
  "locks h m h' \<Longrightarrow> (\<And>x. locks h (f x) h') \<Longrightarrow> locks h (case v of None \<Rightarrow> m | Some x \<Rightarrow> f x) h'"
  by (simp split: option.split)

lemma locks_case_sum [lock_rules]:
  "(\<And>e. locks h (f e) h') \<Longrightarrow> (\<And>x. locks h (g x) h') \<Longrightarrow>
    locks h (case r of Inl e \<Rightarrow> f e | Inr x \<Rightarrow> g x) h'"
  by (simp split: sum.split)

lemma locks_case_prod [lock_rules]:
  "(\<And>x y. locks h (f x y) h') \<Longrightarrow> locks h (case p of (x, y) \<Rightarrow> f x y) h'"
  by (simp split: prod.split)

lemma locks_case_list [lock_rules]:
  "locks h m h' \<Longrightarrow> (\<And>x xs. locks h (f x xs) h') \<Longrightarrow> locks h (case l of [] \<Rightarrow> m | x # xs \<Rightarrow> f x xs) h'"
  by (simp split: list.split)

lemma locks_Let [lock_rules]: "(\<And>x. locks h (f x) h') \<Longrightarrow> locks h (let x = v in f x) h'"
  by (simp add: Let_def)

lemma locks_deferring [lock_rules]:
  "locks h m h' \<Longrightarrow> locks h' d h'' \<Longrightarrow> locks h (deferring d m) h''"
  unfolding deferring_def by (rule lock_rules | assumption)+

lemma locks_for_each [lock_rules]: "(\<And>x. locks h (f x) h) \<Longrightarrow> locks h (for_each xs f) h"
  by (induction xs) (auto intro!: lock_rules)

lemma locks_for_each_err [lock_rules]: "(\<And>x. locks h (f x) h) \<Longrightarrow> locks h (for_each_err xs f) h"
  by (induction xs) (auto intro!: lock_rules)

text \<open>
  For a computation that may not return: if it does, it holds \<open>h'\<close>. A panic or an exit ends the
  process, so what is held then does not matter.
\<close>

definition olocks :: "mutex list \<Rightarrow> ('z os_scheme, 'a outcome) state \<Rightarrow> mutex list \<Rightarrow> bool" where
  "olocks h m h' \<longleftrightarrow>
     (\<forall>s. \<exists>cs h''. trace (snd (run_state m s)) = trace s @ cs \<and> held h cs = Some h'' \<and>
        (is_Ret (fst (run_state m s)) \<longrightarrow> h'' = h'))"

lemma olocks_of_locks: "locks h m h' \<Longrightarrow> olocks h m h'"
  unfolding locks_def olocks_def by blast

lemma olocks_bind [lock_rules]:
  assumes m: "locks h m h'" and f: "\<And>x. olocks h' (f x) h''"
  shows "olocks h (m \<bind> f) h''"
  unfolding olocks_def
proof
  fix s
  obtain x s' where r: "run_state m s = (x, s')" by (cases "run_state m s")
  with m obtain cs where 1: "trace s' = trace s @ cs" "held h cs = Some h'"
    unfolding locks_def by (metis snd_conv)
  from f [of x] obtain ds k where 2: "trace (snd (run_state (f x) s')) = trace s' @ ds"
    "held h' ds = Some k" "is_Ret (fst (run_state (f x) s')) \<longrightarrow> k = h''"
    unfolding olocks_def by blast
  from r 1 2 show "\<exists>cs k. trace (snd (run_state (m \<bind> f) s)) = trace s @ cs \<and> held h cs = Some k \<and>
      (is_Ret (fst (run_state (m \<bind> f) s)) \<longrightarrow> k = h'')"
    by (intro exI [of _ "cs @ ds"] exI [of _ k]) (simp add: held_append)
qed

lemma olocks_obind [lock_rules]:
  assumes m: "olocks h m h'" and f: "\<And>x. olocks h' (f x) h''"
  shows "olocks h (obind m f) h''"
  unfolding olocks_def
proof
  fix s
  obtain r s' where r: "run_state m s = (r, s')" by (cases "run_state m s")
  with m obtain cs k where 1: "trace s' = trace s @ cs" "held h cs = Some k" "is_Ret r \<longrightarrow> k = h'"
    unfolding olocks_def by (metis fst_conv snd_conv)
  show "\<exists>cs k. trace (snd (run_state (obind m f) s)) = trace s @ cs \<and> held h cs = Some k \<and>
      (is_Ret (fst (run_state (obind m f) s)) \<longrightarrow> k = h'')"
  proof (cases r)
    case (Ret x)
    with f [of x] obtain ds k' where 2: "trace (snd (run_state (f x) s')) = trace s' @ ds"
      "held h' ds = Some k'" "is_Ret (fst (run_state (f x) s')) \<longrightarrow> k' = h''"
      unfolding olocks_def by blast
    with r 1 Ret show ?thesis
      by (intro exI [of _ "cs @ ds"] exI [of _ k']) (simp add: held_append)
  qed (use r 1 in auto)
qed

lemma olocks_end [lock_rules]:
  "olocks h (return (Ret x)) h" "olocks h (return (Exit n)) h'" "olocks h (return (Panic p)) h'"
  "olocks h (return Replaced) h'"
  unfolding olocks_def by (auto intro!: exI [of _ "[]"])

lemma olocks_split [lock_rules]:
  "olocks h m h' \<Longrightarrow> olocks h n h' \<Longrightarrow> olocks h (if b then m else n) h'"
  "olocks h m h' \<Longrightarrow> (\<And>x. olocks h (f x) h') \<Longrightarrow> olocks h (case v of None \<Rightarrow> m | Some x \<Rightarrow> f x) h'"
  "(\<And>e. olocks h (k e) h') \<Longrightarrow> (\<And>x. olocks h (g x) h') \<Longrightarrow> olocks h (case r of Inl e \<Rightarrow> k e | Inr x \<Rightarrow> g x) h'"
  "(\<And>x y. olocks h (l x y) h') \<Longrightarrow> olocks h (case p of (x, y) \<Rightarrow> l x y) h'"
  "olocks h m h' \<Longrightarrow> (\<And>x xs. olocks h (q x xs) h') \<Longrightarrow> olocks h (case ls of [] \<Rightarrow> m | x # xs \<Rightarrow> q x xs) h'"
  "(\<And>x. olocks h (f x) h') \<Longrightarrow> olocks h (let x = w in f x) h'"
  by (simp_all add: Let_def split: option.split sum.split prod.split list.split)

end
