(* ===== verification/Types.thy ===== *)
theory Types
  imports Os
begin

text \<open>
  The data model of \<open>lib/types.go\<close>, \<open>lib/ipc.go\<close> and the configuration types of the other files
  of \<open>lib/\<close>: what a container is to be (\<open>ContainerSpec\<close>), the registry of workloads, the default
  specification, the descriptors a container and the supervisor talk over (\<open>IPC\<close>), and the
  handles on namespaces. A Go pointer that may be nil is an option.
\<close>

section \<open>Namespaces\<close>

text \<open>
  The seven constants in their \<open>iota\<close> order; \<open>NSOther n\<close> is the value \<open>n + 7\<close>, which a message
  may carry since the code converts any byte to a \<open>NamespaceType\<close>.
\<close>

datatype NamespaceType = NSUser | NSNet | NSMnt | NSPID | NSIPC | NSUTS | NSCgroup | NSOther nat

fun ns_code :: "NamespaceType \<Rightarrow> nat" where
  "ns_code NSUser = 0"
| "ns_code NSNet = 1"
| "ns_code NSMnt = 2"
| "ns_code NSPID = 3"
| "ns_code NSIPC = 4"
| "ns_code NSUTS = 5"
| "ns_code NSCgroup = 6"
| "ns_code (NSOther n) = n + 7"

definition ns_of_code :: "nat \<Rightarrow> NamespaceType" where
  "ns_of_code n =
     (if n = 0 then NSUser else if n = 1 then NSNet else if n = 2 then NSMnt
      else if n = 3 then NSPID else if n = 4 then NSIPC else if n = 5 then NSUTS
      else if n = 6 then NSCgroup else NSOther (n - 7))"

lemma ns_of_code_code [simp]: "ns_of_code (ns_code t) = t"
  by (cases t) (simp_all add: ns_of_code_def)

lemma ns_code_of_code [simp]: "ns_code (ns_of_code n) = n"
  by (auto simp: ns_of_code_def)

lemma ns_code_inject [simp]: "ns_code a = ns_code b \<longleftrightarrow> a = b"
  by (metis ns_of_code_code)

text \<open>The types are ordered as the integers they are in Go.\<close>

instantiation NamespaceType :: linorder
begin

definition less_eq_NamespaceType :: "NamespaceType \<Rightarrow> NamespaceType \<Rightarrow> bool" where
  "less_eq_NamespaceType a b \<longleftrightarrow> ns_code a \<le> ns_code b"

definition less_NamespaceType :: "NamespaceType \<Rightarrow> NamespaceType \<Rightarrow> bool" where
  "less_NamespaceType a b \<longleftrightarrow> ns_code a < ns_code b"

instance
  by standard (auto simp: less_eq_NamespaceType_def less_NamespaceType_def)

end

text \<open>The order in which \<open>lib/fds_setup.go\<close> and \<open>lib/namespaces.go\<close> walk the types.\<close>

definition all_ns :: "NamespaceType list" where
  "all_ns = [NSUser, NSNet, NSMnt, NSPID, NSIPC, NSUTS, NSCgroup]"

record NamespaceConfig =
  USER :: bool
  NET :: bool
  MOUNT :: bool
  PIDNS :: bool
  IPCNS :: bool
  UTS :: bool
  CGROUP :: bool

record ShareSpec =
  ShareType :: NamespaceType
  FromContainer :: string

record NamespaceHandle =
  HandleType :: NamespaceType
  FD :: int
  Ref :: int

section \<open>Configuration of a container\<close>

record FSConfig =
  Rootfs :: string
  ReadOnly :: bool
  Proc :: bool
  Sys :: bool
  Dev :: bool
  UseTmpfs :: bool

record CGroupsConfig =
  CPUMax :: string
  MemoryMax :: string
  PIDsMax :: string
  IOMax :: string
  CgPath :: string

type_synonym Capability = int

definition CAP_SYS_ADMIN :: Capability where
  "CAP_SYS_ADMIN = 21"

definition CAP_AUDIT_READ :: Capability where
  "CAP_AUDIT_READ = 37"

record CapsConfig =
  AllowCaps :: "Capability list"

datatype Profile = ProfileDebugShell | ProfileBatch | ProfileWorkload | ProfileHello
  | ProfileIpLink | ProfileLs | ProfileNetworkVerify

datatype ExecutionMode = ModeInteractive | ModeBatch

record WorkloadSpec =
  Path :: string
  Args :: "string list"
  Env :: "string list"
  Mode :: ExecutionMode

record ContainerSpec =
  ID :: string
  FS :: FSConfig
  Capabilities :: CapsConfig
  Cgroups :: CGroupsConfig
  Seccomp :: Profile
  Workload :: WorkloadSpec
  Namespaces :: NamespaceConfig
  Shares :: "ShareSpec list"
  IsNetRoot :: bool

text \<open>The map \<open>WorkloadRegistry\<close>; two profiles have no entry.\<close>

fun WorkloadRegistry :: "Profile \<Rightarrow> WorkloadSpec option" where
  "WorkloadRegistry ProfileDebugShell = Some \<lparr>
     Path = ''/bin/sh'', Args = [''sh'', ''-i''],
     Env = [''PATH=/usr/local/sbin:/usr/local/bin:/usr/sbin:/usr/bin:/sbin:/bin'',
            ''TERM=xterm-256color'', ''HOME=/root''],
     Mode = ModeInteractive\<rparr>"
| "WorkloadRegistry ProfileBatch = Some \<lparr>
     Path = ''/bin/sh'', Args = [''sh'', ''-c'', ''id''],
     Env = [''PATH=/usr/local/sbin:/usr/local/bin:/usr/sbin:/usr/bin:/sbin:/bin'',
            ''HOME=/root''],
     Mode = ModeBatch\<rparr>"
| "WorkloadRegistry ProfileWorkload = Some \<lparr>
     Path = ''/bin/nc'', Args = [''nc'', ''-lp'', ''80''],
     Env = [''PATH=/bin:/usr/bin''], Mode = ModeBatch\<rparr>"
| "WorkloadRegistry ProfileIpLink = Some \<lparr>
     Path = ''/bin/ip'', Args = [''ip'', ''addr'', ''show''],
     Env = [''PATH=/bin:/sbin:/usr/bin''], Mode = ModeBatch\<rparr>"
| "WorkloadRegistry ProfileLs = Some \<lparr>
     Path = ''/bin/ls'', Args = [''ls'', ''/sys/class/net''],
     Env = [''PATH=/bin:/usr/bin''], Mode = ModeBatch\<rparr>"
| "WorkloadRegistry ProfileHello = None"
| "WorkloadRegistry ProfileNetworkVerify = None"

definition DefaultSpec :: ContainerSpec where
  "DefaultSpec = \<lparr>
     ID = [],
     FS = \<lparr>Rootfs = ''/dev/shm/bctor-root/'', ReadOnly = False, Proc = True, Sys = True,
           Dev = True, UseTmpfs = True\<rparr>,
     Capabilities = \<lparr>AllowCaps = [CAP_SYS_ADMIN]\<rparr>,
     Cgroups = \<lparr>CPUMax = ''50000 100000'', MemoryMax = ''12M'', PIDsMax = ''5'', IOMax = [],
                CgPath = ''/sys/fs/cgroup/bctor''\<rparr>,
     Seccomp = ProfileDebugShell,
     Workload = \<lparr>Path = [], Args = [], Env = [], Mode = ModeInteractive\<rparr>,
     Namespaces = \<lparr>USER = True, NET = True, MOUNT = True, PIDNS = True, IPCNS = False,
                   UTS = False, CGROUP = False\<rparr>,
     Shares = [],
     IsNetRoot = False\<rparr>"

section \<open>Descriptors\<close>

text \<open>
  \<open>IPC\<close> of \<open>lib/ipc.go\<close>: both ends of each pipe and socket pair, the reading end of a pipe
  first. The two \<open>os.File\<close> values are their descriptors.
\<close>

record IPC =
  UserNSPipe :: "int \<times> int"
  UserNSReady :: "int \<times> int"
  NetReady :: "int \<times> int"
  Init2Sup :: "int \<times> int"
  PtyMaster :: int
  PtySlave :: int
  Sup2Init :: "int \<times> int"
  Log2Sup :: "int \<times> int"
  KeepAlive :: "int \<times> int"

text \<open>\<open>NewIPC\<close>: the first call that fails makes it return the error.\<close>

definition NewIPC :: "('z os_scheme, err + IPC) state" where
  "NewIPC = do {
     p \<leftarrow> sys_pair (FdC PtyOpen);
     case p of Inl e \<Rightarrow> return (Inl e) | Inr (master, slave) \<Rightarrow> do {
     p1 \<leftarrow> sys_pair (FdC Pipe);
     case p1 of Inl e \<Rightarrow> return (Inl e) | Inr userNSPipe \<Rightarrow> do {
     p2 \<leftarrow> sys_pair (FdC Pipe);
     case p2 of Inl e \<Rightarrow> return (Inl e) | Inr userNSReady \<Rightarrow> do {
     p3 \<leftarrow> sys_pair (FdC Pipe);
     case p3 of Inl e \<Rightarrow> return (Inl e) | Inr netReady \<Rightarrow> do {
     p4 \<leftarrow> sys_pair (FdC Pipe);
     case p4 of Inl e \<Rightarrow> return (Inl e) | Inr keepAlive \<Rightarrow> do {
     p5 \<leftarrow> sys_pair (FdC (Socketpair SOCK_SEQPACKET));
     case p5 of Inl e \<Rightarrow> return (Inl e) | Inr init2Sup \<Rightarrow> do {
     p6 \<leftarrow> sys_pair (FdC (Socketpair SOCK_SEQPACKET));
     case p6 of Inl e \<Rightarrow> return (Inl e) | Inr sup2Init \<Rightarrow> do {
     p7 \<leftarrow> sys_pair (FdC (Socketpair SOCK_STREAM));
     case p7 of Inl e \<Rightarrow> return (Inl e) | Inr log2Sup \<Rightarrow>
       return (Inr \<lparr>UserNSPipe = userNSPipe, UserNSReady = userNSReady, NetReady = netReady,
         Init2Sup = init2Sup, PtyMaster = master, PtySlave = slave, Sup2Init = sup2Init,
         Log2Sup = log2Sup, KeepAlive = keepAlive\<rparr>)
     }}}}}}}}"

text \<open>\<open>NewFork\<close>: the child's pid, 0 in the child.\<close>

definition NewFork :: "('z os_scheme, err + int) state" where
  "NewFork = sys_int (PrC Fork)"

lemma appends_NewIPC [io_only]: "appends NewIPC"
  unfolding NewIPC_def by (intro io_only)

lemma appends_NewFork [io_only]: "appends NewFork"
  unfolding NewFork_def by (intro io_only)

lemma run_NewFork [simp]: "run_state NewFork s = (o_int s (trace s) (PrC Fork), emit (PrC Fork) s)"
  by (simp add: NewFork_def)

section \<open>Which namespaces a specification creates and joins\<close>

fun specWantsNamespace :: "ContainerSpec \<Rightarrow> NamespaceType \<Rightarrow> bool" where
  "specWantsNamespace spec NSUser = USER (Namespaces spec)"
| "specWantsNamespace spec NSNet = NET (Namespaces spec)"
| "specWantsNamespace spec NSMnt = MOUNT (Namespaces spec)"
| "specWantsNamespace spec NSPID = PIDNS (Namespaces spec)"
| "specWantsNamespace spec NSIPC = IPCNS (Namespaces spec)"
| "specWantsNamespace spec NSUTS = UTS (Namespaces spec)"
| "specWantsNamespace spec NSCgroup = CGROUP (Namespaces spec)"
| "specWantsNamespace spec (NSOther _) = False"

text \<open>\<open>specJoinsNamespace\<close> of \<open>lib/workload.go\<close>; \<open>specJoins\<close> of \<open>sup/supervisor.go\<close> is the same loop.\<close>

fun joins_loop :: "ShareSpec list \<Rightarrow> NamespaceType \<Rightarrow> bool" where
  "joins_loop [] ns = False"
| "joins_loop (s # ss) ns = (if ShareType s = ns then True else joins_loop ss ns)"

definition specJoinsNamespace :: "ContainerSpec \<Rightarrow> NamespaceType \<Rightarrow> bool" where
  "specJoinsNamespace spec ns = joins_loop (Shares spec) ns"

definition specJoins :: "ContainerSpec \<Rightarrow> NamespaceType \<Rightarrow> bool" where
  "specJoins spec ns = joins_loop (Shares spec) ns"

definition AnyEnabled :: "NamespaceConfig \<Rightarrow> bool" where
  "AnyEnabled c \<longleftrightarrow> USER c \<or> MOUNT c \<or> CGROUP c \<or> PIDNS c \<or> UTS c \<or> NET c \<or> IPCNS c"

definition createsAnyNamespace :: "ContainerSpec \<Rightarrow> bool" where
  "createsAnyNamespace spec \<longleftrightarrow> (let n = Namespaces spec in
     USER n \<or> NET n \<or> MOUNT n \<or> PIDNS n \<or> IPCNS n \<or> UTS n \<or> CGROUP n)"

lemma joins_loop_iff: "joins_loop ss ns \<longleftrightarrow> ns \<in> ShareType ` set ss"
  by (induction ss) auto

lemma specJoinsNamespace_iff: "specJoinsNamespace spec ns \<longleftrightarrow> ns \<in> ShareType ` set (Shares spec)"
  by (simp add: specJoinsNamespace_def joins_loop_iff)

lemma specJoins_iff: "specJoins spec ns \<longleftrightarrow> ns \<in> ShareType ` set (Shares spec)"
  by (simp add: specJoins_def joins_loop_iff)

text \<open>\<open>nsTypeToCloneFlag\<close> and \<open>nsTypeToProcPath\<close>: a value outside the seven types logs and panics.\<close>

fun nsTypeToCloneFlag :: "NamespaceType \<Rightarrow> ('z os_scheme, cflag outcome) state" where
  "nsTypeToCloneFlag NSUser = return (Ret CLONE_NEWUSER)"
| "nsTypeToCloneFlag NSNet = return (Ret CLONE_NEWNET)"
| "nsTypeToCloneFlag NSMnt = return (Ret CLONE_NEWNS)"
| "nsTypeToCloneFlag NSPID = return (Ret CLONE_NEWPID)"
| "nsTypeToCloneFlag NSIPC = return (Ret CLONE_NEWIPC)"
| "nsTypeToCloneFlag NSUTS = return (Ret CLONE_NEWUTS)"
| "nsTypeToCloneFlag NSCgroup = return (Ret CLONE_NEWCGROUP)"
| "nsTypeToCloneFlag (NSOther _) = do {
     _ \<leftarrow> LogError ''nsTypeToCloneFlag'' [];
     return (Panic ''unknown ns type'')
   }"

fun nsTypeToProcPath :: "NamespaceType \<Rightarrow> ('z os_scheme, string outcome) state" where
  "nsTypeToProcPath NSUser = return (Ret ''/proc/self/ns/user'')"
| "nsTypeToProcPath NSNet = return (Ret ''/proc/self/ns/net'')"
| "nsTypeToProcPath NSMnt = return (Ret ''/proc/self/ns/mnt'')"
| "nsTypeToProcPath NSPID = return (Ret ''/proc/self/ns/pid'')"
| "nsTypeToProcPath NSIPC = return (Ret ''/proc/self/ns/ipc'')"
| "nsTypeToProcPath NSUTS = return (Ret ''/proc/self/ns/uts'')"
| "nsTypeToProcPath NSCgroup = return (Ret ''/proc/self/ns/cgroup'')"
| "nsTypeToProcPath (NSOther _) = do {
     _ \<leftarrow> LogError ''nsTypeToProcPath'' [];
     return (Panic ''unknown namespace type'')
   }"

lemma appends_nsType [io_only]:
  "appends (nsTypeToCloneFlag t)" "appends (nsTypeToProcPath t)"
  by (cases t; simp add: io_only)+

end
