(* ===== verification/Caps.thy ===== *)
theory Caps
  imports GoStrconv Types
begin

unbundle bit_operations_syntax

text \<open>
  \<open>lib/caps.go\<close>: capability sets as 64-bit masks, reading them from \<open>/proc\<close>, comparing and
  showing them, and the calls that reduce the capabilities of the workload before it runs.
\<close>

section \<open>Data\<close>

text \<open>\<open>CapSet\<close> names one of the five sets by a bit.\<close>

type_synonym CapSet = "64 word"

definition CapBounding :: CapSet where "CapBounding = 1"
definition CapPermitted :: CapSet where "CapPermitted = 2"
definition CapEffective :: CapSet where "CapEffective = 4"
definition CapInheritable :: CapSet where "CapInheritable = 8"
definition CapAmbient :: CapSet where "CapAmbient = 16"

lemmas cap_set_defs =
  CapBounding_def CapPermitted_def CapEffective_def CapInheritable_def CapAmbient_def

record CapState =
  CapPID :: int
  Bounding :: "64 word"
  Permitted :: "64 word"
  Effective :: "64 word"
  Inheritable :: "64 word"
  Ambient :: "64 word"

type_synonym CapSetView = "(Capability, bool) gomap"

record CapView =
  BoundingView :: CapSetView
  PermittedView :: CapSetView
  EffectiveView :: CapSetView
  InheritableView :: CapSetView
  AmbientView :: CapSetView

record CapDiff =
  DiffSet :: CapSet
  DiffCap :: Capability
  Before :: bool
  After :: bool

section \<open>Names\<close>

definition capSetName :: "CapSet \<Rightarrow> string" where
  "capSetName s =
     (if s = CapBounding then ''BOUNDING''
      else if s = CapPermitted then ''PERMITTED''
      else if s = CapEffective then ''EFFECTIVE''
      else if s = CapInheritable then ''INHERITABLE''
      else if s = CapAmbient then ''AMBIENT''
      else ''UNKNOWN'')"

text \<open>The map \<open>capNames\<close> in the order of its keys 0 to 37.\<close>

definition capNames :: "string list" where
  "capNames =
    [''CAP_CHOWN'', ''CAP_DAC_OVERRIDE'', ''CAP_DAC_READ_SEARCH'', ''CAP_FOWNER'', ''CAP_FSETID'',
     ''CAP_KILL'', ''CAP_SETGID'', ''CAP_SETUID'', ''CAP_SETPCAP'', ''CAP_LINUX_IMMUTABLE'',
     ''CAP_NET_BIND_SERVICE'', ''CAP_NET_BROADCAST'', ''CAP_NET_ADMIN'', ''CAP_NET_RAW'',
     ''CAP_IPC_LOCK'', ''CAP_IPC_OWNER'', ''CAP_SYS_MODULE'', ''CAP_SYS_RAWIO'', ''CAP_SYS_CHROOT'',
     ''CAP_SYS_PTRACE'', ''CAP_SYS_PACCT'', ''CAP_SYS_ADMIN'', ''CAP_SYS_BOOT'', ''CAP_SYS_NICE'',
     ''CAP_SYS_RESOURCE'', ''CAP_SYS_TIME'', ''CAP_SYS_TTY_CONFIG'', ''CAP_MKNOD'', ''CAP_LEASE'',
     ''CAP_AUDIT_WRITE'', ''CAP_AUDIT_CONTROL'', ''CAP_SETFCAP'', ''CAP_MAC_OVERRIDE'',
     ''CAP_MAC_ADMIN'', ''CAP_SYSLOG'', ''CAP_WAKE_ALARM'', ''CAP_BLOCK_SUSPEND'',
     ''CAP_AUDIT_READ'']"

definition capName :: "Capability \<Rightarrow> string" where
  "capName cap =
     (if 0 \<le> cap \<and> cap < int (length capNames) then capNames ! nat cap else ''CAP_'' @ Itoa cap)"

section \<open>Reading the sets\<close>

definition parseCapHex :: "string \<Rightarrow> 64 word" where
  "parseCapHex s = fst (ParseUint s 16)"

definition newline :: char where
  "newline = CHR 0x0A"

text \<open>One iteration of the loop of \<open>ReadCaps\<close>.\<close>

definition capLine :: "CapState \<Rightarrow> string \<Rightarrow> CapState" where
  "capLine cs l =
     (let fields = Fields l
      in if length fields < 2 then cs
         else if fields ! 0 = ''CapInh:'' then cs\<lparr>Inheritable := parseCapHex (fields ! 1)\<rparr>
         else if fields ! 0 = ''CapPrm:'' then cs\<lparr>Permitted := parseCapHex (fields ! 1)\<rparr>
         else if fields ! 0 = ''CapEff:'' then cs\<lparr>Effective := parseCapHex (fields ! 1)\<rparr>
         else if fields ! 0 = ''CapBnd:'' then cs\<lparr>Bounding := parseCapHex (fields ! 1)\<rparr>
         else if fields ! 0 = ''CapAmb:'' then cs\<lparr>Ambient := parseCapHex (fields ! 1)\<rparr>
         else cs)"

definition parseCaps :: "int \<Rightarrow> string \<Rightarrow> CapState" where
  "parseCaps pid data =
     foldl capLine \<lparr>CapPID = pid, Bounding = 0, Permitted = 0, Effective = 0, Inheritable = 0,
       Ambient = 0\<rparr> (Split data newline)"

definition ReadCaps :: "int \<Rightarrow> ('z os_scheme, err + CapState) state" where
  "ReadCaps pid = do {
     data \<leftarrow> sys_str (FsC (ReadFile (''/proc/'' @ Itoa pid @ ''/status'')));
     return (case data of Inl e \<Rightarrow> Inl e | Inr d \<Rightarrow> Inr (parseCaps pid d))
   }"

section \<open>Comparing and listing\<close>

text \<open>The inner loop of \<open>DiffCaps\<close>, for one set.\<close>

definition diffSet :: "CapSet \<Rightarrow> 64 word \<Rightarrow> 64 word \<Rightarrow> CapDiff list" where
  "diffSet cset b a =
     (let changed = b XOR a
      in if changed = 0 then []
         else map (\<lambda>cap. let msk = push_bit cap 1
                in \<lparr>DiffSet = cset, DiffCap = int cap,
                    Before = (b AND msk \<noteq> 0), After = (a AND msk \<noteq> 0)\<rparr>)
           (filter (\<lambda>cap. changed AND push_bit cap 1 \<noteq> 0) [0..<64]))"

definition DiffCaps :: "CapState \<Rightarrow> CapState \<Rightarrow> CapDiff list" where
  "DiffCaps before after =
     diffSet CapBounding (Bounding before) (Bounding after) @
     diffSet CapPermitted (Permitted before) (Permitted after) @
     diffSet CapEffective (Effective before) (Effective after) @
     diffSet CapInheritable (Inheritable before) (Inheritable after) @
     diffSet CapAmbient (Ambient before) (Ambient after)"

definition capsFromMask :: "64 word \<Rightarrow> Capability list" where
  "capsFromMask msk = map int (filter (\<lambda>c. msk AND push_bit c 1 \<noteq> 0) [0..<64])"

definition formatCaps :: "Capability list \<Rightarrow> string" where
  "formatCaps caps =
     (if caps = [] then [CHR 0xE2, CHR 0x80, CHR 0x94] else Join (map capName caps) '', '')"

definition expandCaps :: "64 word \<Rightarrow> CapSetView" where
  "expandCaps msk =
     map (\<lambda>c. (int c, msk AND push_bit c 1 \<noteq> 0)) [0..<nat CAP_AUDIT_READ + 1]"

definition View :: "CapState \<Rightarrow> CapView" where
  "View c = \<lparr>BoundingView = expandCaps (Bounding c), PermittedView = expandCaps (Permitted c),
     EffectiveView = expandCaps (Effective c), InheritableView = expandCaps (Inheritable c),
     AmbientView = expandCaps (Ambient c)\<rparr>"

text \<open>\<open>raised[d.Set] = append(raised[d.Set], d.Cap)\<close> on a map of slices.\<close>

definition map_append :: "'k \<Rightarrow> 'v \<Rightarrow> ('k, 'v list) gomap \<Rightarrow> ('k, 'v list) gomap" where
  "map_append k v m = map_put k ((case map_get m k of None \<Rightarrow> [] | Some vs \<Rightarrow> vs) @ [v]) m"

text \<open>The two maps \<open>LogCapDelta\<close> builds.\<close>

fun capDelta ::
  "CapDiff list \<Rightarrow> (CapSet, Capability list) gomap \<times> (CapSet, Capability list) gomap \<Rightarrow>
    (CapSet, Capability list) gomap \<times> (CapSet, Capability list) gomap" where
  "capDelta [] rd = rd"
| "capDelta (d # ds) (raised, dropped) =
     capDelta ds
       (if \<not> Before d \<and> After d then map_append (DiffSet d) (DiffCap d) raised else raised,
        if Before d \<and> \<not> After d then map_append (DiffSet d) (DiffCap d) dropped else dropped)"

text \<open>\<open>%-9s\<close>: padded with blanks on the right, never cut.\<close>

definition padRight :: "nat \<Rightarrow> string \<Rightarrow> string" where
  "padRight n s = s @ replicate (n - length s) CHR '' ''"

definition LogCapDelta :: "CapDiff list \<Rightarrow> ('z os_scheme, unit) state" where
  "LogCapDelta diffs = (case capDelta diffs ([], []) of (raised, dropped) \<Rightarrow> do {
     _ \<leftarrow> sys (UiC (Print (newline # ''[CAPABILITY] DELTA'' @ [newline])));
     _ \<leftarrow> for_each raised (\<lambda>(cset, caps).
       sys (UiC (Print (''  +'' @ padRight 9 (capSetName cset) @ '' '' @ formatCaps caps @ [newline]))));
     for_each dropped (\<lambda>(cset, caps).
       sys (UiC (Print (''  -'' @ padRight 9 (capSetName cset) @ '' '' @ formatCaps caps @ [newline]))))
   })"

definition LogCapPosture :: "string \<Rightarrow> CapState \<Rightarrow> ('z os_scheme, unit) state" where
  "LogCapPosture label caps = for_each
     [[newline, CHR ''[''] @ label @ ''] CAPABILITY POSTURE'' @ [newline],
      ''  Bounding    : '' @ formatCaps (capsFromMask (Bounding caps)) @ [newline],
      ''  Permitted   : '' @ formatCaps (capsFromMask (Permitted caps)) @ [newline],
      ''  Effective   : '' @ formatCaps (capsFromMask (Effective caps)) @ [newline],
      ''  Inheritable : '' @ formatCaps (capsFromMask (Inheritable caps)) @ [newline],
      ''  Ambient     : '' @ formatCaps (capsFromMask (Ambient caps)) @ [newline]]
     (\<lambda>l. sys (UiC (Print l)))"

definition LogCaps :: "string \<Rightarrow> CapState \<Rightarrow> ('z os_scheme, unit) state" where
  "LogCaps label cs = for_each
     [CHR ''['' # label @ ''] Caps PID='' @ Itoa (CapPID cs) @ [newline],
      ''  BND='' @ hex16 (Bounding cs) @ [newline],
      ''  PRM='' @ hex16 (Permitted cs) @ [newline],
      ''  EFF='' @ hex16 (Effective cs) @ [newline],
      ''  INH='' @ hex16 (Inheritable cs) @ [newline],
      ''  AMB='' @ hex16 (Ambient cs) @ [newline]]
     (\<lambda>l. sys (UiC (Print l)))"

definition boolText :: "bool \<Rightarrow> string" where
  "boolText b = (if b then ''true'' else ''false'')"

definition LogCapChange :: "CapDiff \<Rightarrow> ('z os_scheme, unit) state" where
  "LogCapChange diff =
     (let action = (if \<not> Before diff \<and> After diff then ''RAISED''
                    else if Before diff \<and> \<not> After diff then ''DROPPED''
                    else ''UNCHANGED'')
      in sys (UiC (Print (''CAP_'' @ action @ '' '' @ padRight 11 (capSetName (DiffSet diff)) @ '' '' @
           padRight 20 (capName (DiffCap diff)) @ '' '' @ boolText (Before diff) @ '' -> '' @
           boolText (After diff) @ [newline]))))"

section \<open>Changing the sets of the process\<close>

type_synonym cap_data = "CapUserData \<times> CapUserData"

text \<open>
  \<open>d[idx].F = f(d[idx].F)\<close> on the two-element array: an index other than 0 and 1 panics.
\<close>

definition updHalf :: "int \<Rightarrow> (CapUserData \<Rightarrow> CapUserData) \<Rightarrow> cap_data \<Rightarrow> cap_data outcome" where
  "updHalf idx f d =
     (if idx = 0 then Ret (f (fst d), snd d)
      else if idx = 1 then Ret (fst d, f (snd d))
      else Panic ''index out of range'')"

text \<open>
  \<open>1 << bit\<close> as a \<open>uint32\<close>. Where the code converts the remainder to \<open>uint\<close>, a negative one is
  a huge shift, which gives 0; where it shifts by the signed remainder, a negative one panics.
  Go's division and remainder truncate towards zero.
\<close>

definition bitU :: "Capability \<Rightarrow> 32 word" where
  "bitU cap = (let k = cap smod 32 in if k < 0 then 0 else push_bit (nat k) 1)"

definition bitS :: "Capability \<Rightarrow> 32 word outcome" where
  "bitS cap = (let k = cap smod 32
     in if k < 0 then Panic ''negative shift amount'' else Ret (push_bit (nat k) 1))"

abbreviation capset :: "cap_data \<Rightarrow> ('z os_scheme, err option) state" where
  "capset d \<equiv> sys_err (PrC (Capset (fst d) (snd d)))"

abbreviation capbset_drop :: "Capability \<Rightarrow> call" where
  "capbset_drop cap \<equiv> PrC (Prctl (PR_CAPBSET_DROP (word_of_int cap)))"

abbreviation ambient_raise :: "Capability \<Rightarrow> call" where
  "ambient_raise cap \<equiv> PrC (Prctl (PR_CAP_AMBIENT_RAISE (word_of_int cap)))"

definition DropCapability :: "Capability \<Rightarrow> ('z os_scheme, err option outcome) state" where
  "DropCapability cap = do {
     e \<leftarrow> sys_err (capbset_drop cap);
     case e of
       Some er \<Rightarrow> return (Ret (Some (Errorf ''prctl(PR_CAPBSET_DROP): %w'' [ArgE er])))
     | None \<Rightarrow> do {
         r \<leftarrow> sys_caps (PrC Capget);
         case r of
           Inl er \<Rightarrow> return (Ret (Some (Errorf ''capget: %w'' [ArgE er])))
         | Inr d \<Rightarrow>
             (case updHalf (cap sdiv 32)
                (\<lambda>h. h\<lparr>ud_Effective := ud_Effective h AND NOT (bitU cap),
                       ud_Permitted := ud_Permitted h AND NOT (bitU cap)\<rparr>) d of
                Ret d' \<Rightarrow> do {
                  e \<leftarrow> capset d';
                  return (Ret (map_option (\<lambda>er. Errorf ''capset: %w'' [ArgE er]) e))
                }
              | Exit n \<Rightarrow> return (Exit n)
              | Panic p \<Rightarrow> return (Panic p)
              | Replaced \<Rightarrow> return Replaced)
       }
   }"

definition ClearAmbient :: "('z os_scheme, err option) state" where
  "ClearAmbient = do {
     e \<leftarrow> sys_err (PrC (Prctl PR_CAP_AMBIENT_CLEAR_ALL));
     return (map_option (\<lambda>er. Errorf ''prctl(PR_CAP_AMBIENT_CLEAR_ALL): %w'' [ArgE er]) e)
   }"

definition no_caps :: CapUserData where
  "no_caps = \<lparr>ud_Effective = 0, ud_Permitted = 0, ud_Inheritable = 0\<rparr>"

text \<open>\<open>cap_last\<close> stands for the constant \<open>unix.CAP_LAST_CAP\<close>.\<close>

definition DropAllCapabilities :: "nat \<Rightarrow> ('z os_scheme, err option) state" where
  "DropAllCapabilities cap_last = do {
     _ \<leftarrow> for_each [0..<cap_last + 1] (\<lambda>c. sys (capbset_drop (int c)));
     e \<leftarrow> capset (no_caps, no_caps);
     return (map_option (\<lambda>er. Errorf ''capset falhou ao zerar tudo: %w'' [ArgE er]) e)
   }"

text \<open>The loop over the capabilities to keep, with its \<open>break\<close>.\<close>

fun shouldKeep :: "Capability list \<Rightarrow> Capability \<Rightarrow> bool" where
  "shouldKeep [] c = False"
| "shouldKeep (k # ks) c = (if c = k then True else shouldKeep ks c)"

definition DropAllExcept :: "Capability list \<Rightarrow> ('z os_scheme, unit) state" where
  "DropAllExcept keep = for_each [0..<41] (\<lambda>c.
     if shouldKeep keep (int c) then return () else sys (capbset_drop (int c)))"

text \<open>The loop of \<open>SetCapabilities\<close> that turns the wanted bits on.\<close>

fun raiseBits :: "Capability list \<Rightarrow> cap_data \<Rightarrow> cap_data outcome" where
  "raiseBits [] d = Ret d"
| "raiseBits (c # cs) d = outcome_bind
     (updHalf (c sdiv 32)
       (\<lambda>h. h\<lparr>ud_Effective := ud_Effective h OR bitU c, ud_Permitted := ud_Permitted h OR bitU c\<rparr>) d)
     (raiseBits cs)"

definition clearEffPerm :: "CapUserData \<Rightarrow> CapUserData" where
  "clearEffPerm h = h\<lparr>ud_Effective := 0, ud_Permitted := 0\<rparr>"

definition SetCapabilities :: "Capability list \<Rightarrow> ('z os_scheme, err option outcome) state" where
  "SetCapabilities caps = do {
     r \<leftarrow> sys_caps (PrC Capget);
     case r of
       Inl er \<Rightarrow> return (Ret (Some (Errorf ''capget: %w'' [ArgE er])))
     | Inr d \<Rightarrow>
         (case raiseBits caps (clearEffPerm (fst d), clearEffPerm (snd d)) of
            Ret d' \<Rightarrow> do {
              e \<leftarrow> capset d';
              return (Ret (map_option (\<lambda>er. Errorf ''capset: %w'' [ArgE er]) e))
            }
          | Exit n \<Rightarrow> return (Exit n)
          | Panic p \<Rightarrow> return (Panic p)
          | Replaced \<Rightarrow> return Replaced)
   }"

definition RaiseAmbient :: "Capability \<Rightarrow> ('z os_scheme, err option) state" where
  "RaiseAmbient cap = do {
     e \<leftarrow> sys_err (ambient_raise cap);
     return (map_option (\<lambda>er. Errorf ''prctl(PR_CAP_AMBIENT_RAISE %d): %w'' [ArgI cap, ArgE er]) e)
   }"

text \<open>\<open>capSet\<close> with its mutator: read, change, write back.\<close>

definition capSet :: "(cap_data \<Rightarrow> cap_data outcome) \<Rightarrow> ('z os_scheme, err option outcome) state" where
  "capSet mutator = do {
     r \<leftarrow> sys_caps (PrC Capget);
     case r of
       Inl er \<Rightarrow> return (Ret (Some er))
     | Inr d \<Rightarrow>
         (case mutator d of
            Ret d' \<Rightarrow> do { e \<leftarrow> capset d'; return (Ret e) }
          | Exit n \<Rightarrow> return (Exit n)
          | Panic p \<Rightarrow> return (Panic p)
          | Replaced \<Rightarrow> return Replaced)
   }"

definition AddPermitted :: "Capability \<Rightarrow> ('z os_scheme, err option outcome) state" where
  "AddPermitted cap = capSet (\<lambda>d. outcome_bind (bitS cap) (\<lambda>b.
     updHalf (cap sdiv 32) (\<lambda>h. h\<lparr>ud_Permitted := ud_Permitted h OR b\<rparr>) d))"

definition AddEffective :: "Capability \<Rightarrow> ('z os_scheme, err option outcome) state" where
  "AddEffective cap = capSet (\<lambda>d. outcome_bind (bitS cap) (\<lambda>b.
     updHalf (cap sdiv 32) (\<lambda>h. h\<lparr>ud_Effective := ud_Effective h OR b\<rparr>) d))"

definition AddInheritable :: "Capability \<Rightarrow> ('z os_scheme, err option outcome) state" where
  "AddInheritable cap = capSet (\<lambda>d. outcome_bind (bitS cap) (\<lambda>b.
     updHalf (cap sdiv 32) (\<lambda>h. h\<lparr>ud_Inheritable := ud_Inheritable h OR b\<rparr>) d))"

definition PrepareForAmbient :: "Capability \<Rightarrow> ('z os_scheme, err option outcome) state" where
  "PrepareForAmbient cap = obind (AddPermitted cap) (\<lambda>e.
     case e of
       Some er \<Rightarrow> return (Ret (Some (Errorf ''add permitted: %w'' [ArgE er])))
     | None \<Rightarrow> obind (AddInheritable cap) (\<lambda>e.
         return (Ret (map_option (\<lambda>er. Errorf ''add inheritable: %w'' [ArgE er]) e))))"

definition EnableAmbient :: "Capability \<Rightarrow> ('z os_scheme, err option outcome) state" where
  "EnableAmbient cap = obind (PrepareForAmbient cap) (\<lambda>e.
     case e of
       Some er \<Rightarrow> return (Ret (Some er))
     | None \<Rightarrow> do { e \<leftarrow> RaiseAmbient cap; return (Ret e) })"

text \<open>A loop over a list whose body may panic.\<close>

fun for_each_out :: "'a list \<Rightarrow> ('a \<Rightarrow> ('s, 'b outcome) state) \<Rightarrow> ('s, unit outcome) state" where
  "for_each_out [] f = return (Ret ())"
| "for_each_out (x # xs) f = obind (f x) (\<lambda>_. for_each_out xs f)"

text \<open>\<open>SetupCapabilities\<close>: the errors of its steps are dropped.\<close>

definition SetupCapabilities :: "CapsConfig \<Rightarrow> ('z os_scheme, unit outcome) state" where
  "SetupCapabilities config =
     obind (SetCapabilities (AllowCaps config)) (\<lambda>_.
     obind (for_each_out (AllowCaps config) AddInheritable) (\<lambda>_. do {
       _ \<leftarrow> DropAllExcept (AllowCaps config);
       _ \<leftarrow> for_each (AllowCaps config) (\<lambda>cap. do { _ \<leftarrow> RaiseAmbient cap; return () });
       return (Ret ())
     }))"

section \<open>Masks and bits\<close>

lemma and_bit_ne_0: "(w AND push_bit n 1 \<noteq> 0) = bit w n" for w :: "64 word"
  by (rule bit_iff_and_push_bit_not_eq_0 [symmetric])

lemma capsFromMask_alt: "capsFromMask m = map int (filter (bit m) [0..<64])"
  unfolding capsFromMask_def and_bit_ne_0 by simp

lemma sorted_capsFromMask: "sorted_wrt (<) (capsFromMask m)"
  by (simp add: capsFromMask_alt sorted_wrt_map sorted_wrt_filter sorted_wrt_upt del: upt_rec_numeral)

lemma capsFromMask_iff: "c \<in> set (capsFromMask m) \<longleftrightarrow> 0 \<le> c \<and> c < 64 \<and> bit m (nat c)"
  by (auto simp: capsFromMask_alt image_iff simp del: upt_rec_numeral intro!: exI [of _ "nat c"])

definition maskOf :: "Capability list \<Rightarrow> 64 word" where
  "maskOf caps = foldr (\<lambda>c w. set_bit (nat c) w) caps 0"

lemma bit_maskOf:
  "bit (maskOf caps) n \<longleftrightarrow> n < 64 \<and> (\<exists>c \<in> set caps. nat c = n)"
  by (induction caps) (auto simp: maskOf_def bit_set_bit_iff)

lemma maskOf_capsFromMask: "maskOf (capsFromMask m) = m"
proof (rule bit_word_eqI)
  fix n assume "n < LENGTH(64)"
  then show "bit (maskOf (capsFromMask m)) n \<longleftrightarrow> bit m n"
    by (auto simp: bit_maskOf capsFromMask_iff intro!: bexI [of _ "int n"])
qed

text \<open>Applying a difference to a state.\<close>

definition patch :: "(nat \<times> bool) list \<Rightarrow> 64 word \<Rightarrow> 64 word" where
  "patch ds w = foldl (\<lambda>w (n, v). if v then set_bit n w else unset_bit n w) w ds"

lemma bit_patch:
  fixes a w :: "64 word"
  assumes "\<And>n v. (n, v) \<in> set ds \<Longrightarrow> v = bit a n" and "\<forall>n \<in> fst ` set ds. n < 64"
  shows "bit (patch ds w) k \<longleftrightarrow> (if k \<in> fst ` set ds then bit a k else bit w k)"
  using assms
proof (induction ds arbitrary: w rule: rev_induct)
  case Nil
  show ?case by (simp add: patch_def)
next
  case (snoc d ds)
  obtain n v where d: "d = (n, v)" by (cases d)
  from snoc.prems have "v = bit a n" and "n < 64" by (auto simp: d)
  moreover have "bit (patch ds w) k \<longleftrightarrow> (if k \<in> fst ` set ds then bit a k else bit w k)"
    using snoc.prems by (intro snoc.IH) auto
  moreover have "patch (ds @ [d]) w = (if v then set_bit n (patch ds w) else unset_bit n (patch ds w))"
    by (simp add: patch_def d)
  ultimately show ?case
    by (auto simp: d bit_set_bit_iff bit_unset_bit_iff)
qed

text \<open>What \<open>d\<close> says about its set, applied to that set of a state.\<close>

definition applyDiff :: "CapState \<Rightarrow> CapDiff \<Rightarrow> CapState" where
  "applyDiff cs d =
     (let f = (if After d then set_bit (nat (DiffCap d)) else unset_bit (nat (DiffCap d)))
      in if DiffSet d = CapBounding then cs\<lparr>Bounding := f (Bounding cs)\<rparr>
         else if DiffSet d = CapPermitted then cs\<lparr>Permitted := f (Permitted cs)\<rparr>
         else if DiffSet d = CapEffective then cs\<lparr>Effective := f (Effective cs)\<rparr>
         else if DiffSet d = CapInheritable then cs\<lparr>Inheritable := f (Inheritable cs)\<rparr>
         else cs\<lparr>Ambient := f (Ambient cs)\<rparr>)"

lemma diffSet_alt:
  "diffSet cset b a = map (\<lambda>c. \<lparr>DiffSet = cset, DiffCap = int c, Before = bit b c, After = bit a c\<rparr>)
     (filter (\<lambda>c. bit b c \<noteq> bit a c) [0..<64])"
proof (cases "b XOR a = 0")
  case True
  then have "b = a" by (auto simp: bit_eq_iff bit_xor_iff)
  then show ?thesis by (simp add: diffSet_def)
next
  case False
  have "bit (b XOR a) = (\<lambda>c. bit b c \<noteq> bit a c)"
    by (rule ext) (simp add: bit_xor_iff)
  with False show ?thesis
    unfolding diffSet_def Let_def and_bit_ne_0 by simp
qed

lemma patch_diff:
  "patch (map (\<lambda>c. (c, bit a c)) (filter (\<lambda>c. bit b c \<noteq> bit a c) [0..<64])) b = a"
proof (rule bit_word_eqI)
  fix n assume "n < LENGTH(64)"
  then show "bit (patch (map (\<lambda>c. (c, bit a c)) (filter (\<lambda>c. bit b c \<noteq> bit a c) [0..<64])) b) n
      \<longleftrightarrow> bit a n"
    by (subst bit_patch [where a = a]) (auto simp: image_iff simp del: upt_rec_numeral)
qed

lemma foldl_applyDiff:
  fixes get :: "CapState \<Rightarrow> 64 word" and put :: "64 word \<Rightarrow> CapState \<Rightarrow> CapState"
  assumes "\<And>cs c x y. applyDiff cs \<lparr>DiffSet = st, DiffCap = int c, Before = x, After = y\<rparr> =
        put (if y then set_bit c (get cs) else unset_bit c (get cs)) cs"
    and "\<And>v cs. get (put v cs) = v" "\<And>v w cs. put v (put w cs) = put v cs" "\<And>cs. put (get cs) cs = cs"
  shows "foldl applyDiff cs (diffSet st (get cs) a) = put a cs"
proof -
  have step: "foldl applyDiff cs (map (\<lambda>c. \<lparr>DiffSet = st, DiffCap = int c, Before = bit b c, After = bit a c\<rparr>) ns)
      = put (patch (map (\<lambda>c. (c, bit a c)) ns) (get cs)) cs" for ns b
    by (induction ns arbitrary: cs) (simp_all add: assms patch_def)
  show ?thesis by (simp only: diffSet_alt step patch_diff)
qed

lemma applyDiff_Bounding:
  "Bounding cs = v \<Longrightarrow> foldl applyDiff cs (diffSet CapBounding v a) = cs\<lparr>Bounding := a\<rparr>"
  using foldl_applyDiff [where get = Bounding and put = "\<lambda>v cs. cs\<lparr>Bounding := v\<rparr>" and st = CapBounding]
  by (auto simp: applyDiff_def cap_set_defs)

lemma applyDiff_Permitted:
  "Permitted cs = v \<Longrightarrow> foldl applyDiff cs (diffSet CapPermitted v a) = cs\<lparr>Permitted := a\<rparr>"
  using foldl_applyDiff [where get = Permitted and put = "\<lambda>v cs. cs\<lparr>Permitted := v\<rparr>" and st = CapPermitted]
  by (auto simp: applyDiff_def cap_set_defs)

lemma applyDiff_Effective:
  "Effective cs = v \<Longrightarrow> foldl applyDiff cs (diffSet CapEffective v a) = cs\<lparr>Effective := a\<rparr>"
  using foldl_applyDiff [where get = Effective and put = "\<lambda>v cs. cs\<lparr>Effective := v\<rparr>" and st = CapEffective]
  by (auto simp: applyDiff_def cap_set_defs)

lemma applyDiff_Inheritable:
  "Inheritable cs = v \<Longrightarrow> foldl applyDiff cs (diffSet CapInheritable v a) = cs\<lparr>Inheritable := a\<rparr>"
  using foldl_applyDiff [where get = Inheritable and put = "\<lambda>v cs. cs\<lparr>Inheritable := v\<rparr>" and st = CapInheritable]
  by (auto simp: applyDiff_def cap_set_defs)

lemma applyDiff_Ambient:
  "Ambient cs = v \<Longrightarrow> foldl applyDiff cs (diffSet CapAmbient v a) = cs\<lparr>Ambient := a\<rparr>"
  using foldl_applyDiff [where get = Ambient and put = "\<lambda>v cs. cs\<lparr>Ambient := v\<rparr>" and st = CapAmbient]
  by (auto simp: applyDiff_def cap_set_defs)

lemmas applyDiff_sets =
  applyDiff_Bounding applyDiff_Permitted applyDiff_Effective applyDiff_Inheritable applyDiff_Ambient

text \<open>
  The differences \<open>DiffCaps\<close> reports are exactly what has to be changed: applying them in
  order to the earlier state yields the later one in all five sets, for all 64 bits.
\<close>

theorem DiffCaps_patch:
  "foldl applyDiff before (DiffCaps before after) = after\<lparr>CapPID := CapPID before\<rparr>"
  by (simp add: DiffCaps_def applyDiff_sets)

section \<open>Reading what the kernel prints\<close>

lemma Fields_token_sep:
  "token w \<Longrightarrow> space_len (c # s) = 1 \<Longrightarrow> Fields (w @ c # s) = w # Fields s"
  using fields_from_clean [of w "[]" "c # s"]
  by (simp add: token_def Fields_def flush_field_def)

lemma space_len_tab: "space_len (CHR 0x09 # s) = 1"
  by (simp add: space_len_def space_runes_def)

lemma not_space_start_digit: "d < 16 \<Longrightarrow> \<not> space_start (digit_char d)"
proof -
  assume "d < 16"
  then have "d \<in> set [0..<16]" by simp
  moreover have "\<forall>d \<in> set [0..<16]. \<not> space_start (digit_char d)"
    by code_simp
  ultimately show ?thesis by blast
qed

lemma token_hex16: "token (hex16 w)"
proof -
  have "set (hex16 w) \<subseteq> digit_char ` {..<16}" by (auto simp: hex16_def simp del: upt_rec_numeral)
  moreover have "hex16 w \<noteq> []" by (simp add: hex16_def)
  ultimately show ?thesis by (auto simp: token_def dest: not_space_start_digit)
qed

text \<open>The five capability lines of \<open>/proc/<pid>/status\<close> as \<open>proc(5)\<close> describes them.\<close>

definition statusLine :: "string \<Rightarrow> 64 word \<Rightarrow> string" where
  "statusLine key w = key @ CHR 0x09 # hex16 w"

definition statusLines :: "CapState \<Rightarrow> string list" where
  "statusLines cs = [statusLine ''CapInh:'' (Inheritable cs), statusLine ''CapPrm:'' (Permitted cs),
     statusLine ''CapEff:'' (Effective cs), statusLine ''CapBnd:'' (Bounding cs),
     statusLine ''CapAmb:'' (Ambient cs)]"

definition capKeys :: "string list" where
  "capKeys = [''CapInh:'', ''CapPrm:'', ''CapEff:'', ''CapBnd:'', ''CapAmb:'']"

lemma token_capKeys: "k \<in> set capKeys \<Longrightarrow> token k"
proof -
  have "\<forall>k \<in> set capKeys. token k" by code_simp
  then show "k \<in> set capKeys \<Longrightarrow> token k" by blast
qed

lemma Fields_statusLine: "k \<in> set capKeys \<Longrightarrow> Fields (statusLine k w) = [k, hex16 w]"
  by (simp add: statusLine_def Fields_token_sep space_len_tab token_capKeys Fields_token token_hex16)

lemma parseCapHex_hex16 [simp]: "parseCapHex (hex16 w) = w"
  by (simp add: parseCapHex_def ParseUint_hex16)

definition otherLine :: "string \<Rightarrow> bool" where
  "otherLine l \<longleftrightarrow> newline \<notin> set l \<and> (case Fields l of [] \<Rightarrow> True | k # _ \<Rightarrow> k \<notin> set capKeys)"

lemma capLine_other: "otherLine l \<Longrightarrow> capLine cs l = cs"
  by (auto simp: capLine_def otherLine_def capKeys_def Let_def split: list.splits)

lemma foldl_capLine_other: "\<forall>l \<in> set ls. otherLine l \<Longrightarrow> foldl capLine cs ls = cs"
  by (induction ls) (auto simp: capLine_other)

lemma foldl_capLine_status:
  "foldl capLine cs (statusLines new) = new\<lparr>CapPID := CapPID cs\<rparr>"
  by (simp add: statusLines_def capLine_def Fields_statusLine capKeys_def Let_def)

lemma newline_statusLine: "k \<in> set capKeys \<Longrightarrow> newline \<notin> set (statusLine k w)"
proof -
  have "newline \<notin> set (hex16 w)"
  proof
    assume "newline \<in> set (hex16 w)"
    with token_hex16 [of w] have "\<not> space_start newline" by (auto simp: token_def)
    moreover have "space_start newline" by code_simp
    ultimately show False by simp
  qed
  moreover have "\<forall>k \<in> set capKeys. newline \<notin> set k" by code_simp
  ultimately show "k \<in> set capKeys \<Longrightarrow> ?thesis" by (auto simp: statusLine_def newline_def)
qed

lemma parseCaps_status:
  assumes "\<forall>l \<in> set pre. otherLine l" and "\<forall>l \<in> set post. otherLine l"
  shows "parseCaps pid (Join (pre @ statusLines cs @ post) [newline]) = cs\<lparr>CapPID := pid\<rparr>"
proof -
  have nl: "newline \<notin> set l" if "l \<in> set (pre @ statusLines cs @ post)" for l
    using that assms newline_statusLine
    by (auto simp: otherLine_def statusLines_def capKeys_def)
  have "Split (Join (pre @ statusLines cs @ post) [newline]) newline = pre @ statusLines cs @ post"
    using nl by (intro Split_Join) (auto simp: statusLines_def)
  then show ?thesis
    using assms by (simp add: parseCaps_def foldl_capLine_other foldl_capLine_status)
qed

text \<open>
  C26: \<open>ReadCaps\<close> recovers the five capability masks from the status file of a process, whatever
  other lines stand before and after the capability lines.
\<close>

theorem ReadCaps_status:
  assumes "o_str s (trace s) (FsC (ReadFile (''/proc/'' @ Itoa pid @ ''/status''))) =
      Inr (Join (pre @ statusLines cs @ post) [newline])"
    and "\<forall>l \<in> set pre. otherLine l" and "\<forall>l \<in> set post. otherLine l"
  shows "result (ReadCaps pid) s = Inr (cs\<lparr>CapPID := pid\<rparr>)"
  using assms by (simp add: result_def ReadCaps_def parseCaps_status)

section \<open>The capabilities the workload is left with\<close>

text \<open>Whether a set, selected by \<open>f\<close> from both halves, has capability \<open>c\<close>.\<close>

definition capBit :: "(CapUserData \<Rightarrow> 32 word) \<Rightarrow> cap_data \<Rightarrow> Capability \<Rightarrow> bool" where
  "capBit f d c = (if c < 32 then bit (f (fst d)) (nat c) else bit (f (snd d)) (nat (c - 32)))"

definition validCap :: "Capability \<Rightarrow> bool" where
  "validCap c \<longleftrightarrow> 0 \<le> c \<and> c < 64"

lemma validCap_cases:
  assumes "validCap c"
  obtains "c < 32" "0 \<le> c" "c sdiv 32 = 0" "c smod 32 = c"
  | "32 \<le> c" "c < 64" "c sdiv 32 = 1" "c smod 32 = c - 32"
proof (cases "c < 32")
  case True
  with assms show ?thesis
    by (intro that(1)) (auto simp: validCap_def signed_divide_int_def signed_modulo_int_def sgn_if)
next
  case False
  with assms have "c div 32 = 1" and "c mod 32 = c - 32" by (auto simp: validCap_def) presburger+
  with False assms show ?thesis
    by (intro that(2)) (auto simp: validCap_def signed_divide_int_def signed_modulo_int_def sgn_if)
qed

lemma bitU_valid: "validCap c \<Longrightarrow> bitU c = push_bit (nat (if c < 32 then c else c - 32)) 1"
  by (elim validCap_cases) (auto simp: bitU_def)

lemma bitS_valid: "validCap c \<Longrightarrow> bitS c = Ret (bitU c)"
  by (elim validCap_cases) (auto simp: bitS_def bitU_def)

lemma bit_bitU: "validCap c \<Longrightarrow> validCap k \<Longrightarrow> (c < 32 \<longleftrightarrow> k < 32) \<Longrightarrow>
    bit (bitU c) (nat (if k < 32 then k else k - 32)) \<longleftrightarrow> c = k"
  by (auto simp: bitU_valid bit_exp_iff validCap_def nat_eq_iff eq_nat_nat_iff)

text \<open>Turning a valid capability on in one set, or in two, changes just that bit.\<close>

lemma updHalf_valid:
  assumes "validCap c"
  shows "\<exists>d'. updHalf (c sdiv 32) g d = Ret d' \<and>
    (\<forall>f. (\<forall>h. f (g h) = f h OR bitU c) \<longrightarrow>
       (\<forall>k. validCap k \<longrightarrow> (capBit f d' k \<longleftrightarrow> c = k \<or> capBit f d k))) \<and>
    (\<forall>f. (\<forall>h. f (g h) = f h) \<longrightarrow> (\<forall>k. capBit f d' k = capBit f d k))"
  using assms
proof (cases rule: validCap_cases)
  case 1
  then have "updHalf (c sdiv 32) g d = Ret (g (fst d), snd d)" by (simp add: updHalf_def)
  then show ?thesis
    using assms bit_bitU [OF assms] 1 by (fastforce simp: capBit_def bit_or_iff)
next
  case 2
  then have "updHalf (c sdiv 32) g d = Ret (fst d, g (snd d))" by (simp add: updHalf_def)
  then show ?thesis
    using assms bit_bitU [OF assms] 2 by (fastforce simp: capBit_def bit_or_iff)
qed

lemma raiseBits_valid:
  assumes "\<forall>c \<in> set caps. validCap c"
  shows "\<exists>d'. raiseBits caps d = Ret d' \<and>
    (\<forall>k. validCap k \<longrightarrow> (capBit ud_Effective d' k \<longleftrightarrow> k \<in> set caps \<or> capBit ud_Effective d k)) \<and>
    (\<forall>k. validCap k \<longrightarrow> (capBit ud_Permitted d' k \<longleftrightarrow> k \<in> set caps \<or> capBit ud_Permitted d k)) \<and>
    (\<forall>k. capBit ud_Inheritable d' k = capBit ud_Inheritable d k)"
  using assms
proof (induction caps arbitrary: d)
  case Nil
  then show ?case by simp
next
  case (Cons c caps)
  let ?g = "\<lambda>h. h\<lparr>ud_Effective := ud_Effective h OR bitU c, ud_Permitted := ud_Permitted h OR bitU c\<rparr>"
  from Cons.prems have "validCap c" by simp
  from updHalf_valid [OF this, of ?g d] obtain d1 where
    d1: "updHalf (c sdiv 32) ?g d = Ret d1"
    and on: "\<And>f. \<forall>h. f (?g h) = f h OR bitU c \<Longrightarrow>
       \<forall>k. validCap k \<longrightarrow> (capBit f d1 k \<longleftrightarrow> c = k \<or> capBit f d k)"
    and off: "\<And>f. \<forall>h. f (?g h) = f h \<Longrightarrow> \<forall>k. capBit f d1 k = capBit f d k"
    by blast
  have "\<forall>k. validCap k \<longrightarrow> (capBit ud_Effective d1 k \<longleftrightarrow> c = k \<or> capBit ud_Effective d k)"
    and "\<forall>k. validCap k \<longrightarrow> (capBit ud_Permitted d1 k \<longleftrightarrow> c = k \<or> capBit ud_Permitted d k)"
    and "\<forall>k. capBit ud_Inheritable d1 k = capBit ud_Inheritable d k"
    by (rule on, simp, rule on, simp, rule off, simp)
  moreover from Cons.prems have "\<forall>c \<in> set caps. validCap c" by simp
  note Cons.IH [OF this, of d1]
  ultimately show ?case by (auto simp: d1)
qed

text \<open>
  The kernel's side as \<open>capabilities(7)\<close>, \<open>capset(2)\<close> and \<open>prctl(2)\<close> document it: the five sets of a
  thread, which of the calls succeed, and what they change. The capabilities known are 0 to 40.
\<close>

definition known :: "Capability set" where
  "known = {0..40}"

definition CAP_SETPCAP :: Capability where
  "CAP_SETPCAP = 8"

record thread_caps =
  Eff :: "Capability set"
  Perm :: "Capability set"
  Inh :: "Capability set"
  Bnd :: "Capability set"
  Amb :: "Capability set"

definition kset :: "(CapUserData \<Rightarrow> 32 word) \<Rightarrow> cap_data \<Rightarrow> Capability set" where
  "kset f d = {c \<in> known. capBit f d c}"

text \<open>
  \<open>capset\<close>: nothing new may become permitted, only what is permitted effective, and what becomes
  inheritable must be permitted (unless \<open>CAP_SETPCAP\<close> is effective) and in the bounding set.
  Dropping from the bounding set takes \<open>CAP_SETPCAP\<close>; only what is permitted and inheritable can
  be raised as ambient.
\<close>

fun cap_answer :: "thread_caps \<Rightarrow> prcall \<Rightarrow> err option" where
  "cap_answer k (Capset x y) =
     (if kset ud_Permitted (x, y) \<subseteq> Perm k \<and> kset ud_Effective (x, y) \<subseteq> kset ud_Permitted (x, y) \<and>
         (kset ud_Inheritable (x, y) \<subseteq> Inh k \<union> Perm k \<or> CAP_SETPCAP \<in> Eff k) \<and>
         kset ud_Inheritable (x, y) \<subseteq> Inh k \<union> Bnd k
      then None else Some (Errno EPERM))"
| "cap_answer k (Prctl (PR_CAPBSET_DROP w)) =
     (if CAP_SETPCAP \<notin> Eff k then Some (Errno EPERM)
      else if uint w \<notin> known then Some (Errno (EOTHER 22)) else None)"
| "cap_answer k (Prctl (PR_CAP_AMBIENT_RAISE w)) =
     (if uint w \<notin> known then Some (Errno (EOTHER 22))
      else if uint w \<in> Perm k \<and> uint w \<in> Inh k then None else Some (Errno EPERM))"
| "cap_answer k _ = None"

fun cap_step :: "call \<Rightarrow> thread_caps \<Rightarrow> thread_caps" where
  "cap_step (PrC p) k =
     (if cap_answer k p \<noteq> None then k
      else case p of
        Capset x y \<Rightarrow> k\<lparr>Eff := kset ud_Effective (x, y), Perm := kset ud_Permitted (x, y),
          Inh := kset ud_Inheritable (x, y),
          Amb := Amb k \<inter> kset ud_Permitted (x, y) \<inter> kset ud_Inheritable (x, y)\<rparr>
      | Prctl (PR_CAPBSET_DROP w) \<Rightarrow> k\<lparr>Bnd := Bnd k - {uint w}\<rparr>
      | Prctl (PR_CAP_AMBIENT_RAISE w) \<Rightarrow> k\<lparr>Amb := insert (uint w) (Amb k)\<rparr>
      | Prctl PR_CAP_AMBIENT_CLEAR_ALL \<Rightarrow> k\<lparr>Amb := {}\<rparr>
      | _ \<Rightarrow> k)"
| "cap_step _ k = k"

definition caps_after :: "call list \<Rightarrow> thread_caps \<Rightarrow> thread_caps" where
  "caps_after cs k = fold cap_step cs k"

lemma caps_after_simps [simp]:
  "caps_after [] k = k" "caps_after (c # cs) k = caps_after cs (cap_step c k)"
  "caps_after (cs @ ds) k = caps_after ds (caps_after cs k)"
  by (simp_all add: caps_after_def)

text \<open>
  Calls after which the sets are not these any more, or another process's: a new program, a new or
  another namespace, a fork.
\<close>

fun process_call :: "call \<Rightarrow> bool" where
  "process_call (PrC (Exec _ _ _)) = True"
| "process_call (PrC (Setns _ _)) = True"
| "process_call (PrC (Unshare _)) = True"
| "process_call (PrC Fork) = True"
| "process_call _ = False"

fun cap_call :: "call \<Rightarrow> bool" where
  "cap_call (PrC (Capset _ _)) = True"
| "cap_call (PrC (Prctl _)) = True"
| "cap_call _ = False"

text \<open>The answers of a state are those of a kernel whose thread has the sets \<open>k\<close> now.\<close>

definition documented :: "thread_caps \<Rightarrow> 'z os_scheme \<Rightarrow> bool" where
  "documented k s \<longleftrightarrow> Bnd k \<subseteq> known \<and>
     (\<forall>cs. (\<forall>c \<in> set cs. \<not> process_call c) \<longrightarrow>
       (\<forall>p. cap_call (PrC p) \<longrightarrow> o_err s (trace s @ cs) (PrC p) = cap_answer (caps_after cs k) p) \<and>
       (\<exists>d. o_caps s (trace s @ cs) (PrC Capget) = Inr d \<and> kset ud_Effective d = Eff (caps_after cs k) \<and>
          kset ud_Permitted d = Perm (caps_after cs k) \<and> kset ud_Inheritable d = Inh (caps_after cs k)))"

lemma cap_step_Bnd: "Bnd (cap_step c k) \<subseteq> Bnd k"
  by (cases c) (auto split: prcall.split prctl_op.split)

lemma caps_after_Bnd: "Bnd (caps_after cs k) \<subseteq> Bnd k"
  by (induction cs arbitrary: k) (use cap_step_Bnd in \<open>force+\<close>)

lemma documented_with_calls:
  assumes "documented k s" and "\<forall>c \<in> set cs. \<not> process_call c"
  shows "documented (caps_after cs k) (with_calls cs s)"
  unfolding documented_def
proof (intro conjI allI impI)
  show "Bnd (caps_after cs k) \<subseteq> known" using assms(1) caps_after_Bnd [of cs k] by (auto simp: documented_def)
  fix ds assume "\<forall>c \<in> set ds. \<not> process_call c"
  with assms(2) have "\<forall>c \<in> set (cs @ ds). \<not> process_call c" by auto
  with assms(1) have *: "(\<forall>p. cap_call (PrC p) \<longrightarrow> o_err s (trace s @ cs @ ds) (PrC p) = cap_answer (caps_after (cs @ ds) k) p) \<and>
       (\<exists>d. o_caps s (trace s @ cs @ ds) (PrC Capget) = Inr d \<and> kset ud_Effective d = Eff (caps_after (cs @ ds) k) \<and>
          kset ud_Permitted d = Perm (caps_after (cs @ ds) k) \<and> kset ud_Inheritable d = Inh (caps_after (cs @ ds) k))"
    unfolding documented_def by blast
  then show "o_err (with_calls cs s) (trace (with_calls cs s) @ ds) (PrC p) = cap_answer (caps_after ds (caps_after cs k)) p"
    if "cap_call (PrC p)" for p using that by simp
  from * show "\<exists>d. o_caps (with_calls cs s) (trace (with_calls cs s) @ ds) (PrC Capget) = Inr d \<and>
     kset ud_Effective d = Eff (caps_after ds (caps_after cs k)) \<and>
     kset ud_Permitted d = Perm (caps_after ds (caps_after cs k)) \<and>
     kset ud_Inheritable d = Inh (caps_after ds (caps_after cs k))" by simp
qed

lemma documented_err:
  "documented k s \<Longrightarrow> cap_call (PrC p) \<Longrightarrow> o_err s (trace s) (PrC p) = cap_answer k p"
  unfolding documented_def by (auto dest: spec [of _ "[]"])

lemma documented_get:
  "documented k s \<Longrightarrow> \<exists>d. o_caps s (trace s) (PrC Capget) = Inr d \<and> kset ud_Effective d = Eff k \<and>
    kset ud_Permitted d = Perm k \<and> kset ud_Inheritable d = Inh k"
  unfolding documented_def by (auto dest: spec [of _ "[]"])

lemma known_validCap: "c \<in> known \<Longrightarrow> validCap c"
  by (simp add: known_def validCap_def)

lemma SetCapabilities_run:
  assumes k: "documented k s" and A: "set caps \<subseteq> known" and P: "set caps \<subseteq> Perm k"
  shows "\<exists>cs. run_state (SetCapabilities caps) s = (Ret None, with_calls cs s) \<and> (\<forall>c \<in> set cs. \<not> process_call c) \<and>
    caps_after cs k = k\<lparr>Eff := set caps, Perm := set caps, Amb := Amb k \<inter> set caps \<inter> Inh k\<rparr>"
proof -
  obtain d0 where d0: "o_caps s (trace s) (PrC Capget) = Inr d0" "kset ud_Inheritable d0 = Inh k"
    using documented_get [OF k] by blast
  let ?d = "(clearEffPerm (fst d0), clearEffPerm (snd d0))"
  have "\<forall>c \<in> set caps. validCap c" using A known_validCap by blast
  from raiseBits_valid [OF this, of ?d] obtain d' where
    d': "raiseBits caps ?d = Ret d'"
    and E: "\<forall>k. validCap k \<longrightarrow> (capBit ud_Effective d' k \<longleftrightarrow> k \<in> set caps \<or> capBit ud_Effective ?d k)"
    and Q: "\<forall>k. validCap k \<longrightarrow> (capBit ud_Permitted d' k \<longleftrightarrow> k \<in> set caps \<or> capBit ud_Permitted ?d k)"
    and I: "\<forall>k. capBit ud_Inheritable d' k = capBit ud_Inheritable ?d k"
    by blast
  have "capBit ud_Inheritable ?d c = capBit ud_Inheritable d0 c"
    and "\<not> capBit ud_Effective ?d c" and "\<not> capBit ud_Permitted ?d c" for c
    by (simp_all add: capBit_def clearEffPerm_def)
  then have s: "kset ud_Effective d' = set caps" "kset ud_Permitted d' = set caps" "kset ud_Inheritable d' = Inh k"
    using A E Q I d0(2) known_validCap by (auto simp: kset_def)
  let ?c = "Capset (fst d') (snd d')"
  have a: "cap_answer k ?c = None" using P s by simp
  moreover have "o_err s (trace s @ [PrC Capget]) (PrC ?c) = cap_answer k ?c"
    using documented_err [OF documented_with_calls [OF k, of "[PrC Capget]"], of ?c] by simp
  ultimately have "run_state (SetCapabilities caps) s = (Ret None, with_calls [PrC Capget, PrC ?c] s)"
    using d0 d' by (simp add: SetCapabilities_def emit_with_calls)
  moreover have "caps_after [PrC Capget, PrC ?c] k =
      k\<lparr>Eff := set caps, Perm := set caps, Amb := Amb k \<inter> set caps \<inter> Inh k\<rparr>"
    using a s by (simp del: cap_answer.simps)
  ultimately show ?thesis by (intro exI [of _ "[PrC Capget, PrC ?c]"]) simp
qed

text \<open>Making a permitted capability inheritable works if it is in the bounding set or was already.\<close>

lemma AddInheritable_run:
  assumes k: "documented k s" and c: "c \<in> known" "c \<in> Perm k" and e: "Eff k \<subseteq> Perm k" "Amb k \<subseteq> Perm k \<inter> Inh k"
  shows "\<exists>r cs. run_state (AddInheritable c) s = (Ret r, with_calls cs s) \<and> (\<forall>c \<in> set cs. \<not> process_call c) \<and>
    caps_after cs k = k\<lparr>Inh := Inh k \<union> ({c} \<inter> Bnd k)\<rparr>"
proof -
  obtain d where d: "o_caps s (trace s) (PrC Capget) = Inr d" "kset ud_Effective d = Eff k"
    "kset ud_Permitted d = Perm k" "kset ud_Inheritable d = Inh k"
    using documented_get [OF k] by blast
  let ?g = "\<lambda>h. h\<lparr>ud_Inheritable := ud_Inheritable h OR bitU c\<rparr>"
  from updHalf_valid [OF known_validCap [OF c(1)], of ?g d] obtain d1 where
    d1: "updHalf (c sdiv 32) ?g d = Ret d1"
    and on: "\<And>f. \<forall>h. f (?g h) = f h OR bitU c \<Longrightarrow>
       \<forall>k. validCap k \<longrightarrow> (capBit f d1 k \<longleftrightarrow> c = k \<or> capBit f d k)"
    and off: "\<And>f. \<forall>h. f (?g h) = f h \<Longrightarrow> \<forall>k. capBit f d1 k = capBit f d k"
    by blast
  have "\<forall>k. validCap k \<longrightarrow> (capBit ud_Inheritable d1 k \<longleftrightarrow> c = k \<or> capBit ud_Inheritable d k)"
    and "\<forall>k. capBit ud_Effective d1 k = capBit ud_Effective d k"
    and "\<forall>k. capBit ud_Permitted d1 k = capBit ud_Permitted d k"
    by (rule on, simp, rule off, simp, rule off, simp)
  then have s: "kset ud_Effective d1 = Eff k" "kset ud_Permitted d1 = Perm k" "kset ud_Inheritable d1 = insert c (Inh k)"
    using c(1) d(2-4) [symmetric] by (auto simp: kset_def known_validCap)
  let ?c = "Capset (fst d1) (snd d1)"
  have err: "o_err s (trace s @ [PrC Capget]) (PrC ?c) = cap_answer k ?c"
    using documented_err [OF documented_with_calls [OF k, of "[PrC Capget]"], of ?c] by simp
  have "\<exists>r. run_state (AddInheritable c) s = (Ret r, with_calls [PrC Capget, PrC ?c] s)"
    using d by (cases "cap_answer k ?c")
      (simp_all add: AddInheritable_def capSet_def bitS_valid known_validCap [OF c(1)] d1 emit_with_calls err del: cap_answer.simps)
  moreover have "caps_after [PrC Capget, PrC ?c] k = k\<lparr>Inh := Inh k \<union> ({c} \<inter> Bnd k)\<rparr>"
  proof (cases "c \<in> Inh k \<union> Bnd k")
    case True
    then have "cap_answer k ?c = None" using c e s by (auto simp: s)
    moreover have "Amb k \<inter> Perm k \<inter> insert c (Inh k) = Amb k" using e by auto
    moreover have "insert c (Inh k) = Inh k \<union> ({c} \<inter> Bnd k)" using True by auto
    ultimately show ?thesis using s by (simp del: cap_answer.simps split: prcall.split)
  next
    case False
    then have "cap_answer k ?c \<noteq> None" using s by auto
    then show ?thesis using False by (auto simp del: cap_answer.simps)
  qed
  ultimately show ?thesis by (metis (no_types, lifting) list.set_intros empty_iff empty_set insert_iff list.set(2) process_call.simps)
qed

lemma AddInheritable_loop:
  assumes "documented k s" "set caps \<subseteq> known" "set caps \<subseteq> Perm k" "Eff k \<subseteq> Perm k" "Amb k \<subseteq> Perm k \<inter> Inh k"
  shows "\<exists>cs. run_state (for_each_out caps AddInheritable) s = (Ret (), with_calls cs s) \<and>
    (\<forall>c \<in> set cs. \<not> process_call c) \<and> caps_after cs k = k\<lparr>Inh := Inh k \<union> (set caps \<inter> Bnd k)\<rparr>"
  using assms
proof (induction caps arbitrary: s k)
  case Nil
  then show ?case by (intro exI [of _ "[]"]) simp
next
  case (Cons c caps)
  from AddInheritable_run [OF Cons.prems(1), of c] Cons.prems obtain r c1 where
    run: "run_state (AddInheritable c) s = (Ret r, with_calls c1 s)" and p: "\<forall>c \<in> set c1. \<not> process_call c"
    and k1: "caps_after c1 k = k\<lparr>Inh := Inh k \<union> ({c} \<inter> Bnd k)\<rparr>" by auto
  let ?k = "k\<lparr>Inh := Inh k \<union> ({c} \<inter> Bnd k)\<rparr>"
  have "documented ?k (with_calls c1 s)" using documented_with_calls [OF Cons.prems(1) p] k1 by simp
  moreover have "Amb ?k \<subseteq> Perm ?k \<inter> Inh ?k" using Cons.prems(5) by auto
  moreover have "set caps \<subseteq> known" "set caps \<subseteq> Perm ?k" "Eff ?k \<subseteq> Perm ?k" using Cons.prems by simp_all
  ultimately obtain cs where
    "run_state (for_each_out caps AddInheritable) (with_calls c1 s) = (Ret (), with_calls cs (with_calls c1 s))"
    "\<forall>c \<in> set cs. \<not> process_call c" "caps_after cs ?k = ?k\<lparr>Inh := Inh ?k \<union> (set caps \<inter> Bnd ?k)\<rparr>"
    using Cons.IH [of ?k "with_calls c1 s"] by blast
  moreover have "Inh k \<union> {c} \<inter> Bnd k \<union> set caps \<inter> Bnd k = Inh k \<union> set (c # caps) \<inter> Bnd k" by auto
  ultimately show ?case using p run k1
    by (intro exI [of _ "c1 @ cs"]) auto
qed

lemma uint_known: "c \<in> known \<Longrightarrow> uint (word_of_int c :: 64 word) = c"
  by (simp add: known_def unsigned_of_int take_bit_int_eq_self)

lemma drops_after:
  "set ks \<subseteq> known \<Longrightarrow> caps_after (map capbset_drop ks) k =
    (if CAP_SETPCAP \<in> Eff k then k\<lparr>Bnd := Bnd k - set ks\<rparr> else k)"
proof (induction ks arbitrary: k)
  case (Cons c ks)
  moreover have "Bnd k - {c} - set ks = Bnd k - set (c # ks)" by auto
  ultimately show ?case by (simp add: uint_known)
qed simp

lemma raises_after:
  "set ks \<subseteq> known \<Longrightarrow> caps_after (map ambient_raise ks) k =
    k\<lparr>Amb := Amb k \<union> (set ks \<inter> Perm k \<inter> Inh k)\<rparr>"
proof (induction ks arbitrary: k)
  case (Cons c ks)
  moreover have "insert c (Amb k) \<union> (set ks \<inter> Perm k \<inter> Inh k) = Amb k \<union> (set (c # ks) \<inter> Perm k \<inter> Inh k)"
    if "c \<in> Perm k" "c \<in> Inh k" using that by auto
  moreover have "set (c # ks) \<inter> Perm k \<inter> Inh k = set ks \<inter> Perm k \<inter> Inh k"
    if "\<not> (c \<in> Perm k \<and> c \<in> Inh k)" using that by auto
  ultimately show ?case by (cases "c \<in> Perm k"; cases "c \<in> Inh k") (simp_all add: uint_known)
qed simp

lemma shouldKeep_iff: "shouldKeep ks c \<longleftrightarrow> c \<in> set ks"
  by (induction ks) auto

lemma DropAllExcept_run:
  "run_state (DropAllExcept keep) s =
     ((), with_calls (map capbset_drop (filter (\<lambda>c. c \<notin> set keep) (map int [0..<41]))) s)"
proof -
  have "run_state (for_each ns (\<lambda>c. if shouldKeep keep (int c) then return () else sys (capbset_drop (int c)))) s
      = ((), with_calls (map capbset_drop (filter (\<lambda>c. c \<notin> set keep) (map int ns))) s)" for ns
    by (induction ns arbitrary: s) (auto simp: shouldKeep_iff)
  then show ?thesis unfolding DropAllExcept_def .
qed

lemma RaiseAmbient_loop:
  "run_state (for_each caps (\<lambda>cap. do { _ \<leftarrow> RaiseAmbient cap; return () })) s =
     ((), with_calls (map ambient_raise caps) s)"
  by (induction caps arbitrary: s) (auto simp: RaiseAmbient_def)


text \<open>The part of \<open>SetupCapabilities\<close> after the sets are written.\<close>

definition lowering :: "Capability list \<Rightarrow> call list" where
  "lowering keep = map capbset_drop (filter (\<lambda>c. c \<notin> set keep) (map int [0..<41])) @
     map ambient_raise keep"

lemma set_map_int_upt: "set (map int [0..<n]) = {0..<int n}"
  by (auto simp: image_iff intro!: bexI [of _ "nat _"])

lemma process_lowering: "\<forall>c \<in> set (lowering keep). \<not> process_call c"
  by (auto simp: lowering_def)

lemma lowering_after:
  assumes "set keep \<subseteq> known" and "Bnd k \<subseteq> known"
  shows "caps_after (lowering keep) k =
    k\<lparr>Bnd := (if CAP_SETPCAP \<in> Eff k then Bnd k \<inter> set keep else Bnd k),
      Amb := Amb k \<union> (set keep \<inter> Perm k \<inter> Inh k)\<rparr>"
proof -
  let ?ks = "filter (\<lambda>c. c \<notin> set keep) (map int [0..<41])"
  have ks: "set ?ks = known - set keep"
    unfolding set_filter set_map_int_upt by (auto simp: known_def)
  then have "set ?ks \<subseteq> known" by blast
  note d = drops_after [OF this, of k]
  have "Bnd k - (known - set keep) = Bnd k \<inter> set keep" using assms(2) by blast
  with d ks have d': "caps_after (map capbset_drop ?ks) k =
      (if CAP_SETPCAP \<in> Eff k then k\<lparr>Bnd := Bnd k \<inter> set keep\<rparr> else k)" by simp
  show ?thesis
    unfolding lowering_def caps_after_simps(3) d' raises_after [OF assms(1)] by simp
qed

text \<open>The sets that \<open>SetupCapabilities\<close> leaves, from the sets before and the capabilities allowed.\<close>

definition lowered :: "Capability set \<Rightarrow> thread_caps \<Rightarrow> thread_caps" where
  "lowered allowed k = \<lparr>Eff = allowed, Perm = allowed, Inh = Inh k \<union> (allowed \<inter> Bnd k),
     Bnd = (if CAP_SETPCAP \<in> allowed then Bnd k \<inter> allowed else Bnd k),
     Amb = allowed \<inter> (Inh k \<union> Bnd k)\<rparr>"

lemma SetupCapabilities_run:
  assumes k: "documented k s" and A: "set (AllowCaps cfg) \<subseteq> known" "set (AllowCaps cfg) \<subseteq> Perm k"
  shows "\<exists>cs. run_state (SetupCapabilities cfg) s = (Ret (), with_calls cs s) \<and>
    (\<forall>c \<in> set cs. \<not> process_call c) \<and> caps_after cs k = lowered (set (AllowCaps cfg)) k"
proof -
  let ?A = "AllowCaps cfg"
  from SetCapabilities_run [OF k A] obtain c1 where
    r1: "run_state (SetCapabilities ?A) s = (Ret None, with_calls c1 s)" and p1: "\<forall>c \<in> set c1. \<not> process_call c"
    and k1: "caps_after c1 k = k\<lparr>Eff := set ?A, Perm := set ?A, Amb := Amb k \<inter> set ?A \<inter> Inh k\<rparr>" by blast
  let ?k1 = "k\<lparr>Eff := set ?A, Perm := set ?A, Amb := Amb k \<inter> set ?A \<inter> Inh k\<rparr>"
  have "documented ?k1 (with_calls c1 s)" using documented_with_calls [OF k p1] k1 by simp
  from AddInheritable_loop [OF this A(1)] obtain c2 where
    r2: "run_state (for_each_out ?A AddInheritable) (with_calls c1 s) = (Ret (), with_calls c2 (with_calls c1 s))"
    and p2: "\<forall>c \<in> set c2. \<not> process_call c" and k2: "caps_after c2 ?k1 = ?k1\<lparr>Inh := Inh ?k1 \<union> (set ?A \<inter> Bnd ?k1)\<rparr>"
    by auto
  have "run_state (SetupCapabilities cfg) s = (Ret (), with_calls (c1 @ c2 @ lowering ?A) s)"
    by (simp add: SetupCapabilities_def r1 r2 DropAllExcept_run RaiseAmbient_loop lowering_def
        del: upt_rec_numeral)
  moreover have "caps_after (c1 @ c2 @ lowering ?A) k = lowered (set ?A) k"
  proof -
    have B: "Bnd (?k1\<lparr>Inh := Inh ?k1 \<union> (set ?A \<inter> Bnd ?k1)\<rparr>) \<subseteq> known" using k by (simp add: documented_def)
    have "Amb k \<inter> set ?A \<inter> Inh k \<union> (set ?A \<inter> set ?A \<inter> (Inh k \<union> (set ?A \<inter> Bnd k))) = set ?A \<inter> (Inh k \<union> Bnd k)"
      by blast
    then show ?thesis
      unfolding caps_after_simps k1 k2 lowering_after [OF A(1) B] by (simp add: lowered_def)
  qed
  ultimately show ?thesis
    using p1 p2 process_lowering [of ?A] by (intro exI [of _ "c1 @ c2 @ lowering ?A"]) auto
qed

text \<open>
  C11: what \<open>SetupCapabilities\<close> leaves of the five capability sets, on a kernel that answers as
  \<open>capabilities(7)\<close> documents and for allowed capabilities that the process has: exactly the allowed
  ones are effective and permitted; inheritable are those that were and the allowed ones of the
  bounding set; ambient are the allowed ones that are inheritable. The bounding set is cut down to
  the allowed ones only if \<open>CAP_SETPCAP\<close> is among them: the effective set is lowered first, and the
  kernel then refuses every drop from the bounding set; so it stays as it was for the default
  specification, which allows only \<open>CAP_SYS_ADMIN\<close>.
\<close>

theorem SetupCapabilities_sets:
  assumes "documented k s" and "set (AllowCaps cfg) \<subseteq> known \<inter> Perm k"
  shows "result (SetupCapabilities cfg) s = Ret () \<and>
    caps_after (calls (SetupCapabilities cfg) s) k =
      \<lparr>Eff = set (AllowCaps cfg), Perm = set (AllowCaps cfg),
       Inh = Inh k \<union> (set (AllowCaps cfg) \<inter> Bnd k),
       Bnd = (if CAP_SETPCAP \<in> set (AllowCaps cfg) then Bnd k \<inter> set (AllowCaps cfg) else Bnd k),
       Amb = set (AllowCaps cfg) \<inter> (Inh k \<union> Bnd k)\<rparr>"
  using SetupCapabilities_run [OF assms(1), of cfg] assms(2)
  by (auto simp: result_def calls_def lowered_def)

section \<open>Instances\<close>

text \<open>A kernel that answers as documented, whose thread starts with the sets \<open>k\<close>.\<close>

definition capWord :: "Capability set \<Rightarrow> 32 word \<times> 32 word" where
  "capWord S = (horner_sum of_bool 2 (map (\<lambda>i. int i \<in> S) [0..<32]),
     horner_sum of_bool 2 (map (\<lambda>i. int i + 32 \<in> S) [0..<32]))"

definition capData :: "thread_caps \<Rightarrow> cap_data" where
  "capData k = (\<lparr>ud_Effective = fst (capWord (Eff k)), ud_Permitted = fst (capWord (Perm k)),
       ud_Inheritable = fst (capWord (Inh k))\<rparr>,
     \<lparr>ud_Effective = snd (capWord (Eff k)), ud_Permitted = snd (capWord (Perm k)),
       ud_Inheritable = snd (capWord (Inh k))\<rparr>)"

definition kernel_os :: "thread_caps \<Rightarrow> os" where
  "kernel_os k = quiet_os\<lparr>
     o_err := \<lambda>t c. (case c of PrC p \<Rightarrow> cap_answer (caps_after t k) p | _ \<Rightarrow> None),
     o_caps := \<lambda>t _. Inr (capData (caps_after t k))\<rparr>"

text \<open>The sets of a process in a new user namespace.\<close>

definition all_caps :: thread_caps where
  "all_caps = \<lparr>Eff = known, Perm = known, Inh = {}, Bnd = known, Amb = {}\<rparr>"

lemma bit_capWord: "i < 32 \<Longrightarrow> bit (fst (capWord S)) i \<longleftrightarrow> int i \<in> S"
  "i < 32 \<Longrightarrow> bit (snd (capWord S)) i \<longleftrightarrow> int i + 32 \<in> S"
  by (simp_all add: capWord_def bit_horner_sum_bit_iff del: upt_rec_numeral)

lemma kset_capData:
  assumes "\<And>h. g h = (fst (capWord (S h)), snd (capWord (S h)))"
    and "f (fst d) = fst (capWord (S k))" "f (snd d) = snd (capWord (S k))" and "S k \<subseteq> known"
  shows "kset f d = S k"
proof -
  have "capBit f d c \<longleftrightarrow> c \<in> S k" if "c \<in> known" for c
    using that assms(2,3) bit_capWord(1) [of "nat c" "S k"] bit_capWord(2) [of "nat (c - 32)" "S k"]
    by (auto simp: capBit_def known_def)
  with assms(4) show ?thesis by (auto simp: kset_def)
qed

definition small :: "thread_caps \<Rightarrow> bool" where
  "small k \<longleftrightarrow> Eff k \<subseteq> known \<and> Perm k \<subseteq> known \<and> Inh k \<subseteq> known \<and> Bnd k \<subseteq> known"

lemma small_step: "small k \<Longrightarrow> small (cap_step c k)"
  by (cases c) (auto simp: small_def kset_def split: prcall.split prctl_op.split)

lemma small_after: "small k \<Longrightarrow> small (caps_after cs k)"
  by (induction cs arbitrary: k) (simp_all add: small_step)

lemma documented_kernel: "small k \<Longrightarrow> documented k (kernel_os k)"
  unfolding documented_def
proof (intro conjI allI impI)
  fix cs assume k: "small k"
  let ?k = "caps_after cs k"
  have s: "Eff ?k \<subseteq> known" "Perm ?k \<subseteq> known" "Inh ?k \<subseteq> known" using small_after [OF k, of cs] by (auto simp: small_def)
  have "kset ud_Effective (capData ?k) = Eff ?k" by (rule kset_capData) (use s in \<open>auto simp: capData_def\<close>)
  moreover have "kset ud_Permitted (capData ?k) = Perm ?k" by (rule kset_capData) (use s in \<open>auto simp: capData_def\<close>)
  moreover have "kset ud_Inheritable (capData ?k) = Inh ?k" by (rule kset_capData) (use s in \<open>auto simp: capData_def\<close>)
  ultimately show "\<exists>d. o_caps (kernel_os k) (trace (kernel_os k) @ cs) (PrC Capget) = Inr d \<and>
     kset ud_Effective d = Eff ?k \<and> kset ud_Permitted d = Perm ?k \<and> kset ud_Inheritable d = Inh ?k"
    by (simp add: kernel_os_def quiet_os_def)
qed (simp_all add: small_def kernel_os_def quiet_os_def del: cap_answer.simps)

lemma small_all_caps: "small all_caps"
  by (simp add: small_def all_caps_def)

theorem SetupCapabilities_sets_witness:
  "caps_after (calls (SetupCapabilities (Capabilities DefaultSpec)) (kernel_os all_caps)) all_caps =
    \<lparr>Eff = {21}, Perm = {21}, Inh = {21}, Bnd = known, Amb = {21}\<rparr>"
proof -
  have "set (AllowCaps (Capabilities DefaultSpec)) = {21}" "21 \<in> known"
    by (simp_all add: DefaultSpec_def CAP_SYS_ADMIN_def known_def)
  then show ?thesis
    using SetupCapabilities_sets [OF documented_kernel [OF small_all_caps], of "Capabilities DefaultSpec"]
    by (simp add: all_caps_def CAP_SETPCAP_def)
qed

definition demo_caps :: CapState where
  "demo_caps = \<lparr>CapPID = 7, Bounding = 0x1ffffffffff, Permitted = 0x200000, Effective = 0x200000,
     Inheritable = 0, Ambient = 0x200000\<rparr>"

definition status_os :: os where
  "status_os = quiet_os\<lparr>o_str := \<lambda>_ _. Inr (Join ([''Name:'' @ CHR 0x09 # ''sh''] @
     statusLines demo_caps @ []) [newline])\<rparr>"

theorem ReadCaps_status_witness: "result (ReadCaps 7) status_os = Inr (demo_caps\<lparr>CapPID := 7\<rparr>)"
proof -
  have "otherLine (''Name:'' @ CHR 0x09 # ''sh'')" by code_simp
  then show ?thesis
    by (intro ReadCaps_status [where pre = "[''Name:'' @ CHR 0x09 # ''sh'']" and post = "[]"])
      (auto simp: status_os_def quiet_os_def)
qed

end
