(* ===== verification/Status.thy ===== *)
theory Status
  imports Types GoStrconv
begin

text \<open>
  \<open>lib/status.go\<close>: what \<open>/proc\<close> says of a process, its namespaces above all, and the difference
  between two such readings; and \<open>LogNamespace\<close> of \<open>lib/namespaces.go\<close>.
\<close>

section \<open>Namespaces of a process\<close>

definition NS_MNT :: string where "NS_MNT = ''mnt''"
definition NS_PID :: string where "NS_PID = ''pid''"
definition NS_NET :: string where "NS_NET = ''net''"
definition NS_UTS :: string where "NS_UTS = ''uts''"
definition NS_IPC :: string where "NS_IPC = ''ipc''"
definition NS_USER :: string where "NS_USER = ''user''"

lemmas ns_names = NS_MNT_def NS_PID_def NS_NET_def NS_UTS_def NS_IPC_def NS_USER_def

record NamespaceState =
  StatePID :: int
  IDs :: "(string, string) gomap"

record NamespaceDiff =
  DiffNamespace :: string
  BeforeID :: string
  AfterID :: string

text \<open>What is between the first opening bracket and a closing one at the end, if there is one.\<close>

definition nsIdentity :: "string \<Rightarrow> string" where
  "nsIdentity target =
     (case IndexByte target (CHR ''['') of
        Some i \<Rightarrow> TrimSuffix (drop (i + 1) target) '']''
      | None \<Rightarrow> target)"

fun readNs :: "int \<Rightarrow> string list \<Rightarrow> (string, string) gomap \<Rightarrow> ('z os_scheme, (string, string) gomap) state" where
  "readNs pid [] ids = return ids"
| "readNs pid (ns # nss) ids = do {
     r \<leftarrow> sys_str (FsC (Readlink (''/proc/'' @ Itoa pid @ ''/ns/'' @ ns)));
     readNs pid nss (map_put ns (case r of Inl _ \<Rightarrow> ''error'' | Inr target \<Rightarrow> nsIdentity target) ids)
   }"

definition ReadNamespaces :: "int \<Rightarrow> ('z os_scheme, NamespaceState) state" where
  "ReadNamespaces pid = do {
     ids \<leftarrow> readNs pid [NS_MNT, NS_PID, NS_NET, NS_UTS, NS_IPC, NS_USER] [];
     return \<lparr>StatePID = pid, IDs = ids\<rparr>
   }"

definition StatusCalls :: "int \<Rightarrow> ('z os_scheme, NamespaceState) state" where
  "StatusCalls pid = ReadNamespaces pid"

text \<open>A key a map does not have reads as the empty string.\<close>

definition idOfNs :: "NamespaceState \<Rightarrow> string \<Rightarrow> string" where
  "idOfNs s ns = (case map_get (IDs s) ns of None \<Rightarrow> [] | Some i \<Rightarrow> i)"

fun diffIDs :: "(string, string) gomap \<Rightarrow> NamespaceState \<Rightarrow> NamespaceDiff list" where
  "diffIDs [] next = []"
| "diffIDs ((ns, beforeID) # ids) next =
     (let afterID = idOfNs next ns
      in if beforeID \<noteq> afterID
         then \<lparr>DiffNamespace = ns, BeforeID = beforeID, AfterID = afterID\<rparr> # diffIDs ids next
         else diffIDs ids next)"

definition DiffNamespaces :: "NamespaceState \<Rightarrow> NamespaceState \<Rightarrow> NamespaceDiff list" where
  "DiffNamespaces prev next = diffIDs (IDs prev) next"

definition arrowText :: string where
  "arrowText = [CHR 0xE2, CHR 0x86, CHR 0x92]"

definition LogNamespacePosture :: "string \<Rightarrow> NamespaceState \<Rightarrow> ('z os_scheme, unit) state" where
  "LogNamespacePosture label ns = do {
     _ \<leftarrow> sys (UiC (Printf (CHR 0x0A # ''[NS] %s (pid=%d)'' @ [CHR 0x0A]) [ArgS label, ArgI (StatePID ns)]));
     for_each [NS_USER, NS_MNT, NS_PID, NS_NET, NS_IPC, NS_UTS] (\<lambda>n.
       sys (UiC (Printf (''  %-4s '' @ arrowText @ '' %s'' @ [CHR 0x0A]) [ArgS n, ArgS (idOfNs ns n)])))
   }"

definition LogNamespaceDelta :: "NamespaceDiff list \<Rightarrow> ('z os_scheme, unit) state" where
  "LogNamespaceDelta diffs =
     (if diffs = [] then sys (UiC (Print (CHR 0x0A # ''[NS] no namespace transitions detected'' @ [CHR 0x0A])))
      else for_each diffs (\<lambda>d. sys (UiC (Printf (''  %-4s: %s '' @ arrowText @ '' %s'' @ [CHR 0x0A])
        [ArgS (DiffNamespace d), ArgS (BeforeID d), ArgS (AfterID d)]))))"

definition LogNamespace :: "NamespaceState \<Rightarrow> int \<Rightarrow> ('z os_scheme, unit) state" where
  "LogNamespace parentNS pid = do {
     childNS \<leftarrow> ReadNamespaces pid;
     LogNamespaceDelta (DiffNamespaces parentNS childNS)
   }"

section \<open>Other status files\<close>

definition LFc :: char where "LFc = CHR 0x0A"

text \<open>What a line of \<open>/proc/<pid>/status\<close> adds to the output.\<close>

definition identityLine :: "string \<Rightarrow> string" where
  "identityLine line =
     (let fields = Fields line
      in if fields = [] then []
         else if fields ! 0 = ''Pid:'' then
           (if length fields \<ge> 2 then ''PID='' @ fields ! 1 @ [LFc] else [])
         else if fields ! 0 = ''PPid:'' then
           (if length fields \<ge> 2 then ''PPID='' @ fields ! 1 @ [LFc] else [])
         else if fields ! 0 = ''Uid:'' then
           (if length fields \<ge> 3 then ''UID='' @ fields ! 1 @ '' EUID='' @ fields ! 2 @ [LFc] else [])
         else if fields ! 0 = ''Gid:'' then
           (if length fields \<ge> 3 then ''GID='' @ fields ! 1 @ '' EGID='' @ fields ! 2 @ [LFc] else [])
         else [])"

definition capStatusKeys :: "(string \<times> string) list" where
  "capStatusKeys = [(''CapInh:'', ''CapInh=''), (''CapPrm:'', ''CapPrm=''), (''CapEff:'', ''CapEff=''),
     (''CapBnd:'', ''CapBnd=''), (''CapAmb:'', ''CapAmb='')]"

definition capabilityLine :: "string \<Rightarrow> string" where
  "capabilityLine line =
     (let fields = Fields line
      in if fields = [] then []
         else case map_of capStatusKeys (fields ! 0) of
           None \<Rightarrow> []
         | Some name \<Rightarrow> if length fields \<ge> 2 then name @ fields ! 1 @ [LFc] else [])"

definition printStatus :: "(string \<Rightarrow> string) \<Rightarrow> string \<Rightarrow> ('z os_scheme, unit) state" where
  "printStatus f data = for_each (Split data LFc) (\<lambda>l.
     if f l \<noteq> [] then sys (UiC (Print (f l))) else return ())"

definition readIdentity :: "string \<Rightarrow> ('z os_scheme, unit outcome) state" where
  "readIdentity pidStr = do {
     r \<leftarrow> sys_str (FsC (ReadFile (''/proc/'' @ pidStr @ ''/status'')));
     case r of Inl _ \<Rightarrow> return (Exit 1)
     | Inr data \<Rightarrow> do { _ \<leftarrow> printStatus identityLine data; return (Ret ()) }
   }"

definition readCapabilities :: "string \<Rightarrow> ('z os_scheme, unit outcome) state" where
  "readCapabilities pidStr = do {
     r \<leftarrow> sys_str (FsC (ReadFile (''/proc/'' @ pidStr @ ''/status'')));
     case r of Inl _ \<Rightarrow> return (Exit 1)
     | Inr data \<Rightarrow> do { _ \<leftarrow> printStatus capabilityLine data; return (Ret ()) }
   }"

definition cgroupLine :: "string \<Rightarrow> ('z os_scheme, unit) state" where
  "cgroupLine line =
     (if line = [] then return ()
      else do {
        _ \<leftarrow> sys (UiC (Print (line @ [LFc])));
        let parts = SplitN line (CHR '':'') 3;
        if length parts = 3 then do {
          _ \<leftarrow> sys (UiC (Print (''HierarchyID='' @ parts ! 0 @ [LFc])));
          _ \<leftarrow> sys (UiC (Print (''Controllers='' @ parts ! 1 @ [LFc])));
          sys (UiC (Print (''CgroupPath='' @ parts ! 2 @ [LFc])))
        } else return ()
      })"

definition readCgroups :: "string \<Rightarrow> ('z os_scheme, unit outcome) state" where
  "readCgroups pidStr = do {
     r \<leftarrow> sys_str (FsC (ReadFile (''/proc/'' @ pidStr @ ''/cgroup'')));
     case r of Inl _ \<Rightarrow> return (Exit 1)
     | Inr data \<Rightarrow> do { _ \<leftarrow> for_each (Split data LFc) cgroupLine; return (Ret ()) }
   }"

definition readSyscalls :: "string \<Rightarrow> ('z os_scheme, unit) state" where
  "readSyscalls pidStr = do {
     r \<leftarrow> sys_str (FsC (ReadFile (''/proc/'' @ pidStr @ ''/syscall'')));
     case r of Inl _ \<Rightarrow> return ()
     | Inr data \<Rightarrow> sys (UiC (Print (''SYSCALL='' @ TrimSpace data @ [LFc])))
   }"

section \<open>Reading and comparing\<close>

lemma IndexByte_append: "c \<notin> set p \<Longrightarrow> IndexByte (p @ c # r) c = Some (length p)"
  by (induction p) auto

lemma nsIdentity_link:
  "CHR ''['' \<notin> set name \<Longrightarrow> nsIdentity (name @ ''['' @ inode @ '']'') = inode"
  by (simp add: nsIdentity_def IndexByte_append TrimSuffix_def HasSuffix_def)

definition nsLinks :: "(string \<times> string) list" where
  "nsLinks = [(NS_MNT, ''mnt:''), (NS_PID, ''pid:''), (NS_NET, ''net:''), (NS_UTS, ''uts:''),
     (NS_IPC, ''ipc:''), (NS_USER, ''user:'')]"

lemma readNs_run:
  assumes "\<And>t ns. ns \<in> set nss \<Longrightarrow>
    o_str s t (FsC (Readlink (''/proc/'' @ Itoa pid @ ''/ns/'' @ ns))) = Inr (ns @ '':['' @ inode ns @ '']'')"
    and "\<And>ns. ns \<in> set nss \<Longrightarrow> CHR ''['' \<notin> set ns"
  shows "\<exists>cs. run_state (readNs pid nss ids) s =
    (foldl (\<lambda>m ns. map_put ns (inode ns) m) ids nss, with_calls cs s)"
  using assms
proof (induction nss arbitrary: ids s)
  case Nil
  show ?case by (auto intro: exI [of _ "[]"])
next
  case (Cons ns nss)
  let ?c = "FsC (Readlink (''/proc/'' @ Itoa pid @ ''/ns/'' @ ns))"
  have "o_str s (trace s) ?c = Inr ((ns @ '':'') @ ''['' @ inode ns @ '']'')" using Cons.prems(1) by simp
  moreover have "CHR ''['' \<notin> set (ns @ '':'')" using Cons.prems(2) by simp
  moreover note nsIdentity_link [OF this, of "inode ns"]
  moreover obtain cs where "run_state (readNs pid nss (map_put ns (inode ns) ids)) (emit ?c s) =
      (foldl (\<lambda>m ns. map_put ns (inode ns) m) (map_put ns (inode ns) ids) nss, with_calls cs (emit ?c s))"
    using Cons.IH [of "emit ?c s"] Cons.prems by fastforce
  ultimately show ?case by (auto intro!: exI [of _ "?c # cs"])
qed

text \<open>
  When the kernel names a process's namespaces the way it does, \<open>ReadNamespaces\<close> holds the
  inode of each of the six; so the comparison of two processes reports exactly the namespaces
  they do not share, with both inodes, and each once.
\<close>

theorem namespaces_compared:
  fixes inode1 inode2 :: "string \<Rightarrow> string"
  assumes "\<And>t ns. o_str s t (FsC (Readlink (''/proc/'' @ Itoa pid @ ''/ns/'' @ ns))) =
      Inr (ns @ '':['' @ inode1 ns @ '']'')"
    and "\<And>t ns. o_str s' t (FsC (Readlink (''/proc/'' @ Itoa pid' @ ''/ns/'' @ ns))) =
      Inr (ns @ '':['' @ inode2 ns @ '']'')"
  shows "DiffNamespaces (result (ReadNamespaces pid) s) (result (ReadNamespaces pid') s') =
    map (\<lambda>ns. \<lparr>DiffNamespace = ns, BeforeID = inode1 ns, AfterID = inode2 ns\<rparr>)
      (filter (\<lambda>ns. inode1 ns \<noteq> inode2 ns) [NS_MNT, NS_PID, NS_NET, NS_UTS, NS_IPC, NS_USER])"
proof -
  let ?nss = "[NS_MNT, NS_PID, NS_NET, NS_UTS, NS_IPC, NS_USER]"
  have plain: "CHR ''['' \<notin> set ns" if "ns \<in> set ?nss" for ns using that by (auto simp: ns_names)
  have f: "foldl (\<lambda>m ns. map_put ns (inode ns) m) [] ?nss = map (\<lambda>ns. (ns, inode ns)) ?nss"
    for inode :: "string \<Rightarrow> string" by (simp add: ns_names)
  have "result (ReadNamespaces pid) s = \<lparr>StatePID = pid, IDs = map (\<lambda>ns. (ns, inode1 ns)) ?nss\<rparr>"
    using readNs_run [of ?nss s pid inode1 "[]"] assms(1) plain unfolding f
    by (auto simp: ReadNamespaces_def result_def)
  moreover have "result (ReadNamespaces pid') s' = \<lparr>StatePID = pid', IDs = map (\<lambda>ns. (ns, inode2 ns)) ?nss\<rparr>"
    using readNs_run [of ?nss s' pid' inode2 "[]"] assms(2) plain unfolding f
    by (auto simp: ReadNamespaces_def result_def)
  ultimately show ?thesis
    by (simp add: DiffNamespaces_def idOfNs_def ns_names)
qed

definition ns_os :: os where
  "ns_os = quiet_os\<lparr>o_str := \<lambda>_ c. (case c of FsC (Readlink p) \<Rightarrow>
     Inr (drop 12 p @ '':['' @ (if drop 12 p = NS_NET then ''2'' else ''1'') @ '']'') | _ \<Rightarrow> Inr [])\<rparr>"

definition ns_os1 :: os where
  "ns_os1 = quiet_os\<lparr>o_str := \<lambda>_ c. (case c of FsC (Readlink p) \<Rightarrow> Inr (drop 12 p @ '':[1]'') | _ \<Rightarrow> Inr [])\<rparr>"

theorem namespaces_compared_witness:
  "DiffNamespaces (result (ReadNamespaces 42) ns_os1) (result (ReadNamespaces 43) ns_os) =
    [\<lparr>DiffNamespace = ''net'', BeforeID = ''1'', AfterID = ''2''\<rparr>]"
proof -
  have i: "Itoa 42 = ''42''" "Itoa 43 = ''43''" by code_simp+
  have "o_str ns_os1 t (FsC (Readlink (''/proc/'' @ Itoa 42 @ ''/ns/'' @ ns))) =
      Inr (ns @ '':['' @ (\<lambda>_. ''1'') ns @ '']'')" for t ns
    unfolding i by (simp add: ns_os1_def)
  moreover have "o_str ns_os t (FsC (Readlink (''/proc/'' @ Itoa 43 @ ''/ns/'' @ ns))) =
      Inr (ns @ '':['' @ (\<lambda>ns. if ns = NS_NET then ''2'' else ''1'') ns @ '']'')" for t ns
    unfolding i by (simp add: ns_os_def)
  ultimately show ?thesis
    by (subst namespaces_compared [of ns_os1 42 "\<lambda>_. ''1''" ns_os 43 "\<lambda>ns. if ns = NS_NET then ''2'' else ''1''"])
      (simp_all add: ns_names)
qed

end
