(* ===== verification/Seccomp.thy ===== *)
theory Seccomp
  imports Types
begin

text \<open>
  \<open>lib/seccomp.go\<close> and the C sources of \<open>lib/seccomp/\<close>: the filter programs, their installation, and
  the choice of one by profile. The kernel's part, which checks a program before it accepts it and
  runs it at each system call, follows its documentation; the numbers of the system
  calls, which a system header gives, are a parameter.
\<close>

section \<open>Filter programs\<close>

text \<open>Constants of the headers: operation codes, return values, the architecture.\<close>

definition BPF_LD_W_ABS :: "16 word" where "BPF_LD_W_ABS = 0x20"
definition BPF_JMP_JEQ_K :: "16 word" where "BPF_JMP_JEQ_K = 0x15"
definition BPF_RET_K :: "16 word" where "BPF_RET_K = 0x06"
definition SECCOMP_RET_ALLOW :: "32 word" where "SECCOMP_RET_ALLOW = 0x7FFF0000"
definition SECCOMP_RET_KILL_PROCESS :: "32 word" where "SECCOMP_RET_KILL_PROCESS = 0x80000000"
definition AUDIT_ARCH_X86_64 :: "32 word" where "AUDIT_ARCH_X86_64 = 0xC000003E"

lemmas bpf_codes = BPF_LD_W_ABS_def BPF_JMP_JEQ_K_def BPF_RET_K_def

text \<open>The fields of \<open>struct seccomp_data\<close> that the programs load, and their offsets.\<close>

record seccomp_data =
  sd_nr :: "32 word"
  sd_arch :: "32 word"

definition off_nr :: "32 word" where "off_nr = 0"
definition off_arch :: "32 word" where "off_arch = 4"

definition BPF_STMT :: "16 word \<Rightarrow> 32 word \<Rightarrow> sock_filter" where
  "BPF_STMT c k = \<lparr>sf_code = c, sf_jt = 0, sf_jf = 0, sf_k = k\<rparr>"

definition BPF_JUMP :: "16 word \<Rightarrow> 32 word \<Rightarrow> 8 word \<Rightarrow> 8 word \<Rightarrow> sock_filter" where
  "BPF_JUMP c k jt jf = \<lparr>sf_code = c, sf_jt = jt, sf_jf = jf, sf_k = k\<rparr>"

text \<open>The macros of \<open>rules.h\<close> and \<open>filter.c\<close>.\<close>

definition ALLOW_SYSCALL :: "32 word \<Rightarrow> sock_filter list" where
  "ALLOW_SYSCALL n = [BPF_JUMP BPF_JMP_JEQ_K n 0 1, BPF_STMT BPF_RET_K SECCOMP_RET_ALLOW]"

definition KILL_PROCESS :: sock_filter where
  "KILL_PROCESS = BPF_STMT BPF_RET_K SECCOMP_RET_KILL_PROCESS"

definition VALIDATE_ARCH :: "sock_filter list" where
  "VALIDATE_ARCH =
    [BPF_STMT BPF_LD_W_ABS off_arch, BPF_JUMP BPF_JMP_JEQ_K AUDIT_ARCH_X86_64 1 0, KILL_PROCESS,
     BPF_STMT BPF_LD_W_ABS off_nr]"

text \<open>The system calls that each profile lists, by name and in the order of the listing.\<close>

definition hello_syscalls :: "string list" where
  "hello_syscalls = [
     ''write'', ''exit'', ''exit_group'', ''rt_sigreturn'']"

definition workload_syscalls :: "string list" where
  "workload_syscalls = [
     ''execve'', ''brk'', ''mmap'', ''munmap'', ''mprotect'', ''arch_prctl'', ''prlimit64'',
     ''write'', ''read'', ''close'', ''getuid'', ''uname'', ''getrandom'', ''prctl'', ''readlink'',
     ''fcntl'', ''socket'', ''bind'', ''listen'', ''accept'', ''accept4'', ''setsockopt'',
     ''poll'', ''ppoll'', ''set_tid_address'', ''set_robust_list'', ''rseq'', ''rt_sigreturn'',
     ''exit_group'']"

definition debug_syscalls :: "string list" where
  "debug_syscalls = [
     ''openat'', ''read'', ''write'', ''close'', ''access'', ''stat'', ''fstat'', ''lstat'',
     ''newfstatat'', ''getdents'', ''getdents64'', ''readlink'', ''readlinkat'', ''lseek'',
     ''getcwd'', ''chdir'', ''pipe'', ''pipe2'', ''execve'', ''clone'', ''wait4'', ''exit_group'',
     ''getpid'', ''getppid'', ''getpgrp'', ''setpgid'', ''brk'', ''mmap'', ''munmap'',
     ''mprotect'', ''pread64'', ''arch_prctl'', ''prlimit64'', ''uname'', ''getrandom'', ''prctl'',
     ''futex'', ''getuid'', ''geteuid'', ''getgid'', ''getegid'', ''getresuid'', ''getresgid'',
     ''getgroups'', ''setuid'', ''setgid'', ''setgroups'', ''capget'', ''capset'',
     ''rt_sigaction'', ''rt_sigprocmask'', ''rt_sigreturn'', ''sigaltstack'', ''poll'', ''select'',
     ''ioctl'', ''fcntl'', ''dup'', ''dup2'', ''dup3'', ''socket'', ''connect'',
     ''set_tid_address'', ''set_robust_list'', ''rseq'']"

text \<open>The three arrays have the same shape; \<open>SYS\<close> gives the number of a system call.\<close>

definition filter_of :: "(string \<Rightarrow> 32 word) \<Rightarrow> string list \<Rightarrow> sock_filter list" where
  "filter_of SYS names = VALIDATE_ARCH @ concat (map (\<lambda>n. ALLOW_SYSCALL (SYS n)) names) @ [KILL_PROCESS]"

definition filter_hello :: "(string \<Rightarrow> 32 word) \<Rightarrow> sock_filter list" where
  "filter_hello SYS = filter_of SYS hello_syscalls"

definition filter_workload :: "(string \<Rightarrow> 32 word) \<Rightarrow> sock_filter list" where
  "filter_workload SYS = filter_of SYS workload_syscalls"

definition filter_debug :: "(string \<Rightarrow> 32 word) \<Rightarrow> sock_filter list" where
  "filter_debug SYS = filter_of SYS debug_syscalls"

section \<open>Installation\<close>

text \<open>What a C function makes of a system call's result: -1 on an error.\<close>

definition cInt :: "err + int \<Rightarrow> int" where
  "cInt r = (case r of Inl _ \<Rightarrow> -1 | Inr n \<Rightarrow> n)"

text \<open>The length goes through an \<open>unsigned short\<close> before the kernel reads that many instructions.\<close>

definition install_filter :: "sock_filter list \<Rightarrow> nat \<Rightarrow> ('z os_scheme, int) state" where
  "install_filter prog cnt = do {
     r \<leftarrow> sys_int (PrC NoNewPrivs);
     if cInt r \<noteq> 0 then return (-1)
     else do {
       rc \<leftarrow> sys_int (PrC (SeccompFilter (take (unat (word_of_nat cnt :: 16 word)) prog)));
       return (cInt rc)
     }
   }"

definition short_len :: "sock_filter list \<Rightarrow> nat" where
  "short_len prog = unat (word_of_nat (length prog) :: 16 word)"

definition install_hello :: "(string \<Rightarrow> 32 word) \<Rightarrow> ('z os_scheme, int) state" where
  "install_hello SYS = install_filter (filter_hello SYS) (short_len (filter_hello SYS))"

definition install_workload :: "(string \<Rightarrow> 32 word) \<Rightarrow> ('z os_scheme, int) state" where
  "install_workload SYS = install_filter (filter_workload SYS) (short_len (filter_workload SYS))"

definition install_debug_shell :: "(string \<Rightarrow> 32 word) \<Rightarrow> ('z os_scheme, int) state" where
  "install_debug_shell SYS = install_filter (filter_debug SYS) (short_len (filter_debug SYS))"

definition ApplySeccomp :: "(string \<Rightarrow> 32 word) \<Rightarrow> Profile \<Rightarrow> ('z os_scheme, err option) state" where
  "ApplySeccomp SYS p =
     (let installed = (\<lambda>install. do {
            rc \<leftarrow> install;
            return (if rc \<noteq> 0 then Some (Errorf ''seccomp install failed: rc=%d'' [ArgI rc]) else None)
          })
      in case p of
           ProfileDebugShell \<Rightarrow> installed (install_debug_shell SYS)
         | ProfileWorkload \<Rightarrow> installed (install_workload SYS)
         | ProfileHello \<Rightarrow> installed (install_hello SYS)
         | _ \<Rightarrow> return (Some (Errorf ''unknown seccomp profile'' [])))"

section \<open>The kernel's side\<close>

text \<open>
  Running a program on a system call: the accumulator is loaded, compared, and a value returned.
  Jumps go forward, so a run ends; \<open>None\<close> stands for what the checker refuses.
\<close>

definition load_word :: "32 word \<Rightarrow> seccomp_data \<Rightarrow> 32 word option" where
  "load_word k d = (if k = off_nr then Some (sd_nr d) else if k = off_arch then Some (sd_arch d) else None)"

function bpf_run :: "sock_filter list \<Rightarrow> 32 word \<Rightarrow> seccomp_data \<Rightarrow> 32 word option" where
  "bpf_run [] a d = None"
| "bpf_run (i # prog) a d =
     (if sf_code i = BPF_LD_W_ABS then
        (case load_word (sf_k i) d of None \<Rightarrow> None | Some a' \<Rightarrow> bpf_run prog a' d)
      else if sf_code i = BPF_JMP_JEQ_K then
        bpf_run (drop (unat (if a = sf_k i then sf_jt i else sf_jf i)) prog) a d
      else if sf_code i = BPF_RET_K then Some (sf_k i)
      else None)"
  by pat_completeness auto
termination by (relation "measure (\<lambda>(prog, _, _). length prog)") auto

text \<open>
  The check before: known instructions, loads of known fields, jumps that stay inside, a return
  at the end, and a length the kernel takes.
\<close>

fun bpf_checked :: "sock_filter list \<Rightarrow> bool" where
  "bpf_checked [] = False"
| "bpf_checked (i # prog) =
     (if sf_code i = BPF_RET_K then prog = [] \<or> bpf_checked prog
      else bpf_checked prog \<and>
        (if sf_code i = BPF_LD_W_ABS then sf_k i \<in> {off_nr, off_arch}
         else sf_code i = BPF_JMP_JEQ_K \<and> unat (sf_jt i) < length prog \<and> unat (sf_jf i) < length prog))"

definition bpf_accepted :: "sock_filter list \<Rightarrow> bool" where
  "bpf_accepted prog \<longleftrightarrow> bpf_checked prog \<and> length prog \<le> 4096"

section \<open>What the filters let through\<close>

lemma bpf_rules:
  "bpf_run (BPF_STMT BPF_RET_K k # prog) a d = Some k"
  "bpf_run (BPF_STMT BPF_LD_W_ABS off_nr # prog) a d = bpf_run prog (sd_nr d) d"
  "bpf_run (BPF_STMT BPF_LD_W_ABS off_arch # prog) a d = bpf_run prog (sd_arch d) d"
  "bpf_run (BPF_JUMP BPF_JMP_JEQ_K k jt jf # prog) a d = bpf_run (drop (unat (if a = k then jt else jf)) prog) a d"
  "bpf_run (KILL_PROCESS # prog) a d = Some SECCOMP_RET_KILL_PROCESS"
  by (simp_all add: KILL_PROCESS_def BPF_STMT_def BPF_JUMP_def bpf_codes load_word_def off_nr_def off_arch_def)

lemma bpf_ALLOW_SYSCALL:
  "bpf_run (ALLOW_SYSCALL k @ prog) a d = (if a = k then Some SECCOMP_RET_ALLOW else bpf_run prog a d)"
  by (simp add: ALLOW_SYSCALL_def bpf_rules del: bpf_run.simps)

lemma bpf_allow:
  "bpf_run (concat (map (\<lambda>n. ALLOW_SYSCALL (SYS n)) names) @ [KILL_PROCESS]) a d =
    Some (if a \<in> SYS ` set names then SECCOMP_RET_ALLOW else SECCOMP_RET_KILL_PROCESS)"
  by (induction names) (auto simp: bpf_ALLOW_SYSCALL bpf_rules simp del: bpf_run.simps)

lemma filter_of_verdict:
  "bpf_run (filter_of SYS names) a d =
    Some (if sd_arch d = AUDIT_ARCH_X86_64 \<and> sd_nr d \<in> SYS ` set names
      then SECCOMP_RET_ALLOW else SECCOMP_RET_KILL_PROCESS)"
  by (simp add: filter_of_def VALIDATE_ARCH_def bpf_rules bpf_allow del: bpf_run.simps)

lemma length_filter_of: "length (filter_of SYS names) = 5 + 2 * length names"
  by (simp add: filter_of_def VALIDATE_ARCH_def length_concat comp_def ALLOW_SYSCALL_def sum_list_triv)

lemma filter_of_accepted: "length names \<le> 2000 \<Longrightarrow> bpf_accepted (filter_of SYS names)"
proof -
  have "bpf_checked (concat (map (\<lambda>n. ALLOW_SYSCALL (SYS n)) names) @ [KILL_PROCESS])"
    by (induction names) (simp_all add: ALLOW_SYSCALL_def KILL_PROCESS_def BPF_STMT_def BPF_JUMP_def bpf_codes)
  then have "bpf_checked (filter_of SYS names)"
    by (simp add: filter_of_def VALIDATE_ARCH_def KILL_PROCESS_def BPF_STMT_def BPF_JUMP_def bpf_codes)
  then show "length names \<le> 2000 \<Longrightarrow> bpf_accepted (filter_of SYS names)"
    by (simp add: bpf_accepted_def length_filter_of)
qed

text \<open>The system calls a profile's filter is meant to let through; \<open>None\<close> for a profile without one.\<close>

definition allowed :: "Profile \<Rightarrow> string list option" where
  "allowed p = (case p of ProfileDebugShell \<Rightarrow> Some debug_syscalls | ProfileWorkload \<Rightarrow> Some workload_syscalls
     | ProfileHello \<Rightarrow> Some hello_syscalls | _ \<Rightarrow> None)"

lemma install_filter_run:
  assumes "length prog < 65536"
  shows "calls (install_filter prog (short_len prog)) s =
      (if cInt (o_int s (trace s) (PrC NoNewPrivs)) = 0 then [PrC NoNewPrivs, PrC (SeccompFilter prog)]
       else [PrC NoNewPrivs]) \<and>
    (cInt (o_int s (trace s) (PrC NoNewPrivs)) \<noteq> 0 \<longrightarrow> result (install_filter prog (short_len prog)) s = -1)"
proof -
  have "unat (word_of_nat (short_len prog) :: 16 word) = length prog"
    using assms by (simp add: short_len_def unat_of_nat)
  then show ?thesis
    by (simp add: install_filter_def calls_def result_def emit_def)
qed

lemma allowed_length: "allowed p = Some names \<Longrightarrow> length names \<le> 2000"
  by (cases p) (auto simp: allowed_def hello_syscalls_def workload_syscalls_def debug_syscalls_def)

lemma ApplySeccomp_allowed:
  "allowed p = Some names \<Longrightarrow> ApplySeccomp SYS p = do {
      rc \<leftarrow> install_filter (filter_of SYS names) (short_len (filter_of SYS names));
      return (if rc \<noteq> 0 then Some (Errorf ''seccomp install failed: rc=%d'' [ArgI rc]) else None) }"
  by (cases p) (auto simp: allowed_def ApplySeccomp_def install_hello_def install_workload_def
      install_debug_shell_def filter_hello_def filter_workload_def filter_debug_def)

text \<open>
  C10: when \<open>ApplySeccomp\<close> returns without an error, the process has first given up gaining
  privileges and then installed one program, which the kernel accepts and which decides every
  system call: allowed if it comes over the native interface and the profile lists it, the end of
  the process for any other. A profile without a list is an error, and installs nothing.
\<close>

theorem seccomp_exact:
  "(case allowed p of
      None \<Rightarrow> result (ApplySeccomp SYS p) s = Some (Errorf ''unknown seccomp profile'' []) \<and>
        calls (ApplySeccomp SYS p) s = []
    | Some names \<Rightarrow> bpf_accepted (filter_of SYS names) \<and>
        (\<forall>d. bpf_run (filter_of SYS names) 0 d =
          Some (if sd_arch d = AUDIT_ARCH_X86_64 \<and> sd_nr d \<in> SYS ` set names
            then SECCOMP_RET_ALLOW else SECCOMP_RET_KILL_PROCESS)) \<and>
        (case result (ApplySeccomp SYS p) s of
           None \<Rightarrow> calls (ApplySeccomp SYS p) s = [PrC NoNewPrivs, PrC (SeccompFilter (filter_of SYS names))]
         | Some _ \<Rightarrow> True))"
proof (cases "allowed p")
  case None
  then show ?thesis
    by (cases p) (simp_all add: allowed_def ApplySeccomp_def result_def calls_def)
next
  case (Some names)
  have l: "length (filter_of SYS names) < 65536"
    using allowed_length [OF Some] by (simp add: length_filter_of)
  have "case result (ApplySeccomp SYS p) s of None \<Rightarrow>
      calls (ApplySeccomp SYS p) s = [PrC NoNewPrivs, PrC (SeccompFilter (filter_of SYS names))] | Some _ \<Rightarrow> True"
    using install_filter_run [OF l, of s] unfolding ApplySeccomp_allowed [OF Some]
    by (auto simp: result_def calls_def case_prod_unfold split: if_splits)
  then show ?thesis using Some filter_of_verdict filter_of_accepted [OF allowed_length [OF Some]] by simp
qed

end
