(* ===== verification/FdsSetup.thy ===== *)
theory FdsSetup
  imports Types
begin

text \<open>
  \<open>lib/fds_setup.go\<close>: the messages by which a container's init and the supervisor exchange
  namespace descriptors and the workload's pid, and the table of handles the supervisor keeps
  for sharing. A message carries bytes, here a string, and descriptors.
\<close>

section \<open>The interface of a message format\<close>

text \<open>
  Sender and receiver of each message rest on one contract: what was encoded is decoded to the
  same value. It follows that distinct values never look alike on the wire.
\<close>

locale codec =
  fixes enc :: "'a \<Rightarrow> 'm"
    and dec :: "'m \<Rightarrow> 'a option"
    and valid :: "'a \<Rightarrow> bool"
  assumes dec_enc: "valid x \<Longrightarrow> dec (enc x) = Some x"
begin

lemma enc_inj: "valid x \<Longrightarrow> valid y \<Longrightarrow> enc x = enc y \<longleftrightarrow> x = y"
  by (metis dec_enc option.inject)

lemma dec_unique: "valid x \<Longrightarrow> valid y \<Longrightarrow> m = enc x \<Longrightarrow> dec m = Some y \<Longrightarrow> y = x"
  by (simp add: dec_enc)

end

section \<open>The workload's pid\<close>

definition byte :: "nat \<Rightarrow> char" where
  "byte n = char_of (n mod 256)"

lemma of_char_byte [simp]: "of_char (byte n) = (n mod 256 :: nat)"
  by (simp add: byte_def of_char_of)

text \<open>\<open>binary.LittleEndian\<close> on four bytes.\<close>

definition PutUint32 :: "32 word \<Rightarrow> string" where
  "PutUint32 w = (let n = unat w in
     [byte n, byte (n div 2 ^ 8), byte (n div 2 ^ 16), byte (n div 2 ^ 24)])"

definition Uint32 :: "string \<Rightarrow> nat" where
  "Uint32 b = of_char (b ! 0) + of_char (b ! 1) * 2 ^ 8 + of_char (b ! 2) * 2 ^ 16 +
     of_char (b ! 3) * 2 ^ 24"

definition SendWorkloadPID :: "IPC \<Rightarrow> int \<Rightarrow> ('z os_scheme, err option) state" where
  "SendWorkloadPID ipc pid =
     sys_err (FdC (Sendmsg (snd (Init2Sup ipc)) (PutUint32 (word_of_int pid)) []))"

text \<open>The receiver's buffer holds four bytes, so a longer message is cut to four.\<close>

definition RecvWorkloadPID :: "IPC \<Rightarrow> ('z os_scheme, int outcome) state" where
  "RecvWorkloadPID ipc = do {
     r \<leftarrow> sys_msg (FdC (Recvmsg (fst (Init2Sup ipc)) 4));
     return (case r of
       Inl e \<Rightarrow> Panic ''recvmsg''
     | Inr (data, _) \<Rightarrow>
         (let buf = take 4 data
          in if length buf \<noteq> 4 then Panic ''invalid workload PID message''
             else Ret (int (Uint32 buf))))
   }"

section \<open>Namespaces a container created\<close>

fun collect_loop ::
  "ContainerSpec \<Rightarrow> NamespaceType list \<Rightarrow> (NamespaceType, int) gomap \<Rightarrow>
    ('z os_scheme, (NamespaceType, int) gomap outcome) state" where
  "collect_loop spec [] fds = return (Ret fds)"
| "collect_loop spec (ns # rest) fds =
     (if \<not> specWantsNamespace spec ns then collect_loop spec rest fds
      else if ns \<in> ShareType ` set (Shares spec) then collect_loop spec rest fds
      else obind (nsTypeToProcPath ns) (\<lambda>path. do {
        r \<leftarrow> sys_int (FsC (OpenPath path));
        case r of Inl _ \<Rightarrow> collect_loop spec rest fds
        | Inr fd \<Rightarrow> collect_loop spec rest (map_put ns fd fds)
      }))"

text \<open>
  The code returns a Go map, which has no order. The list here is in the order in which the loop enters
  the types; the message that is made of it lists them in whatever order the sender's loop takes.
\<close>

definition CollectCreatedNamespaceFDs ::
  "ContainerSpec \<Rightarrow> ('z os_scheme, (NamespaceType, int) gomap outcome) state" where
  "CollectCreatedNamespaceFDs spec = collect_loop spec all_ns []"

text \<open>The bytes of the message: the count, then one byte per type.\<close>

definition nsBytes :: "NamespaceType list \<Rightarrow> string" where
  "nsBytes types = byte (length types) # map (\<lambda>t. byte (ns_code t)) types"

definition SendCreatedNamespaceFDs ::
  "IPC \<Rightarrow> (NamespaceType, int) gomap \<Rightarrow> ('z os_scheme, err option) state" where
  "SendCreatedNamespaceFDs ipc fds =
     sys_err (FdC (Sendmsg (snd (Init2Sup ipc)) (nsBytes (map_keys fds)) (map snd fds)))"

text \<open>A byte of the receiver's zeroed buffer of the given size.\<close>

definition bufAt :: "nat \<Rightarrow> string \<Rightarrow> nat \<Rightarrow> nat" where
  "bufAt cap data i = (let d = take cap data in if i < length d then of_char (d ! i) else 0)"

definition pairUp :: "nat list \<Rightarrow> int list \<Rightarrow> (NamespaceType, int) gomap" where
  "pairUp types fds = foldl (\<lambda>m (t, fd). map_put (ns_of_code t) fd m) [] (zip types fds)"

definition decodeCreated :: "string \<Rightarrow> control \<Rightarrow> err + (NamespaceType, int) gomap" where
  "decodeCreated data ctl =
     (if data = [] then Inl (Errorf ''EOF: child process exited before sending FDs'' [])
      else let count = bufAt 256 data 0
      in if count = 0 then Inr []
         else case ctl of
           NoControl \<Rightarrow> Inl (Errorf ''received %d bytes but 0 file descriptors. Child likely crashed.''
             [ArgI (int (length data))])
         | BadControl e \<Rightarrow> Inl e
         | EmptyControl \<Rightarrow> Inl (Errorf ''no unix control messages found in OOB data'' [])
         | BadRights e \<Rightarrow> Inl e
         | Rights fds \<Rightarrow>
             if length fds \<noteq> count
             then Inl (Errorf ''fd count mismatch: expected %d, got %d''
               [ArgI (int count), ArgI (int (length fds))])
             else Inr (pairUp (map (\<lambda>i. bufAt 256 data (1 + i)) [0..<count]) fds))"

definition RecvCreatedNamespaceFDs ::
  "IPC \<Rightarrow> ('z os_scheme, err + (NamespaceType, int) gomap) state" where
  "RecvCreatedNamespaceFDs ipc = do {
     r \<leftarrow> sys_msg (FdC (Recvmsg (fst (Init2Sup ipc)) 256));
     return (case r of Inl e \<Rightarrow> Inl e | Inr (data, ctl) \<Rightarrow> decodeCreated data ctl)
   }"

section \<open>Namespaces handed to a joining container\<close>

text \<open>
  \<open>RecvNamespaceFDs\<close> reads into 32 bytes, so slicing more than 31 types panics, and so does the
  first control message of a message that has none.
\<close>

definition decodeShared :: "string \<Rightarrow> control \<Rightarrow> (NamespaceType, int) gomap outcome" where
  "decodeShared data ctl =
     (let count = bufAt 32 data 0
      in if 1 + count > 32 then Panic ''slice bounds out of range''
         else case (case ctl of Rights fds \<Rightarrow> Ret fds | BadRights _ \<Rightarrow> Ret []
                    | _ \<Rightarrow> Panic ''index out of range'') of
           Ret fds \<Rightarrow>
             (if length fds \<noteq> count then Panic ''fd/type count mismatch''
              else Ret (pairUp (map (\<lambda>i. bufAt 32 data (1 + i)) [0..<count]) fds))
         | Exit n \<Rightarrow> Exit n
         | Panic p \<Rightarrow> Panic p
         | Replaced \<Rightarrow> Replaced)"

definition RecvNamespaceFDs :: "IPC \<Rightarrow> ('z os_scheme, (NamespaceType, int) gomap outcome) state" where
  "RecvNamespaceFDs ipc = do {
     r \<leftarrow> sys_msg (FdC (Recvmsg (fst (Sup2Init ipc)) 32));
     return (case r of Inl e \<Rightarrow> Panic ''recvmsg'' | Inr (data, ctl) \<Rightarrow> decodeShared data ctl)
   }"

text \<open>The part of \<open>SupervisorCtx\<close> these functions use: handles by container and type.\<close>

type_synonym handle_map = "(NamespaceType, NamespaceHandle) gomap"

record hstate = os +
  Handles :: "(string, handle_map) gomap"

text \<open>
  The loop of \<open>SendNamespaceFDs\<close> over the shares: it counts up the reference of each handle it
  passes on, and stops at the first missing one, keeping the counts made before.
\<close>

fun takeShares :: "handle_map \<Rightarrow> ShareSpec list \<Rightarrow> handle_map \<times> (err + (NamespaceType, int) gomap)" where
  "takeShares hs [] = (hs, Inr [])"
| "takeShares hs (s # ss) =
     (case map_get hs (ShareType s) of
        None \<Rightarrow> (hs, Inl (Errorf ''missing namespace handle: %v'' [ArgI (int (ns_code (ShareType s)))]))
      | Some h \<Rightarrow>
          (case takeShares (map_put (ShareType s) (h\<lparr>Ref := Ref h + 1\<rparr>) hs) ss of
             (hs', Inl e) \<Rightarrow> (hs', Inl e)
           | (hs', Inr fds) \<Rightarrow> (hs', Inr ((ShareType s, FD h) # fds))))"

definition SendNamespaceFDs :: "IPC \<Rightarrow> ShareSpec list \<Rightarrow> ('z hstate_scheme, err option) state" where
  "SendNamespaceFDs ipc shares =
     (case shares of [] \<Rightarrow> return None
      | sh # _ \<Rightarrow> do {
          _ \<leftarrow> sys (UiC (Lock ScxMu));
          s \<leftarrow> State_Monad.get;
          case map_get (Handles s) (FromContainer sh) of
            None \<Rightarrow> do {
              _ \<leftarrow> sys (UiC (Unlock ScxMu));
              return (Some (Errorf ''missing namespace handle for container: %s''
                [ArgS (FromContainer sh)]))
            }
          | Some hs \<Rightarrow>
              (case takeShares hs shares of (hs', r) \<Rightarrow> do {
                 _ \<leftarrow> State_Monad.set (s\<lparr>Handles := map_put (FromContainer sh) hs' (Handles s)\<rparr>);
                 _ \<leftarrow> sys (UiC (Unlock ScxMu));
                 case r of
                   Inl e \<Rightarrow> return (Some e)
                 | Inr fds \<Rightarrow>
                     sys_err (FdC (Sendmsg (snd (Sup2Init ipc)) (nsBytes (map_keys fds)) (map snd fds)))
               })
        })"

definition RegisterNamespaceHandles ::
  "string \<Rightarrow> (NamespaceType, int) gomap \<Rightarrow> ('z hstate_scheme, unit) state" where
  "RegisterNamespaceHandles cid fds = do {
     _ \<leftarrow> sys (UiC (Lock ScxMu));
     s \<leftarrow> State_Monad.get;
     let hs = (case map_get (Handles s) cid of None \<Rightarrow> [] | Some hs \<Rightarrow> hs);
     let hs' = foldl (\<lambda>m (ns, fd). map_put ns \<lparr>HandleType = NSUser, FD = fd, Ref = 1\<rparr> m) hs fds;
     _ \<leftarrow> State_Monad.set (s\<lparr>Handles := map_put cid hs' (Handles s)\<rparr>);
     sys (UiC (Unlock ScxMu))
   }"

section \<open>Facts on the encodings\<close>

lemma four_bytes:
  fixes n :: nat
  assumes "n < 2 ^ 32"
  shows "n mod 256 + n div 2 ^ 8 mod 256 * 2 ^ 8 + n div 2 ^ 16 mod 256 * 2 ^ 16 +
      n div 2 ^ 24 mod 256 * 2 ^ 24 = n"
proof -
  define q1 q2 q3 where "q1 = n div 2 ^ 8" and "q2 = n div 2 ^ 16" and "q3 = n div 2 ^ 24"
  have "q2 = q1 div 256" and "q3 = q2 div 256"
    by (simp_all add: q1_def q2_def q3_def div_mult2_eq [symmetric])
  then have "n = n mod 256 + 256 * q1" and "q1 = q1 mod 256 + 256 * q2"
    and "q2 = q2 mod 256 + 256 * q3"
    by (simp_all add: q1_def)
  moreover have "q3 mod 256 = q3" using assms by (simp add: q3_def less_mult_imp_div_less)
  ultimately have "n mod 256 + q1 mod 256 * 256 + q2 mod 256 * 65536 + q3 mod 256 * 16777216 = n"
    by linarith
  then show ?thesis
    unfolding q1_def [symmetric] q2_def [symmetric] q3_def [symmetric] by simp
qed

lemma Uint32_PutUint32: "Uint32 (PutUint32 w) = unat w"
proof -
  have "unat w < 2 ^ LENGTH(32)" by (rule unsigned_less)
  from four_bytes [of "unat w"] this show ?thesis
    by (simp add: Uint32_def PutUint32_def Let_def)
qed

lemma length_PutUint32 [simp]: "length (PutUint32 w) = 4"
  by (simp add: PutUint32_def Let_def)

interpretation pid_codec: codec PutUint32 "\<lambda>b. if length b = 4 then Some (word_of_nat (Uint32 b)) else None"
    "\<lambda>_. True"
  by unfold_locales (simp add: Uint32_PutUint32)

text \<open>Pairing types with descriptors restores a map whose keys are distinct.\<close>

lemma foldl_put_distinct:
  "\<lbrakk> distinct (map fst m @ map fst xs) \<rbrakk> \<Longrightarrow> foldl (\<lambda>m (k, v). map_put k v m) m xs = m @ xs"
proof (induction xs arbitrary: m)
  case Nil
  then show ?case by simp
next
  case (Cons x xs)
  obtain k v where x: "x = (k, v)" by (cases x)
  with Cons.prems have "k \<notin> fst ` set m" by auto
  then have "map_put k v m = m @ [(k, v)]" by (induction m) auto
  with Cons x show ?case by simp
qed

lemma pairUp_codes:
  assumes "length ts = length fds" and "distinct ts"
  shows "pairUp (map ns_code ts) fds = zip ts fds"
proof -
  have "zip (map ns_code ts) fds = map (\<lambda>(t, fd). (ns_code t, fd)) (zip ts fds)"
    by (simp add: zip_map1)
  then have "pairUp (map ns_code ts) fds = foldl (\<lambda>m (t, fd). map_put t fd m) [] (zip ts fds)"
    by (simp add: pairUp_def foldl_map case_prod_unfold)
  also have "\<dots> = zip ts fds"
    using foldl_put_distinct [of "[]" "zip ts fds"] assms by simp
  finally show ?thesis .
qed

text \<open>The types of a message survive the receiver's buffer when their count and codes are bytes.\<close>

definition wireOk :: "nat \<Rightarrow> NamespaceType list \<Rightarrow> bool" where
  "wireOk cap ts \<longleftrightarrow> distinct ts \<and> length ts < cap \<and> length ts < 256 \<and> (\<forall>t \<in> set ts. ns_code t < 256)"

lemma bufAt_nsBytes:
  assumes "wireOk cap ts"
  shows "bufAt cap (nsBytes ts) 0 = length ts"
    and "map (\<lambda>i. bufAt cap (nsBytes ts) (1 + i)) [0..<length ts] = map ns_code ts"
proof -
  have t: "take cap (nsBytes ts) = nsBytes ts"
    using assms by (simp add: wireOk_def nsBytes_def)
  show "bufAt cap (nsBytes ts) 0 = length ts"
    using assms unfolding bufAt_def t by (simp add: nsBytes_def wireOk_def)
  show "map (\<lambda>i. bufAt cap (nsBytes ts) (1 + i)) [0..<length ts] = map ns_code ts"
    using assms unfolding bufAt_def t
    by (intro nth_equalityI) (auto simp: nsBytes_def wireOk_def)
qed

lemma decodeCreated_nsBytes:
  assumes "wireOk 256 ts" and "length fds = length ts"
  shows "decodeCreated (nsBytes ts) (if fds = [] then NoControl else Rights fds) = Inr (zip ts fds)"
proof (cases "ts = []")
  case True
  then show ?thesis
    using bufAt_nsBytes [OF assms(1)] by (simp add: decodeCreated_def nsBytes_def)
next
  case False
  with assms have "fds \<noteq> []" by auto
  moreover have "distinct ts" using assms by (simp add: wireOk_def)
  ultimately show ?thesis
    using bufAt_nsBytes [OF assms(1)] assms False pairUp_codes [of ts fds]
    by (simp add: decodeCreated_def) (simp add: nsBytes_def)
qed

lemma decodeShared_nsBytes:
  assumes "wireOk 32 ts" and "length fds = length ts"
  shows "decodeShared (nsBytes ts) (Rights fds) = Ret (zip ts fds)"
proof -
  have "distinct ts" using assms by (simp add: wireOk_def)
  then show ?thesis
    using bufAt_nsBytes [OF assms(1)] assms pairUp_codes [of ts fds]
    by (simp add: decodeShared_def wireOk_def)
qed

interpretation created_codec: codec
    "\<lambda>m. (nsBytes (map_keys m), if m = [] then NoControl else Rights (map snd m))"
    "\<lambda>(data, ctl). case decodeCreated data ctl of Inl _ \<Rightarrow> None | Inr m \<Rightarrow> Some m"
    "\<lambda>m. wireOk 256 (map_keys m)"
proof unfold_locales
  fix m :: "(NamespaceType, int) gomap" assume "wireOk 256 (map_keys m)"
  then show "(case (nsBytes (map_keys m), if m = [] then NoControl else Rights (map snd m)) of
      (data, ctl) \<Rightarrow> case decodeCreated data ctl of Inl _ \<Rightarrow> None | Inr m \<Rightarrow> Some m) = Some m"
    using decodeCreated_nsBytes [of "map_keys m" "map snd m"] by (auto simp: zip_map_fst_snd)
qed

interpretation shared_codec: codec
    "\<lambda>m. (nsBytes (map_keys m), Rights (map snd m))"
    "\<lambda>(data, ctl). case decodeShared data ctl of Ret m \<Rightarrow> Some m | _ \<Rightarrow> None"
    "\<lambda>m. wireOk 32 (map_keys m)"
  by unfold_locales (use decodeShared_nsBytes in \<open>auto simp: zip_map_fst_snd\<close>)


section \<open>Collecting, registering and sharing\<close>

lemma nsTypeToProcPath_Ret:
  "ns \<in> set all_ns \<Longrightarrow> \<exists>path. run_state (nsTypeToProcPath ns) s = (Ret path, s)"
  by (auto simp: all_ns_def)

definition createsNs :: "ContainerSpec \<Rightarrow> NamespaceType \<Rightarrow> bool" where
  "createsNs spec ns \<longleftrightarrow> specWantsNamespace spec ns \<and> \<not> specJoinsNamespace spec ns"

definition opensAll :: "'z os_scheme \<Rightarrow> bool" where
  "opensAll s \<longleftrightarrow> (\<forall>t path. \<exists>fd. o_int s t (FsC (OpenPath path)) = Inr fd)"

lemma opensAll_emit [simp]: "opensAll (emit c s) = opensAll s"
  by (simp add: opensAll_def)

definition collected ::
  "ContainerSpec \<Rightarrow> NamespaceType list \<Rightarrow> NamespaceType list \<Rightarrow> bool \<Rightarrow> NamespaceType list \<Rightarrow> bool" where
  "collected spec old nss all ks \<longleftrightarrow> sorted ks \<and> distinct ks \<and>
     set ks \<subseteq> set old \<union> {ns \<in> set nss. createsNs spec ns} \<and>
     (all \<longrightarrow> ks = old @ filter (createsNs spec) nss)"

lemma collect_loop_run:
  assumes "set nss \<subseteq> set all_ns" "sorted (map_keys fds @ nss)" "distinct (map_keys fds @ nss)"
  shows "\<exists>m cs. run_state (collect_loop spec nss fds) s = (Ret m, with_calls cs s) \<and>
    collected spec (map_keys fds) nss (opensAll s) (map_keys m)"
  using assms
proof (induction nss arbitrary: fds s)
  case Nil
  then show ?case by (intro exI [of _ fds] exI [of _ "[]"]) (simp add: collected_def)
next
  case (Cons ns nss)
  have step: "set nss \<subseteq> set all_ns" "sorted (map_keys fds @ nss)" "distinct (map_keys fds @ nss)"
    using Cons.prems by (auto simp: sorted_append)
  note IH = Cons.IH [OF step]
  show ?case
  proof (cases "createsNs spec ns")
    case False
    from IH [of s] obtain m cs where
      "run_state (collect_loop spec nss fds) s = (Ret m, with_calls cs s)"
      "collected spec (map_keys fds) nss (opensAll s) (map_keys m)" by blast
    with False show ?thesis
      by (intro exI [of _ m] exI [of _ cs])
        (auto simp: specJoinsNamespace_iff createsNs_def collected_def)
  next
    case True
    then have w: "specWantsNamespace spec ns" and j: "ns \<notin> ShareType ` set (Shares spec)"
      by (simp_all add: createsNs_def specJoinsNamespace_iff)
    obtain path where p: "run_state (nsTypeToProcPath ns) s = (Ret path, s)"
      using nsTypeToProcPath_Ret [of ns s] Cons.prems(1) by auto
    let ?c = "FsC (OpenPath path)"
    show ?thesis
    proof (cases "o_int s (trace s) ?c")
      case (Inl e)
      have "\<not> opensAll s"
        using Inl unfolding opensAll_def by (metis Inl_Inr_False)
      moreover obtain m cs where
        "run_state (collect_loop spec nss fds) (emit ?c s) = (Ret m, with_calls cs (emit ?c s))"
        "collected spec (map_keys fds) nss (opensAll (emit ?c s)) (map_keys m)"
        using IH [of "emit ?c s"] by blast
      ultimately show ?thesis using w j p Inl
        by (intro exI [of _ m] exI [of _ "?c # cs"]) (auto simp: collected_def)
    next
      case (Inr fd)
      have new: "map_put ns fd fds = fds @ [(ns, fd)]"
        using foldl_put_distinct [of fds "[(ns, fd)]"] Cons.prems(3) by auto
      have "sorted (map_keys (fds @ [(ns, fd)]) @ nss)"
        and "distinct (map_keys (fds @ [(ns, fd)]) @ nss)"
        using Cons.prems by simp_all
      from Cons.IH [OF step(1) this, of "emit ?c s"] obtain m cs where
        "run_state (collect_loop spec nss (fds @ [(ns, fd)])) (emit ?c s) =
          (Ret m, with_calls cs (emit ?c s))"
        "collected spec (map_keys (fds @ [(ns, fd)])) nss (opensAll (emit ?c s)) (map_keys m)"
        by blast
      then show ?thesis using True w j p Inr
        by (intro exI [of _ m] exI [of _ "?c # cs"]) (auto simp: collected_def new)
    qed
  qed
qed

text \<open>
  C25: an init sends the supervisor descriptors of namespaces it created and of no other: the
  types collected are without repetition, wanted by the specification and not joined;
  when every open succeeds, all such types are there. (They are also listed in the order of their
  numbers, which is the order they are entered in; the map of the code has none.)
\<close>

theorem CollectCreated_exact:
  "\<exists>m cs. run_state (CollectCreatedNamespaceFDs spec) s = (Ret m, with_calls cs s) \<and>
    sorted (map_keys m) \<and> distinct (map_keys m) \<and>
    set (map_keys m) \<subseteq> {ns. specWantsNamespace spec ns \<and> \<not> specJoinsNamespace spec ns} \<and>
    ((\<forall>t path. \<exists>fd. o_int s t (FsC (OpenPath path)) = Inr fd) \<longrightarrow>
      map_keys m = filter (\<lambda>ns. specWantsNamespace spec ns \<and> \<not> specJoinsNamespace spec ns) all_ns)"
proof -
  have "sorted (map_keys [] @ all_ns)" "distinct (map_keys [] @ all_ns)"
    by (simp_all add: all_ns_def less_eq_NamespaceType_def)
  from collect_loop_run [OF subset_refl this, of spec s] obtain m cs where
    r: "run_state (collect_loop spec all_ns []) s = (Ret m, with_calls cs s)"
    and c: "collected spec [] all_ns (opensAll s) (map_keys m)"
    by auto
  have f: "createsNs spec = (\<lambda>ns. specWantsNamespace spec ns \<and> \<not> specJoinsNamespace spec ns)"
    by (rule ext) (simp add: createsNs_def)
  from r show ?thesis
    unfolding CollectCreatedNamespaceFDs_def
    by (intro exI [of _ m] exI [of _ cs])
      (use c in \<open>auto simp: collected_def opensAll_def f\<close>)
qed

text \<open>
  C24: the message with the created namespaces means the same to both sides. If what
  \<open>SendCreatedNamespaceFDs\<close> puts on the socket is received with its descriptors renumbered by
  \<open>f\<close>, as the kernel does, \<open>RecvCreatedNamespaceFDs\<close> returns the sender's map with each type
  still at its own descriptor.
\<close>

theorem created_fds_roundtrip:
  assumes "calls (SendCreatedNamespaceFDs ipc fds) s0 = [FdC (Sendmsg sock data rights)]"
    and "o_msg s (trace s) (FdC (Recvmsg (fst (Init2Sup ipc')) 256)) =
      Inr (data, if rights = [] then NoControl else Rights (map f rights))"
    and "wireOk 256 (map_keys fds)"
  shows "result (RecvCreatedNamespaceFDs ipc') s = Inr (map (\<lambda>(t, fd). (t, f fd)) fds)"
proof -
  from assms(1) have "data = nsBytes (map_keys fds)" and "rights = map snd fds"
    by (simp_all add: calls_def SendCreatedNamespaceFDs_def)
  moreover have "zip (map_keys fds) (map f (map snd fds)) = map (\<lambda>(t, fd). (t, f fd)) fds"
    by (induction fds) auto
  ultimately have "decodeCreated data (if rights = [] then NoControl else Rights (map f rights)) =
      Inr (map (\<lambda>(t, fd). (t, f fd)) fds)"
    using decodeCreated_nsBytes [OF assms(3), of "map f rights"] by simp
  with assms(2) show ?thesis
    by (simp add: result_def RecvCreatedNamespaceFDs_def)
qed

text \<open>
  The supervisor learns the pid the init sent, modulo 2 to the 32, so exactly for every pid
  Linux can give out.
\<close>

theorem workload_pid_roundtrip:
  assumes "calls (SendWorkloadPID ipc pid) s0 = [FdC (Sendmsg sock data rights)]"
    and "o_msg s (trace s) (FdC (Recvmsg (fst (Init2Sup ipc')) 4)) = Inr (data, ctl)"
  shows "result (RecvWorkloadPID ipc') s = Ret (pid mod 2 ^ 32)"
proof -
  from assms(1) have "data = PutUint32 (word_of_int pid)"
    by (simp add: calls_def SendWorkloadPID_def)
  then show ?thesis
    using assms(2)
    by (simp add: result_def RecvWorkloadPID_def Let_def Uint32_PutUint32 unsigned_of_int take_bit_eq_mod)
qed

text \<open>References are counted up per share; descriptors stay.\<close>

lemma takeShares_ok:
  assumes "\<forall>sh \<in> set shares. map_get hs (ShareType sh) \<noteq> None"
  shows "\<exists>hs'. takeShares hs shares =
      (hs', Inr (map (\<lambda>sh. (ShareType sh, FD (the (map_get hs (ShareType sh))))) shares)) \<and>
    (\<forall>t. map_get hs' t = map_option
       (\<lambda>h. h\<lparr>Ref := Ref h + int (count_list (map ShareType shares) t)\<rparr>) (map_get hs t))"
  using assms
proof (induction shares arbitrary: hs)
  case Nil
  then show ?case by (auto simp: option.map_ident)
next
  case (Cons sh shares)
  let ?t = "ShareType sh"
  from Cons.prems obtain h where h: "map_get hs ?t = Some h" by auto
  let ?hs = "map_put ?t (h\<lparr>Ref := Ref h + 1\<rparr>) hs"
  from Cons.prems have "\<forall>sh \<in> set shares. map_get ?hs (ShareType sh) \<noteq> None" by simp
  from Cons.IH [OF this] obtain hs' where
    t: "takeShares ?hs shares =
      (hs', Inr (map (\<lambda>sh. (ShareType sh, FD (the (map_get ?hs (ShareType sh))))) shares))"
    and r: "\<And>t. map_get hs' t = map_option
       (\<lambda>h. h\<lparr>Ref := Ref h + int (count_list (map ShareType shares) t)\<rparr>) (map_get ?hs t)"
    by blast
  have "(\<lambda>sh. (ShareType sh, FD (the (map_get ?hs (ShareType sh))))) =
      (\<lambda>sh. (ShareType sh, FD (the (map_get hs (ShareType sh)))))"
    using h by auto
  with t h r show ?case by auto
qed

text \<open>What the supervisor passes on for each share: the root's descriptor of its type.\<close>

definition passed :: "handle_map \<Rightarrow> ShareSpec list \<Rightarrow> (NamespaceType \<times> int) list" where
  "passed hs shares = map (\<lambda>sh. (ShareType sh, FD (the (map_get hs (ShareType sh))))) shares"

lemma SendNamespaceFDs_sends:
  assumes "shares \<noteq> []"
    and "map_get (Handles s) (FromContainer (hd shares)) = Some hs"
    and "\<forall>sh \<in> set shares. map_get hs (ShareType sh) \<noteq> None"
  shows "\<exists>hs'.
    calls (SendNamespaceFDs ipc shares) s =
      [UiC (Lock ScxMu), UiC (Unlock ScxMu),
       FdC (Sendmsg (snd (Sup2Init ipc)) (nsBytes (map ShareType shares)) (map snd (passed hs shares)))] \<and>
    Handles (snd (run_state (SendNamespaceFDs ipc shares) s)) =
      map_put (FromContainer (hd shares)) hs' (Handles s) \<and>
    (\<forall>t. map_get hs' t = map_option
       (\<lambda>h. h\<lparr>Ref := Ref h + int (count_list (map ShareType shares) t)\<rparr>) (map_get hs t))"
proof -
  from takeShares_ok [OF assms(3)] obtain hs' where
    t: "takeShares hs shares = (hs', Inr (passed hs shares))"
    and r: "\<forall>t. map_get hs' t = map_option
       (\<lambda>h. h\<lparr>Ref := Ref h + int (count_list (map ShareType shares) t)\<rparr>) (map_get hs t)"
    unfolding passed_def by blast
  obtain sh rest where sh: "shares = sh # rest" using assms(1) by (cases shares) auto
  have k: "map_keys (passed hs shares) = map ShareType shares" by (simp add: passed_def)
  have "calls (SendNamespaceFDs ipc shares) s =
      [UiC (Lock ScxMu), UiC (Unlock ScxMu),
       FdC (Sendmsg (snd (Sup2Init ipc)) (nsBytes (map ShareType shares)) (map snd (passed hs shares)))] \<and>
    Handles (snd (run_state (SendNamespaceFDs ipc shares) s)) = map_put (FromContainer (hd shares)) hs' (Handles s)"
    using assms(2) t unfolding k [symmetric] by (simp add: SendNamespaceFDs_def calls_def emit_def sh)
  with r show ?thesis by blast
qed

lemma RecvNamespaceFDs_receives:
  assumes "wireOk 32 (map ShareType shares)"
    and "o_msg r (trace r) (FdC (Recvmsg (fst (Sup2Init ipc)) 32)) =
      Inr (nsBytes (map ShareType shares), Rights (map f (map snd (passed hs shares))))"
  shows "run_state (RecvNamespaceFDs ipc) r =
    (Ret (map (\<lambda>(ns, fd). (ns, f fd)) (passed hs shares)), emit (FdC (Recvmsg (fst (Sup2Init ipc)) 32)) r)"
proof -
  have "zip (map ShareType shares) (map f (map snd (passed hs shares))) = map (\<lambda>(ns, fd). (ns, f fd)) (passed hs shares)"
    unfolding passed_def by (induction shares) auto
  moreover have "decodeShared (nsBytes (map ShareType shares)) (Rights (map f (map snd (passed hs shares)))) =
      Ret (zip (map ShareType shares) (map f (map snd (passed hs shares))))"
    using assms(1) by (intro decodeShared_nsBytes) (simp_all add: passed_def)
  ultimately show ?thesis using assms(2) by (simp add: RecvNamespaceFDs_def)
qed

text \<open>
  C23: joining is faithful from the handle table to the joiner. When the root container has a
  handle for every requested type, \<open>SendNamespaceFDs\<close> locks and unlocks the supervisor's mutex
  around the table, sends one message, and counts each requested type up once per share, all
  else unchanged; and a joiner that receives the message with its descriptors renumbered by \<open>f\<close>
  gets, in the order of the shares, the root's descriptor of each type.
\<close>

theorem shared_fds_roundtrip:
  assumes "shares \<noteq> []"
    and "map_get (Handles s) (FromContainer (hd shares)) = Some hs"
    and "\<forall>sh \<in> set shares. map_get hs (ShareType sh) \<noteq> None"
    and "wireOk 32 (map ShareType shares)"
  shows "\<exists>data rights hs'.
    calls (SendNamespaceFDs ipc shares) s =
      [UiC (Lock ScxMu), UiC (Unlock ScxMu), FdC (Sendmsg (snd (Sup2Init ipc)) data rights)] \<and>
    Handles (snd (run_state (SendNamespaceFDs ipc shares) s)) =
      map_put (FromContainer (hd shares)) hs' (Handles s) \<and>
    (\<forall>t. map_get hs' t = map_option
       (\<lambda>h. h\<lparr>Ref := Ref h + int (count_list (map ShareType shares) t)\<rparr>) (map_get hs t)) \<and>
    (\<forall>(r :: os) f. o_msg r (trace r) (FdC (Recvmsg (fst (Sup2Init ipc')) 32)) =
        Inr (data, Rights (map f rights)) \<longrightarrow>
      result (RecvNamespaceFDs ipc') r =
        Ret (map (\<lambda>sh. (ShareType sh, f (FD (the (map_get hs (ShareType sh)))))) shares))"
proof -
  obtain hs' where "calls (SendNamespaceFDs ipc shares) s =
      [UiC (Lock ScxMu), UiC (Unlock ScxMu),
       FdC (Sendmsg (snd (Sup2Init ipc)) (nsBytes (map ShareType shares)) (map snd (passed hs shares)))] \<and>
    Handles (snd (run_state (SendNamespaceFDs ipc shares) s)) =
      map_put (FromContainer (hd shares)) hs' (Handles s) \<and>
    (\<forall>t. map_get hs' t = map_option
       (\<lambda>h. h\<lparr>Ref := Ref h + int (count_list (map ShareType shares) t)\<rparr>) (map_get hs t))"
    using SendNamespaceFDs_sends [OF assms(1-3), of ipc] by blast
  moreover have "result (RecvNamespaceFDs ipc') r =
        Ret (map (\<lambda>sh. (ShareType sh, f (FD (the (map_get hs (ShareType sh)))))) shares)"
    if "o_msg r (trace r) (FdC (Recvmsg (fst (Sup2Init ipc')) 32)) =
        Inr (nsBytes (map ShareType shares), Rights (map f (map snd (passed hs shares))))" for r :: os and f
    using RecvNamespaceFDs_receives [OF assms(4) that] by (simp add: result_def passed_def comp_def)
  ultimately show ?thesis by blast
qed

text \<open>A missing handle stops the message; the counts made before stay.\<close>

lemma takeShares_missing:
  "\<exists>sh \<in> set shares. map_get hs (ShareType sh) = None \<Longrightarrow> \<exists>e. snd (takeShares hs shares) = Inl e"
proof (induction shares arbitrary: hs)
  case (Cons sh shares)
  show ?case
  proof (cases "map_get hs (ShareType sh)")
    case (Some h)
    let ?hs = "map_put (ShareType sh) (h\<lparr>Ref := Ref h + 1\<rparr>) hs"
    from Cons.prems Some have "\<exists>sh \<in> set shares. map_get hs (ShareType sh) = None" by auto
    with Some have "\<exists>sh \<in> set shares. map_get ?hs (ShareType sh) = None" by (metis map_get_put fun_upd_apply option.discI)
    from Cons.IH [OF this] obtain e where "snd (takeShares ?hs shares) = Inl e" ..
    with Some show ?thesis by (cases "takeShares ?hs shares") simp
  qed simp
qed simp

text \<open>Registering makes a fresh handle per descriptor, with one reference.\<close>

lemma foldl_handles:
  "map_get (foldl (\<lambda>m (ns, fd). map_put ns \<lparr>HandleType = NSUser, FD = fd, Ref = 1\<rparr> m) hs fds) t =
    (case map_get (rev fds) t of
       None \<Rightarrow> map_get hs t | Some fd \<Rightarrow> Some \<lparr>HandleType = NSUser, FD = fd, Ref = 1\<rparr>)"
  by (induction fds rule: rev_induct) (auto simp: case_prod_unfold)

lemma RegisterNamespaceHandles_run:
  "\<exists>hs. run_state (RegisterNamespaceHandles cid fds) s =
      ((), with_calls [UiC (Lock ScxMu), UiC (Unlock ScxMu)] (s\<lparr>Handles := map_put cid hs (Handles s)\<rparr>)) \<and>
    (\<forall>t. map_get hs t = (case map_get (rev fds) t of
       None \<Rightarrow> Option.bind (map_get (Handles s) cid) (\<lambda>m. map_get m t)
     | Some fd \<Rightarrow> Some \<lparr>HandleType = NSUser, FD = fd, Ref = 1\<rparr>))"
proof -
  define old where "old = (case map_get (Handles s) cid of None \<Rightarrow> [] | Some hs \<Rightarrow> hs)"
  let ?hs = "foldl (\<lambda>m (ns, fd). map_put ns \<lparr>HandleType = NSUser, FD = fd, Ref = 1\<rparr> m) old fds"
  have "run_state (RegisterNamespaceHandles cid fds) s =
      ((), with_calls [UiC (Lock ScxMu), UiC (Unlock ScxMu)] (s\<lparr>Handles := map_put cid ?hs (Handles s)\<rparr>))"
    by (simp add: RegisterNamespaceHandles_def with_calls_def emit_def Let_def old_def)
  moreover have "map_get old t = Option.bind (map_get (Handles s) cid) (\<lambda>m. map_get m t)" for t
    by (simp add: old_def split: option.split)
  ultimately show ?thesis by (intro exI [of _ ?hs]) (simp add: foldl_handles cong: option.case_cong)
qed

section \<open>Examples\<close>

definition ex_ipc :: IPC where
  "ex_ipc = \<lparr>UserNSPipe = (10, 11), UserNSReady = (12, 13), NetReady = (14, 15),
     Init2Sup = (16, 17), PtyMaster = 18, PtySlave = 19, Sup2Init = (20, 21), Log2Sup = (22, 23),
     KeepAlive = (24, 25)\<rparr>"

theorem CollectCreated_exact_witness:
  "\<exists>m cs. run_state (CollectCreatedNamespaceFDs DefaultSpec) quiet_os = (Ret m, with_calls cs quiet_os) \<and>
    map_keys m = [NSUser, NSNet, NSMnt, NSPID]"
proof -
  have "\<forall>t path. \<exists>fd. o_int quiet_os t (FsC (OpenPath path)) = Inr fd"
    by (simp add: quiet_os_def)
  moreover have "filter (\<lambda>ns. specWantsNamespace DefaultSpec ns \<and> \<not> specJoinsNamespace DefaultSpec ns)
      all_ns = [NSUser, NSNet, NSMnt, NSPID]"
    by (simp add: all_ns_def DefaultSpec_def specJoinsNamespace_iff)
  ultimately show ?thesis
    using CollectCreated_exact [of DefaultSpec quiet_os] by auto
qed

theorem created_fds_roundtrip_witness:
  "result (RecvCreatedNamespaceFDs ex_ipc)
     (quiet_os\<lparr>o_msg := \<lambda>_ _. Inr (nsBytes [NSUser, NSNet], Rights [103, 104])\<rparr>) =
   Inr [(NSUser, 103), (NSNet, 104)]"
  using created_fds_roundtrip [where ipc = ex_ipc and ipc' = ex_ipc and fds = "[(NSUser, 3), (NSNet, 4)]"
      and ?s0.0 = quiet_os and data = "nsBytes [NSUser, NSNet]" and rights = "[3, 4]"
      and s = "quiet_os\<lparr>o_msg := \<lambda>_ _. Inr (nsBytes [NSUser, NSNet], Rights [103, 104])\<rparr>"
      and sock = 17 and f = "\<lambda>fd. fd + 100"]
  by (simp add: calls_def SendCreatedNamespaceFDs_def ex_ipc_def wireOk_def)

theorem workload_pid_roundtrip_witness:
  "result (RecvWorkloadPID ex_ipc)
     (quiet_os\<lparr>o_msg := \<lambda>_ _. Inr (PutUint32 4711, NoControl)\<rparr>) = Ret 4711"
  using workload_pid_roundtrip [where ipc = ex_ipc and ipc' = ex_ipc and pid = 4711
      and ?s0.0 = quiet_os and data = "PutUint32 4711" and rights = "[]" and sock = 17
      and s = "quiet_os\<lparr>o_msg := \<lambda>_ _. Inr (PutUint32 4711, NoControl)\<rparr>" and ctl = NoControl]
  by (simp add: calls_def SendWorkloadPID_def ex_ipc_def)

definition ex_handles :: "(string, handle_map) gomap" where
  "ex_handles = [(''bctor-a1'', [(NSUser, \<lparr>HandleType = NSUser, FD = 31, Ref = 1\<rparr>),
     (NSNet, \<lparr>HandleType = NSUser, FD = 32, Ref = 1\<rparr>)])]"

theorem shared_fds_roundtrip_witness:
  "\<exists>data rights. calls (SendNamespaceFDs ex_ipc [\<lparr>ShareType = NSNet, FromContainer = ''bctor-a1''\<rparr>])
      (os.extend quiet_os \<lparr>Handles = ex_handles\<rparr>) =
     [UiC (Lock ScxMu), UiC (Unlock ScxMu), FdC (Sendmsg 21 data rights)]"
proof -
  let ?sh = "[\<lparr>ShareType = NSNet, FromContainer = ''bctor-a1''\<rparr>]"
  let ?s = "os.extend quiet_os \<lparr>Handles = ex_handles\<rparr>"
  have "map_get (Handles ?s) (FromContainer (hd ?sh)) =
      Some [(NSUser, \<lparr>HandleType = NSUser, FD = 31, Ref = 1\<rparr>), (NSNet, \<lparr>HandleType = NSUser, FD = 32, Ref = 1\<rparr>)]"
    by (simp add: ex_handles_def os.defs)
  from shared_fds_roundtrip [OF _ this, of ex_ipc ex_ipc] show ?thesis
    by (fastforce simp: wireOk_def ex_ipc_def)
qed

end
