(* ===== verification/GoPath.thy ===== *)
theory GoPath
  imports GoStrings
begin

text \<open>
  \<open>filepath.Clean\<close> and \<open>filepath.Join\<close> of Go's library on Unix: the shortest path with the same
  meaning, by lexical rules only.
\<close>

text \<open>One component of a path; the stack holds those kept, last first.\<close>

fun clean_comp :: "bool \<Rightarrow> string list \<Rightarrow> string \<Rightarrow> string list" where
  "clean_comp rooted out c =
     (if c = [] \<or> c = ''.'' then out
      else if c = ''..'' then
        (case out of
           [] \<Rightarrow> if rooted then [] else [''..'']
         | t # rest \<Rightarrow> if t = ''..'' then ''..'' # out else rest)
      else c # out)"

definition Clean :: "string \<Rightarrow> string" where
  "Clean p =
     (let rooted = HasPrefix p ''/'';
          out = rev (foldl (clean_comp rooted) [] (Split p CHR ''/''));
          body = Join out ''/''
      in if rooted then CHR ''/'' # body else if out = [] then ''.'' else body)"

definition PathJoin :: "string list \<Rightarrow> string" where
  "PathJoin elems =
     (case filter (\<lambda>e. e \<noteq> []) elems of [] \<Rightarrow> [] | es \<Rightarrow> Clean (Join es ''/''))"

lemma PathJoin_examples:
  "PathJoin [''/dev/shm/bctor-root/'', ''bin''] = ''/dev/shm/bctor-root/bin''"
  "PathJoin [''/a'', ''../b/./c//d''] = ''/b/c/d''"
  by code_simp+

text \<open>A plain name: not empty, no slash, neither of the two dot names.\<close>

definition plain_name :: "string \<Rightarrow> bool" where
  "plain_name n \<longleftrightarrow> n \<noteq> [] \<and> n \<noteq> ''.'' \<and> n \<noteq> ''..'' \<and> CHR ''/'' \<notin> set n"

lemma Split_Join_slash:
  "es \<noteq> [] \<Longrightarrow> Split (Join es ''/'') CHR ''/'' = concat (map (\<lambda>e. Split e CHR ''/'') es)"
  by (induction es "''/''" rule: Join.induct) (auto simp: Split_append_sep)

lemma foldl_clean_plain:
  "(\<And>n. n \<in> set ns \<Longrightarrow> plain_name n) \<Longrightarrow> foldl (clean_comp rooted) out ns = rev ns @ out"
  by (induction ns arbitrary: out) (auto simp: plain_name_def)

lemma Join_append1: "xs \<noteq> [] \<Longrightarrow> Join (xs @ [y]) sep = Join xs sep @ sep @ y"
  by (induction xs sep rule: Join.induct) auto

text \<open>
  Joining a plain name to an absolute path adds it below the cleaned path: the result never
  leaves it.
\<close>

lemma PathJoin_below:
  assumes "HasPrefix p ''/''" and "plain_name n"
  shows "PathJoin [p, n] = (if Clean p = ''/'' then ''/'' @ n else Clean p @ ''/'' @ n)"
proof -
  have p: "p \<noteq> []" using assms(1) by auto
  have n: "n \<noteq> []" "Split n CHR ''/'' = [n]"
    using assms(2) by (auto simp: plain_name_def Split_no_sep)
  let ?out = "foldl (clean_comp True) [] (Split p CHR ''/'')"
  have rooted: "HasPrefix (p @ r) ''/''" for r using assms(1) p by (cases p) auto
  have "Split (Join [p, n] ''/'') CHR ''/'' = Split p CHR ''/'' @ [n]"
    using Split_Join_slash [of "[p, n]"] n by simp
  then have "PathJoin [p, n] = CHR ''/'' # Join (rev ?out @ [n]) ''/''"
    using p n rooted assms(2) by (simp add: PathJoin_def Clean_def Let_def plain_name_def)
  moreover have "Clean p = CHR ''/'' # Join (rev ?out) ''/''"
    using assms(1) by (simp add: Clean_def Let_def)
  moreover have "Join (rev ?out) ''/'' = [] \<longleftrightarrow> ?out = []"
  proof -
    have "[] \<notin> set out \<Longrightarrow> [] \<notin> set (clean_comp True out c)" for out c
      by (auto split: list.splits)
    then have "[] \<notin> set (foldl (clean_comp True) out cs)" if "[] \<notin> set out" for out cs
      using that by (induction cs arbitrary: out) auto
    then have "[] \<notin> set (rev ?out)" by simp
    moreover have "Join xs ''/'' = [] \<longleftrightarrow> xs = []" if "[] \<notin> set xs" for xs
      using that by (induction xs "''/''" rule: Join.induct) auto
    ultimately show ?thesis by simp
  qed
  ultimately show ?thesis by (cases "?out = []") (simp_all add: Join_append1)
qed

end
