(* ===== verification/Filesystem.thy ===== *)
theory Filesystem
  imports Types GoPath GoStrconv
begin

text \<open>
  \<open>lib/fs.go\<close>: the id maps of a user namespace, the preparation of a container's root directory,
  the pivot into it, the virtual file systems, and the hiding of files under \<open>/proc\<close>.
\<close>

section \<open>Id maps\<close>

definition denySetgroups :: "string \<Rightarrow> ('z os_scheme, err option) state" where
  "denySetgroups pidStr = sys_err (FsC (WriteFile (''/proc/'' @ pidStr @ ''/setgroups'') ''deny''))"

text \<open>\<open>os.Getuid\<close> does not fail; an error of the oracle reads as -1.\<close>

definition idOf :: "err + int \<Rightarrow> int" where
  "idOf r = (case r of Inl _ \<Rightarrow> -1 | Inr n \<Rightarrow> n)"

definition writeUIDMap :: "string \<Rightarrow> ('z os_scheme, err option) state" where
  "writeUIDMap pidStr = do {
     uid \<leftarrow> sys_int (PrC Getuid);
     let data = ''0 '' @ Itoa (idOf uid) @ '' 1'' @ [CHR 0x0A];
     sys_err (FsC (WriteFile (''/proc/'' @ pidStr @ ''/uid_map'') data))
   }"

definition writeGIDMap :: "string \<Rightarrow> ('z os_scheme, err option) state" where
  "writeGIDMap pidStr = do {
     gid \<leftarrow> sys_int (PrC Getgid);
     let data = ''0 '' @ Itoa (idOf gid) @ '' 1'' @ [CHR 0x0A];
     sys_err (FsC (WriteFile (''/proc/'' @ pidStr @ ''/gid_map'') data))
   }"

section \<open>Hiding paths\<close>

definition hideFile :: "string \<Rightarrow> ('z os_scheme, err option) state" where
  "hideFile path = sys_err (FsC (Mount ''/dev/null'' path '''' [MS_BIND] ''''))"

definition hideDir :: "string \<Rightarrow> ('z os_scheme, err option) state" where
  "hideDir path =
     sys_err (FsC (Mount ''tmpfs'' path ''tmpfs'' [MS_NOSUID, MS_NODEV, MS_NOEXEC] ''size=0''))"

definition hidePath :: "string \<Rightarrow> ('z os_scheme, err option) state" where
  "hidePath p = do {
     st \<leftarrow> sys_dir (FsC (Stat p));
     case st of
       Inl _ \<Rightarrow> return None
     | Inr isDir \<Rightarrow>
         (if isDir then do {
            e \<leftarrow> hideDir p;
            case e of None \<Rightarrow> return None
            | Some e \<Rightarrow> do { er \<leftarrow> LogError ''hide dir %s: %v'' [ArgS p, ArgE e]; return (Some er) }
          }
          else do {
            e \<leftarrow> hideFile p;
            case e of None \<Rightarrow> return None
            | Some e \<Rightarrow> do { er \<leftarrow> LogError ''hide file %s: %v'' [ArgS p, ArgE e]; return (Some er) }
          })
   }"

definition HideProcPaths :: "string list \<Rightarrow> ('z os_scheme, err option) state" where
  "HideProcPaths paths = for_each_err paths hidePath"

definition callHideProc :: "('z os_scheme, unit) state" where
  "callHideProc = do {
     _ \<leftarrow> HideProcPaths [''/proc/kcore'', ''/proc/keys'', ''/proc/key-users'', ''/proc/sysrq-trigger'',
       ''/proc/latency_stats'', ''/proc/timer_list'', ''/proc/sched_debug'', ''/proc/interrupts'',
       ''/proc/slabinfo'', ''/proc/meminfo'', ''/proc/iomem'', ''/proc/kallsyms'', ''/proc/modules''];
     return ()
   }"

section \<open>The mount context\<close>

text \<open>
  A report for debugging, which the program does not call: ids, namespaces, id maps, capabilities
  and the mounts of the root.
\<close>

definition println :: "string \<Rightarrow> ('z os_scheme, unit) state" where
  "println l = sys (UiC (Print (l @ [CHR 0x0A])))"

definition showId :: "string \<Rightarrow> prcall \<Rightarrow> ('z os_scheme, unit) state" where
  "showId label c = do { n \<leftarrow> sys_int (PrC c); println (label @ '' '' @ Itoa (idOf n)) }"

text \<open>What a link or a file holds, if it can be read.\<close>

definition showRead :: "string \<Rightarrow> fscall \<Rightarrow> ('z os_scheme, unit) state" where
  "showRead label c = do {
     d \<leftarrow> sys_str (FsC c);
     case d of Inl _ \<Rightarrow> return () | Inr data \<Rightarrow> println (label @ '' '' @ data)
   }"

text \<open>The lines of a file that pass a test, each behind a label.\<close>

definition showLines :: "string \<Rightarrow> (string \<Rightarrow> bool) \<Rightarrow> string \<Rightarrow> ('z os_scheme, unit) state" where
  "showLines path p label = do {
     d \<leftarrow> sys_str (FsC (ReadFile path));
     case d of Inl _ \<Rightarrow> return ()
     | Inr data \<Rightarrow> for_each (Split data (CHR 0x0A)) (\<lambda>l. if p l then println (label @ l) else return ())
   }"

definition DebugMountContext :: "('z os_scheme, unit) state" where
  "DebugMountContext = do {
     _ \<leftarrow> println ''========== MOUNT DEBUG =========='';
     _ \<leftarrow> showId ''UID:'' Getuid;
     _ \<leftarrow> showId ''EUID:'' Geteuid;
     _ \<leftarrow> showId ''GID:'' Getgid;
     _ \<leftarrow> showId ''EGID:'' Getegid;
     _ \<leftarrow> showRead ''Mount NS:'' (Readlink ''/proc/self/ns/mnt'');
     _ \<leftarrow> showRead ''User NS:'' (Readlink ''/proc/self/ns/user'');
     _ \<leftarrow> showRead ''PID NS:'' (Readlink ''/proc/self/ns/pid'');
     _ \<leftarrow> showRead (''uid_map:'' @ [CHR 0x0A]) (ReadFile ''/proc/self/uid_map'');
     _ \<leftarrow> showRead (''gid_map:'' @ [CHR 0x0A]) (ReadFile ''/proc/self/gid_map'');
     _ \<leftarrow> showRead (''setgroups:'' @ [CHR 0x0A]) (ReadFile ''/proc/self/setgroups'');
     _ \<leftarrow> showLines ''/proc/self/status''
       (\<lambda>l. HasPrefix l ''CapEff'' \<or> HasPrefix l ''CapPrm'' \<or> HasPrefix l ''CapBnd'') [];
     mode \<leftarrow> sys_int (FsC (Stat ''/proc''));
     _ \<leftarrow> (case mode of
         Inl e \<Rightarrow> sys (UiC (Printf (''/proc stat error: %v'' @ [CHR 0x0A]) [ArgE e]))
       | Inr m \<Rightarrow> sys (UiC (Printf (''/proc exists, mode: %v'' @ [CHR 0x0A]) [ArgI m])));
     _ \<leftarrow> showLines ''/proc/self/mountinfo'' (\<lambda>l. Contains l '' / '') ''Root mountinfo: '';
     println ''=================================''
   }"

section \<open>The root directory\<close>

text \<open>A logged error as a result, the way most functions of the file end early.\<close>

definition fail_with :: "string \<Rightarrow> err \<Rightarrow> ('z os_scheme, err option) state" where
  "fail_with fmt e = do { er \<leftarrow> LogError fmt [ArgE e]; return (Some er) }"

definition installBusybox :: "string \<Rightarrow> ('z os_scheme, unit) state" where
  "installBusybox binDir = do {
     let busyboxDest = PathJoin [binDir, ''busybox''];
     st \<leftarrow> sys_dir (FsC (Stat busyboxDest));
     _ \<leftarrow> (if st = Inl (Errno ENOENT) then do {
         input \<leftarrow> sys_str (FsC (ReadFile ''/bin/busybox''));
         _ \<leftarrow> sys (FsC (WriteFile busyboxDest (case input of Inl _ \<Rightarrow> [] | Inr d \<Rightarrow> d)));
         f \<leftarrow> sys_int (FsC (OpenFile busyboxDest));
         case f of Inl _ \<Rightarrow> return ()
         | Inr _ \<Rightarrow> do { _ \<leftarrow> sys (FsC (FileSync busyboxDest)); sys (FsC (FileClose busyboxDest)) }
       } else return ());
     for_each [''sh'', ''ls'', ''nc'', ''ip'', ''ping''] (\<lambda>cmd. do {
       let target = PathJoin [binDir, cmd];
       _ \<leftarrow> sys (FsC (Remove target));
       sys (FsC (Symlink ''busybox'' target))
     })
   }"

definition bindDevice :: "string \<Rightarrow> string \<Rightarrow> ('z os_scheme, err option) state" where
  "bindDevice devPath d = do {
     let target = PathJoin [devPath, d];
     f \<leftarrow> sys_int (FsC (OpenCreate target));
     case f of Inl e \<Rightarrow> return (Some e)
     | Inr _ \<Rightarrow> do {
         _ \<leftarrow> sys (FsC (FileClose target));
         e \<leftarrow> sys_err (FsC (Mount (''/dev/'' @ d) target '''' [MS_BIND] ''''));
         case e of None \<Rightarrow> return None
         | Some e \<Rightarrow> do {
             er \<leftarrow> LogError ''Workload: bind /dev/%s: %v'' [ArgS d, ArgE e];
             return (Some er)
           }
       }
   }"

definition PrepareRoot :: "FSConfig \<Rightarrow> ('z os_scheme, err option) state" where
  "PrepareRoot cfg = do {
     _ \<leftarrow> sys (FsC (Mount '''' ''/'' '''' [MS_REC, MS_SLAVE] ''''));
     e \<leftarrow> sys_err (FsC (Mount '''' ''/'' '''' [MS_REC, MS_PRIVATE] ''''));
     case e of Some e \<Rightarrow> fail_with ''Workload: make / private: %v'' e | None \<Rightarrow> do {
     e \<leftarrow> sys_err (FsC (MkdirAll (Rootfs cfg)));
     case e of Some e \<Rightarrow> fail_with ''Workload: Failed to create rootfs dir: %v'' e | None \<Rightarrow> do {
     st \<leftarrow> sys_dir (FsC (Stat (Rootfs cfg)));
     case st of Inl e \<Rightarrow> fail_with ''Workload: rootfs stat: %v'' e | Inr _ \<Rightarrow> do {
     e \<leftarrow> sys_err (FsC (Mount (Rootfs cfg) (Rootfs cfg) '''' [MS_BIND, MS_REC] ''''));
     case e of Some e \<Rightarrow> fail_with ''Workload: bind rootfs: %v'' e | None \<Rightarrow> do {
     e \<leftarrow> sys_err (FsC (Mount '''' (Rootfs cfg) '''' [MS_REC, MS_PRIVATE] ''''));
     case e of Some e \<Rightarrow> fail_with ''Workload: make rootfs private: %v'' e | None \<Rightarrow> do {
     let binDir = PathJoin [Rootfs cfg, ''bin''];
     _ \<leftarrow> sys (FsC (MkdirAll binDir));
     _ \<leftarrow> installBusybox binDir;
     let devPath = PathJoin [Rootfs cfg, ''dev''];
     e \<leftarrow> sys_err (FsC (MkdirAll devPath));
     case e of Some e \<Rightarrow> return (Some e) | None \<Rightarrow> do {
     e \<leftarrow> for_each_err [''null'', ''zero'', ''urandom''] (bindDevice devPath);
     case e of Some e \<Rightarrow> return (Some e) | None \<Rightarrow> do {
     e \<leftarrow> sys_err (FsC (MkdirAll (PathJoin [Rootfs cfg, ''.pivot_old''])));
     case e of Some e \<Rightarrow> fail_with ''Workload: Failed to mkdir oldroot: %v'' e
     | None \<Rightarrow> return None
     }}}}}}}
   }"

definition PivotRoot :: "string \<Rightarrow> ('z os_scheme, err option) state" where
  "PivotRoot newRoot = do {
     let putOld = PathJoin [newRoot, ''.pivot_old''];
     e \<leftarrow> sys_err (FsC (Chdir newRoot));
     case e of Some e \<Rightarrow> fail_with ''Workload: chdir new root: %v'' e | None \<Rightarrow> do {
     e \<leftarrow> sys_err (FsC (PivotRootTo newRoot putOld));
     case e of Some e \<Rightarrow> fail_with ''Workload: pivot_root: %v'' e | None \<Rightarrow> do {
     e \<leftarrow> sys_err (FsC (Chdir ''/''));
     case e of Some e \<Rightarrow> fail_with ''Workload: chdir /: %v'' e | None \<Rightarrow> do {
     e \<leftarrow> sys_err (FsC (UnmountDetach ''/.pivot_old''));
     case e of Some e \<Rightarrow> fail_with ''Workload: umount old root: %v'' e | None \<Rightarrow> do {
     e \<leftarrow> sys_err (FsC (RemoveAll ''/.pivot_old''));
     case e of Some e \<Rightarrow> fail_with ''Workload: remove old root: %v'' e | None \<Rightarrow> return None
     }}}}
   }"

definition mountWritable :: "string \<Rightarrow> ('z os_scheme, err option) state" where
  "mountWritable dir = do {
     e \<leftarrow> sys_err (FsC (MkdirAll dir));
     case e of Some e \<Rightarrow> do {
         er \<leftarrow> LogError ''Workload: mkdir %s failed: %v'' [ArgS dir, ArgE e];
         return (Some er)
       }
     | None \<Rightarrow> do {
         e \<leftarrow> sys_err (FsC (Mount ''tmpfs'' dir ''tmpfs'' [MS_NOSUID, MS_NODEV] ''size=64M''));
         case e of None \<Rightarrow> return None
         | Some e \<Rightarrow> do {
             er \<leftarrow> LogError ''Workload: mount tmpfs on %s failed: %v'' [ArgS dir, ArgE e];
             return (Some er)
           }
       }
   }"

definition MountVirtualFS :: "FSConfig \<Rightarrow> ('z os_scheme, err option) state" where
  "MountVirtualFS cfg = do {
     _ \<leftarrow> (if Proc cfg then do {
         e \<leftarrow> sys_err (FsC (Mount ''proc'' ''/proc'' ''proc''
           [MS_REMOUNT, MS_NOSUID, MS_NOEXEC, MS_NODEV] ''''));
         if e \<noteq> None then do {
           _ \<leftarrow> sys (FsC (UnmountDetach ''/proc''));
           sys (FsC (Mount ''proc'' ''/proc'' ''proc'' [] ''''))
         } else return ()
       } else return ());
     e \<leftarrow> (if Sys cfg then do {
         e \<leftarrow> sys_err (FsC (Mount ''sysfs'' ''/sys'' ''sysfs''
           [MS_RDONLY, MS_NOSUID, MS_NOEXEC, MS_NODEV] ''''));
         case e of None \<Rightarrow> return None
         | Some e \<Rightarrow> if e \<noteq> Errno EPERM then fail_with ''Workload: sysfs mount failed: %v'' e else return None
       } else return None);
     case e of Some e \<Rightarrow> return (Some e) | None \<Rightarrow> do {
     e \<leftarrow> (if UseTmpfs cfg then for_each_err [''/tmp'', ''/run'', ''/var''] mountWritable else return None);
     case e of Some e \<Rightarrow> return (Some e) | None \<Rightarrow>
     (if ReadOnly cfg then do {
        e \<leftarrow> sys_err (FsC (Mount '''' ''/'' '''' [MS_BIND, MS_REMOUNT, MS_RDONLY, MS_REC] ''''));
        case e of None \<Rightarrow> return None
        | Some e \<Rightarrow> fail_with ''Workload: remount rootfs readonly failed: %v'' e
      } else return None)
     }
   }"

end
