(* ===== verification/Cgroup.thy ===== *)
theory Cgroup
  imports Types GoPath GoStrconv
begin

text \<open>
  \<open>lib/cgroup.go\<close>: limits written into a cgroup, snapshots of its files with the host's values
  standing in for the missing or unlimited ones, and the set-up an init runs when its
  specification asks for it.
\<close>

section \<open>Applying limits\<close>

definition writeLimit :: "string \<Rightarrow> string \<Rightarrow> string \<Rightarrow> ('z os_scheme, unit) state" where
  "writeLimit path file val =
     (if val \<noteq> [] then sys (FsC (WriteFile (PathJoin [path, file]) val)) else return ())"

definition ApplyCgroups :: "CGroupsConfig \<Rightarrow> ('z os_scheme, err option) state" where
  "ApplyCgroups cfg = do {
     e \<leftarrow> sys_err (FsC (MkdirAll (CgPath cfg)));
     case e of Some e \<Rightarrow> return (Some (Errorf ''failed to create cgroup: %w'' [ArgE e]))
     | None \<Rightarrow> do {
         _ \<leftarrow> writeLimit (CgPath cfg) ''cpu.max'' (CPUMax cfg);
         _ \<leftarrow> writeLimit (CgPath cfg) ''memory.max'' (MemoryMax cfg);
         _ \<leftarrow> writeLimit (CgPath cfg) ''pids.max'' (PIDsMax cfg);
         _ \<leftarrow> writeLimit (CgPath cfg) ''io.max'' (IOMax cfg);
         pid \<leftarrow> sys_int (PrC Getpid);
         sys_err (FsC (WriteFile (PathJoin [CgPath cfg, ''cgroup.procs''])
           (Itoa (case pid of Inl _ \<Rightarrow> -1 | Inr n \<Rightarrow> n))))
       }
   }"

definition RemoveCgroups :: "CGroupsConfig \<Rightarrow> ('z os_scheme, err option) state" where
  "RemoveCgroups cfg = sys_err (FsC (RemoveAll (CgPath cfg)))"

section \<open>Snapshots\<close>

type_synonym CgroupSnapshot = "(string, string) gomap"

definition unreadable :: string where
  "unreadable = ''<unreadable>''"

definition parseCgroupProcs :: "string \<Rightarrow> string" where
  "parseCgroupProcs data =
     Join (filter (\<lambda>l. l \<noteq> [] \<and> l \<noteq> ''0'') (map TrimSpace (Split (TrimSpace data) (CHR 0x0A)))) '',''"

text \<open>One field of \<open>io.stat\<close>: the counters are 64-bit and wrap.\<close>

definition ioField :: "64 word \<times> 64 word \<Rightarrow> string \<Rightarrow> 64 word \<times> 64 word" where
  "ioField acc f =
     (let r = (if HasPrefix f ''rbytes='' then fst acc + fst (ParseUint (TrimPrefix f ''rbytes='') 10) else fst acc);
          w = (if HasPrefix f ''wbytes='' then snd acc + fst (ParseUint (TrimPrefix f ''wbytes='') 10) else snd acc)
      in (r, w))"

definition ioTotals :: "string \<Rightarrow> 64 word \<times> 64 word" where
  "ioTotals statData =
     foldl (foldl ioField) (0, 0) (map Fields (Split (TrimSpace statData) (CHR 0x0A)))"

definition ioStat :: "string \<Rightarrow> ('z os_scheme, string) state" where
  "ioStat path = do {
     d \<leftarrow> sys_str (FsC (ReadFile (PathJoin [path, ''io.stat''])));
     return (case d of Inl _ \<Rightarrow> unreadable
       | Inr statData \<Rightarrow>
           (let t = ioTotals statData
            in ''rbytes='' @ Itoa (uint (fst t)) @ '' wbytes='' @ Itoa (uint (snd t))))
   }"

definition parseIOMax :: "string \<Rightarrow> ('z os_scheme, string) state" where
  "parseIOMax path = do {
     d \<leftarrow> sys_str (FsC (ReadFile (PathJoin [path, ''io.max''])));
     case d of Inl _ \<Rightarrow> ioStat path
     | Inr data \<Rightarrow> (if TrimSpace data \<noteq> [] then return (TrimSpace data) else ioStat path)
   }"

text \<open>The lines of \<open>/proc/meminfo\<close>: kilobytes to bytes, in 64 bits.\<close>

fun memTotal :: "string list \<Rightarrow> string" where
  "memTotal [] = unreadable"
| "memTotal (line # lines) =
     (if HasPrefix line ''MemTotal:'' \<and> length (Fields line) \<ge> 2
      then Itoa (uint (fst (ParseUint (Fields line ! 1) 10) * 1024))
      else memTotal lines)"

definition getHostMemoryLimit :: "('z os_scheme, string) state" where
  "getHostMemoryLimit = do {
     d \<leftarrow> sys_str (FsC (ReadFile ''/proc/meminfo''));
     return (case d of Inl _ \<Rightarrow> unreadable | Inr data \<Rightarrow> memTotal (Split data (CHR 0x0A)))
   }"

definition getHostCPUQuota :: "('z os_scheme, string) state" where
  "getHostCPUQuota = do {
     n \<leftarrow> sys_int (PrC NumCPU);
     return (Itoa (case n of Inl _ \<Rightarrow> 0 | Inr n \<Rightarrow> n) @ '' CPUs'')
   }"

definition getHostPIDLimit :: "('z os_scheme, string) state" where
  "getHostPIDLimit = do {
     d \<leftarrow> sys_str (FsC (ReadFile ''/proc/sys/kernel/pid_max''));
     return (case d of Inl _ \<Rightarrow> unreadable | Inr data \<Rightarrow> TrimSpace data)
   }"

text \<open>The two switches of \<open>SnapshotCgroup\<close> differ in their default only.\<close>

definition hostValue :: "string \<Rightarrow> string \<Rightarrow> string \<Rightarrow> ('z os_scheme, string) state" where
  "hostValue path f default_val =
     (if f = ''memory.max'' then getHostMemoryLimit
      else if f = ''cpu.max'' then getHostCPUQuota
      else if f = ''pids.max'' then getHostPIDLimit
      else if f = ''io.max'' then parseIOMax path
      else if f = ''cgroup.procs'' then do {
        d \<leftarrow> sys_str (FsC (ReadFile (PathJoin [path, f])));
        return (case d of Inl _ \<Rightarrow> unreadable | Inr statData \<Rightarrow> parseCgroupProcs statData)
      }
      else return default_val)"

fun snapshot_loop :: "string \<Rightarrow> string list \<Rightarrow> CgroupSnapshot \<Rightarrow> ('z os_scheme, CgroupSnapshot) state" where
  "snapshot_loop path [] snap = return snap"
| "snapshot_loop path (f # fs) snap = do {
     d \<leftarrow> sys_str (FsC (ReadFile (PathJoin [path, f])));
     v \<leftarrow> (case d of Inl _ \<Rightarrow> hostValue path f unreadable
           | Inr data \<Rightarrow>
               (let val = TrimSpace data
                in if val = ''max'' then hostValue path f val else return val));
     snapshot_loop path fs (map_put f v snap)
   }"

definition SnapshotCgroup :: "string \<Rightarrow> string list \<Rightarrow> ('z os_scheme, CgroupSnapshot) state" where
  "SnapshotCgroup path files = snapshot_loop path files []"

text \<open>The code ranges over a Go map: the order of the lines is the model's choice, that of the list of files.\<close>

definition DiffCgroup :: "CgroupSnapshot \<Rightarrow> CgroupSnapshot \<Rightarrow> ('z os_scheme, unit) state" where
  "DiffCgroup prev next = for_each prev (\<lambda>(k, vBefore).
     case map_get next k of None \<Rightarrow> return ()
     | Some vAfter \<Rightarrow>
         (if vBefore \<noteq> vAfter then sys (UiC (Printf (''[CG] %-15s : %q '' @ [CHR 0xE2, CHR 0x86, CHR 0x92] @ '' %q'' @ [CHR 0x0A])
             [ArgS k, ArgS vBefore, ArgS vAfter]))
          else return ()))"

section \<open>Set-up\<close>

definition CGROUP2_SUPER_MAGIC :: int where
  "CGROUP2_SUPER_MAGIC = 0x63677270"

definition CheckCgroupV2 :: "('z os_scheme, err option) state" where
  "CheckCgroupV2 = do {
     st \<leftarrow> sys_int (FsC (Statfs ''/sys/fs/cgroup''));
     return (case st of Inl _ \<Rightarrow> Some (Errorf ''No such file or dir: /sys/fs/cgroup'' [])
       | Inr ty \<Rightarrow> if ty \<noteq> CGROUP2_SUPER_MAGIC then Some (Errorf ''cgroup v2 not mounted'' []) else None)
   }"

definition SetCgroupFreeze :: "string \<Rightarrow> bool \<Rightarrow> ('z os_scheme, err option) state" where
  "SetCgroupFreeze cgPath freeze =
     sys_err (FsC (WriteFile (PathJoin [cgPath, ''cgroup.freeze'']) (if freeze then ''1'' else ''0'')))"

definition EnableControllers :: "string \<Rightarrow> string list \<Rightarrow> ('z os_scheme, err option) state" where
  "EnableControllers root ctrls =
     sys_err (FsC (WriteFile (PathJoin [root, ''cgroup.subtree_control'']) (CHR ''+'' # Join ctrls '' +'')))"

text \<open>\<open>log.Fatal\<close> prints the error, behind a time stamp, and exits with status 1.\<close>

definition fatal :: "err \<Rightarrow> ('z os_scheme, 'a outcome) state" where
  "fatal e = do { _ \<leftarrow> sys (UiC (Printf ''%v'' [ArgE e])); return (Exit 1) }"

definition cgroupFiles :: "string list" where
  "cgroupFiles = [''cpu.max'', ''memory.max'', ''pids.max'', ''io.max'', ''cgroup.procs'']"

definition SetupCgroups :: "bool \<Rightarrow> CGroupsConfig \<Rightarrow> ('z os_scheme, unit outcome) state" where
  "SetupCgroups cg cfg = do {
     _ \<leftarrow> sys (UiC (Print (''[*] Init of TestCGroups'' @ [CHR 0x0A])));
     e \<leftarrow> CheckCgroupV2;
     case e of Some e \<Rightarrow> fatal e | None \<Rightarrow> do {
     _ \<leftarrow> sys (UiC (Print (''[*] CheckCgroupV2'' @ [CHR 0x0A])));
     e \<leftarrow> EnableControllers ''/sys/fs/cgroup'' [''cpu'', ''memory'', ''pids'', ''io''];
     case e of Some e \<Rightarrow> fatal e | None \<Rightarrow> do {
     _ \<leftarrow> sys (UiC (Print (''[*] EnableControllers'' @ [CHR 0x0A])));
     prev \<leftarrow> SnapshotCgroup ''/sys/fs/cgroup'' cgroupFiles;
     _ \<leftarrow> sys (UiC (Print (''[*] SnapshotCgroup'' @ [CHR 0x0A])));
     e \<leftarrow> ApplyCgroups cfg;
     case e of Some e \<Rightarrow> fatal e | None \<Rightarrow> do {
     _ \<leftarrow> (if cg then do {
         e \<leftarrow> sys_err (PrC (Unshare [CLONE_NEWCGROUP]));
         case e of None \<Rightarrow> return ()
         | Some e \<Rightarrow> sys (UiC (Printf (''Erro no Unshare CGROUP: %v'' @ [CHR 0x0A]) [ArgE e]))
       } else return ());
     _ \<leftarrow> sys (UiC (Print (''[*] ApplyCgroups'' @ [CHR 0x0A])));
     next \<leftarrow> SnapshotCgroup (CgPath cfg) cgroupFiles;
     _ \<leftarrow> DiffCgroup prev next;
     return (Ret ())
     }}}
   }"

section \<open>What a snapshot shows\<close>

lemma appends_host [io_only]:
  "appends getHostMemoryLimit" "appends getHostCPUQuota" "appends getHostPIDLimit"
  "appends (parseIOMax path)" "appends (hostValue path f d)"
  unfolding getHostMemoryLimit_def getHostCPUQuota_def getHostPIDLimit_def parseIOMax_def ioStat_def
    hostValue_def by (rule conjunctionI | rule io_only)+

lemma snapshot_loop_keys:
  "gomap_ok snap \<Longrightarrow>
    yields (snapshot_loop path fs snap) (\<lambda>r _. gomap_ok r \<and> fst ` set r = fst ` set snap \<union> set fs)"
proof (induction fs arbitrary: snap)
  case Nil
  then show ?case by (simp add: yield_rules)
next
  case (Cons f fs)
  have h: "yields (hostValue path f d) (\<lambda>_ _. True)" for d
    using appends_host(5) unfolding appends_def yields_def with_calls_def by simp
  have p: "gomap_ok (map_put f v snap)" for v using Cons.prems by simp
  show ?case
    unfolding snapshot_loop.simps Let_def
    by (rule yield_rules | rule yields_bind | rule yields_mono [OF h]
      | rule yields_mono [OF Cons.IH [OF p]], (simp add: fst_set_map_put; fail))+
qed

text \<open>A snapshot shows every file it was asked for exactly once, readable or not.\<close>

theorem snapshot_total:
  "gomap_ok (result (SnapshotCgroup path files) s) \<and>
   fst ` set (result (SnapshotCgroup path files) s) = set files"
  using yieldsD [OF snapshot_loop_keys [where snap = "[]" and path = path and fs = files], of s]
  by (simp add: SnapshotCgroup_def)

section \<open>What the set-up changes and shows\<close>

text \<open>A system whose files, as long as the set-up looks at them, have the contents \<open>fs\<close>, with \<open>n\<close> processors.\<close>

definition reads :: "(string \<Rightarrow> err + string) \<Rightarrow> int \<Rightarrow> 'z os_scheme \<Rightarrow> bool" where
  "reads fs n s \<longleftrightarrow> (\<forall>t p. o_str s t (FsC (ReadFile p)) = fs p) \<and> (\<forall>t. o_int s t (PrC NumCPU) = Inr n)"

text \<open>The values a snapshot shows, without the reads that find them out.\<close>

definition ioLine :: "string \<Rightarrow> string" where
  "ioLine data = ''rbytes='' @ Itoa (uint (fst (ioTotals data))) @ '' wbytes='' @ Itoa (uint (snd (ioTotals data)))"

definition ioShown :: "(string \<Rightarrow> err + string) \<Rightarrow> string \<Rightarrow> string" where
  "ioShown fs path =
     (let stat = (case fs (PathJoin [path, ''io.stat'']) of Inl _ \<Rightarrow> unreadable | Inr data \<Rightarrow> ioLine data)
      in case fs (PathJoin [path, ''io.max'']) of Inl _ \<Rightarrow> stat
      | Inr data \<Rightarrow> if TrimSpace data \<noteq> [] then TrimSpace data else stat)"

definition standIn :: "(string \<Rightarrow> err + string) \<Rightarrow> int \<Rightarrow> string \<Rightarrow> string \<Rightarrow> string \<Rightarrow> string" where
  "standIn fs n path f d =
     (let file = (\<lambda>p g. case fs p of Inl _ \<Rightarrow> unreadable | Inr data \<Rightarrow> g data)
      in if f = ''memory.max'' then file ''/proc/meminfo'' (\<lambda>data. memTotal (Split data (CHR 0x0A)))
         else if f = ''cpu.max'' then Itoa n @ '' CPUs''
         else if f = ''pids.max'' then file ''/proc/sys/kernel/pid_max'' TrimSpace
         else if f = ''io.max'' then ioShown fs path
         else if f = ''cgroup.procs'' then file (PathJoin [path, f]) parseCgroupProcs
         else d)"

definition shownLimit :: "(string \<Rightarrow> err + string) \<Rightarrow> int \<Rightarrow> string \<Rightarrow> string \<Rightarrow> string" where
  "shownLimit fs n path f =
     (case fs (PathJoin [path, f]) of Inl _ \<Rightarrow> standIn fs n path f unreadable
      | Inr data \<Rightarrow> if TrimSpace data = ''max'' then standIn fs n path f ''max'' else TrimSpace data)"

fun is_change :: "call \<Rightarrow> bool" where
  "is_change (FsC (MkdirAll _)) = True"
| "is_change (FsC (WriteFile _ _)) = True"
| "is_change (PrC (Unshare _)) = True"
| "is_change _ = False"

fun is_diff :: "call \<Rightarrow> bool" where
  "is_diff (UiC (Printf _ [_, _, _])) = True"
| "is_diff _ = False"

text \<open>\<open>looks v m s\<close>: from \<open>s\<close>, \<open>m\<close> finds out \<open>v\<close> and changes and shows nothing.\<close>

definition looks :: "'a \<Rightarrow> ('z os_scheme, 'a) state \<Rightarrow> 'z os_scheme \<Rightarrow> bool" where
  "looks v m s \<longleftrightarrow> (\<exists>cs. run_state m s = (v, with_calls cs s) \<and> filter is_change cs = [] \<and> filter is_diff cs = [])"

lemma reads_with_calls [simp]: "reads fs n (with_calls cs s) = reads fs n s"
  by (simp add: reads_def)

lemma looksI: "run_state m s = (v, with_calls cs s) \<Longrightarrow> filter is_change cs = [] \<Longrightarrow> filter is_diff cs = [] \<Longrightarrow> looks v m s"
  unfolding looks_def by blast

lemma looks_return: "looks v (return v) s"
  by (rule looksI [where cs = "[]"]) simp_all

lemma looks_str:
  assumes "reads fs n s" and "\<And>s. reads fs n s \<Longrightarrow> looks v (g (fs p)) s"
  shows "looks v (sys_str (FsC (ReadFile p)) \<bind> g) s"
proof -
  have r: "reads fs n (with_calls [FsC (ReadFile p)] s)" using assms(1) by simp
  from assms(2) [OF r] obtain cs where
    "run_state (g (fs p)) (with_calls [FsC (ReadFile p)] s) = (v, with_calls (FsC (ReadFile p) # cs) s)"
    "filter is_change cs = []" "filter is_diff cs = []" by (auto simp: looks_def)
  then show ?thesis
    using assms(1) by (intro looksI [where cs = "FsC (ReadFile p) # cs"]) (simp_all add: reads_def emit_with_calls)
qed

lemma looks_file:
  assumes "reads fs n s"
  shows "looks (case fs p of Inl _ \<Rightarrow> u | Inr data \<Rightarrow> h data)
    (sys_str (FsC (ReadFile p)) \<bind> (\<lambda>d. return (case d of Inl _ \<Rightarrow> u | Inr data \<Rightarrow> h data))) s"
  by (rule looks_str [OF assms], rule looks_return)

lemma looks_host:
  assumes "reads fs n s"
  shows "looks (case fs ''/proc/meminfo'' of Inl _ \<Rightarrow> unreadable | Inr data \<Rightarrow> memTotal (Split data (CHR 0x0A))) getHostMemoryLimit s"
    and "looks (Itoa n @ '' CPUs'') getHostCPUQuota s"
    and "looks (case fs ''/proc/sys/kernel/pid_max'' of Inl _ \<Rightarrow> unreadable | Inr data \<Rightarrow> TrimSpace data) getHostPIDLimit s"
    and "looks (case fs (PathJoin [path, ''io.stat'']) of Inl _ \<Rightarrow> unreadable
      | Inr data \<Rightarrow> ioLine data) (ioStat path) s"
proof -
  show "looks (Itoa n @ '' CPUs'') getHostCPUQuota s"
    using assms by (intro looksI [where cs = "[PrC NumCPU]"])
      (simp_all add: getHostCPUQuota_def reads_def emit_with_calls)
qed (unfold getHostMemoryLimit_def getHostPIDLimit_def ioStat_def Let_def ioLine_def [symmetric], (rule looks_file [OF assms])+)

lemma looks_parseIOMax:
  assumes "reads fs n s"
  shows "looks (ioShown fs path) (parseIOMax path) s"
  unfolding ioShown_def parseIOMax_def Let_def
  by (rule looks_str [OF assms]) (simp add: looks_host(4) looks_return split: sum.split)


lemma looks_if: "looks v m s \<Longrightarrow> looks w m' s \<Longrightarrow> looks (if b then v else w) (if b then m else m') s"
  by simp

lemma looks_hostValue:
  assumes "reads fs n s"
  shows "looks (standIn fs n path f d) (hostValue path f d) s"
  unfolding hostValue_def standIn_def Let_def
  by (rule looks_if looks_host [OF assms] looks_parseIOMax [OF assms] looks_file [OF assms] looks_return)+

lemma looks_snapshot_loop:
  "reads fs n s \<Longrightarrow>
    looks (foldl (\<lambda>m f. map_put f (shownLimit fs n path f) m) snap files) (snapshot_loop path files snap) s"
proof (induction files arbitrary: snap s)
  case Nil
  then show ?case by (simp add: looks_return)
next
  case (Cons f files)
  have v: "looks (shownLimit fs n path f) (case fs (PathJoin [path, f]) of Inl _ \<Rightarrow> hostValue path f unreadable
      | Inr data \<Rightarrow> (let val = TrimSpace data in if val = ''max'' then hostValue path f val else return val)) t"
    if "reads fs n t" for t :: "'a os_scheme"
    using looks_hostValue [OF that] by (auto simp: shownLimit_def Let_def looks_return split: sum.split)
  show ?case
    unfolding snapshot_loop.simps
  proof (rule looks_str [OF Cons.prems])
    fix t :: "'a os_scheme" assume t: "reads fs n t"
    from v [OF t] obtain cs where cs: "run_state (case fs (PathJoin [path, f]) of Inl _ \<Rightarrow> hostValue path f unreadable
        | Inr data \<Rightarrow> (let val = TrimSpace data in if val = ''max'' then hostValue path f val else return val)) t =
        (shownLimit fs n path f, with_calls cs t)" "filter is_change cs = []" "filter is_diff cs = []"
      unfolding looks_def by blast
    from Cons.IH [of "with_calls cs t" "map_put f (shownLimit fs n path f) snap"] t obtain ds where
      "run_state (snapshot_loop path files (map_put f (shownLimit fs n path f) snap)) (with_calls cs t) =
        (foldl (\<lambda>m f. map_put f (shownLimit fs n path f) m) (map_put f (shownLimit fs n path f) snap) files,
         with_calls (cs @ ds) t)" "filter is_change ds = []" "filter is_diff ds = []"
      unfolding looks_def by auto
    with cs show "looks (foldl (\<lambda>m f. map_put f (shownLimit fs n path f) m) snap (f # files))
      ((case fs (PathJoin [path, f]) of Inl _ \<Rightarrow> hostValue path f unreadable
        | Inr data \<Rightarrow> (let val = TrimSpace data in if val = ''max'' then hostValue path f val else return val)) \<bind>
       (\<lambda>v. snapshot_loop path files (map_put f v snap))) t"
      by (intro looksI [where cs = "cs @ ds"]) simp_all
  qed
qed


lemma map_put_new: "k \<notin> fst ` set m \<Longrightarrow> map_put k v m = m @ [(k, v)]"
  by (induction m) auto

lemma snapshot_of_distinct:
  "distinct files \<Longrightarrow> fst ` set snap \<inter> set files = {} \<Longrightarrow>
    foldl (\<lambda>m f. map_put f (v f) m) snap files = snap @ map (\<lambda>f. (f, v f)) files"
proof (induction files arbitrary: snap)
  case (Cons f files)
  then have "map_put f (v f) snap = snap @ [(f, v f)]" by (intro map_put_new) auto
  with Cons.IH [of "snap @ [(f, v f)]"] Cons.prems show ?case by auto
qed simp

lemma looks_SnapshotCgroup:
  assumes "reads fs n s" and "distinct files"
  shows "looks (map (\<lambda>f. (f, shownLimit fs n path f)) files) (SnapshotCgroup path files) s"
  using looks_snapshot_loop [OF assms(1), of path "[]" files] snapshot_of_distinct [OF assms(2), of "[]" "shownLimit fs n path"]
  by (simp add: SnapshotCgroup_def)

lemma distinct_cgroupFiles: "distinct cgroupFiles"
  by code_simp

text \<open>The line for a file whose value is \<open>v\<close> at first and \<open>w\<close> later.\<close>

definition diffLine :: "string \<Rightarrow> string \<Rightarrow> string \<Rightarrow> call" where
  "diffLine f v w = UiC (Printf (''[CG] %-15s : %q '' @ [CHR 0xE2, CHR 0x86, CHR 0x92] @ '' %q'' @ [CHR 0x0A])
     [ArgS f, ArgS v, ArgS w])"

lemma run_DiffCgroup:
  fixes s :: "'z os_scheme"
  assumes "\<And>f. f \<in> set fs \<Longrightarrow> map_get m f = Some (w f)"
  shows "run_state (DiffCgroup (map (\<lambda>f. (f, v f)) fs) m) s =
    ((), with_calls (map (\<lambda>f. diffLine f (v f) (w f)) (filter (\<lambda>f. v f \<noteq> w f) fs)) s)"
  using assms
proof (induction fs arbitrary: s)
  case (Cons f fs)
  have "DiffCgroup (map (\<lambda>f. (f, v f)) (f # fs)) m = (do {
      _ \<leftarrow> (if v f \<noteq> w f then sys (diffLine f (v f) (w f)) else return ());
      DiffCgroup (map (\<lambda>f. (f, v f)) fs) m } :: ('z os_scheme, unit) state)"
    using Cons.prems [of f] by (simp add: DiffCgroup_def diffLine_def)
  then show ?case using Cons by (simp add: emit_with_calls)
qed (simp add: DiffCgroup_def)

text \<open>The limits a configuration asks for, in the order they are written.\<close>

definition limitsOf :: "CGroupsConfig \<Rightarrow> (string \<times> string) list" where
  "limitsOf cfg = filter (\<lambda>(f, v). v \<noteq> [])
     [(''cpu.max'', CPUMax cfg), (''memory.max'', MemoryMax cfg), (''pids.max'', PIDsMax cfg), (''io.max'', IOMax cfg)]"

definition cgroupChanges :: "CGroupsConfig \<Rightarrow> int \<Rightarrow> call list" where
  "cgroupChanges cfg pid = FsC (MkdirAll (CgPath cfg)) #
     map (\<lambda>(f, v). FsC (WriteFile (PathJoin [CgPath cfg, f]) v)) (limitsOf cfg) @
     [FsC (WriteFile (PathJoin [CgPath cfg, ''cgroup.procs'']) (Itoa pid))]"

lemma ApplyCgroups_ok:
  assumes "\<And>t. o_int s t (PrC Getpid) = Inr pid" and "result (ApplyCgroups cfg) s = None"
  shows "\<exists>cs. run_state (ApplyCgroups cfg) s = (None, with_calls cs s) \<and>
    filter is_change cs = cgroupChanges cfg pid \<and> filter is_diff cs = []"
  using assms
  by (auto simp: ApplyCgroups_def writeLimit_def result_def emit_with_calls cgroupChanges_def limitsOf_def
      split: option.splits)

text \<open>
  C40: a set-up that goes through makes the changes its configuration asks for and no others, in order: the
  controllers are enabled for the children of the root cgroup, the container's cgroup is made,
  each limit that is set is written into its file, the init moves itself into the cgroup, and only then is
  its cgroup namespace split off, if it is to be. It shows exactly the files whose value in the
  container's cgroup is not the root's, where the host's value stands in for a missing file or no limit
  (one line each; the code prints them in any order, the model in that of the list of files).
\<close>

theorem cgroup_set_up:
  fixes s :: "'z os_scheme"
  assumes "reads fs n s" and "\<And>t. o_int s t (PrC Getpid) = Inr pid"
    and "result (SetupCgroups cg cfg) s = Ret ()"
  shows "filter is_change (calls (SetupCgroups cg cfg) s) =
      FsC (WriteFile (PathJoin [''/sys/fs/cgroup'', ''cgroup.subtree_control'']) ''+cpu +memory +pids +io'') #
      cgroupChanges cfg pid @ (if cg then [PrC (Unshare [CLONE_NEWCGROUP])] else []) \<and>
    filter is_diff (calls (SetupCgroups cg cfg) s) =
      map (\<lambda>f. diffLine f (shownLimit fs n ''/sys/fs/cgroup'' f) (shownLimit fs n (CgPath cfg) f))
        (filter (\<lambda>f. shownLimit fs n ''/sys/fs/cgroup'' f \<noteq> shownLimit fs n (CgPath cfg) f) cgroupFiles)"
proof -
  let ?root = "''/sys/fs/cgroup''" and ?print = "\<lambda>m. UiC (Print (m @ [CHR 0x0A]))"
  let ?enable = "FsC (WriteFile (PathJoin [?root, ''cgroup.subtree_control'']) ''+cpu +memory +pids +io'')"
  let ?start = "[?print ''[*] Init of TestCGroups'', FsC (Statfs ?root), ?print ''[*] CheckCgroupV2'', ?enable,
    ?print ''[*] EnableControllers'']"
  let ?snap = "\<lambda>path. map (\<lambda>f. (f, shownLimit fs n path f)) cgroupFiles"
  obtain ps where ps: "run_state (SnapshotCgroup ?root cgroupFiles) (with_calls ?start s) =
      (?snap ?root, with_calls (?start @ ps) s)" "filter is_change ps = []" "filter is_diff ps = []"
    using looks_SnapshotCgroup [OF _ distinct_cgroupFiles, where s = "with_calls ?start s" and path = ?root and fs = fs and n = n] assms(1)
    by (auto simp: looks_def)
  let ?snapped = "?start @ ps @ [?print ''[*] SnapshotCgroup'']"
  have j: "CHR ''+'' # Join [''cpu'', ''memory'', ''pids'', ''io''] '' +'' = ''+cpu +memory +pids +io''" by code_simp
  note eval = SetupCgroups_def CheckCgroupV2_def fatal_def EnableControllers_def result_def emit_with_calls j
  have st: "o_int s (trace s @ [?print ''[*] Init of TestCGroups'']) (FsC (Statfs ?root)) = Inr CGROUP2_SUPER_MAGIC"
    using assms(3) by (simp add: eval split: sum.splits if_splits)
  have en: "o_err s (trace s @ take 3 ?start) ?enable = None"
    using assms(3) st by (simp add: eval split: option.splits)
  obtain r t where r: "run_state (ApplyCgroups cfg) (with_calls ?snapped s) = (r, t)" by fastforce
  then have "r = None" using assms(3) st en ps(1) by (cases r) (simp_all add: eval)
  then have "result (ApplyCgroups cfg) (with_calls ?snapped s) = None" using r by (simp add: result_def)
  with ApplyCgroups_ok [of "with_calls ?snapped s" pid cfg] assms(2) obtain as where
    as: "run_state (ApplyCgroups cfg) (with_calls ?snapped s) = (None, with_calls (?snapped @ as) s)"
    "filter is_change as = cgroupChanges cfg pid" "filter is_diff as = []" by auto
  define us where "us = (if cg then PrC (Unshare [CLONE_NEWCGROUP]) #
    (case o_err s (trace s @ ?snapped @ as) (PrC (Unshare [CLONE_NEWCGROUP])) of None \<Rightarrow> []
     | Some e \<Rightarrow> [UiC (Printf (''Erro no Unshare CGROUP: %v'' @ [CHR 0x0A]) [ArgE e])]) else [])"
  let ?moved = "?snapped @ as @ us @ [?print ''[*] ApplyCgroups'']"
  obtain qs where qs: "run_state (SnapshotCgroup (CgPath cfg) cgroupFiles) (with_calls ?moved s) =
      (?snap (CgPath cfg), with_calls (?moved @ qs) s)" "filter is_change qs = []" "filter is_diff qs = []"
    using looks_SnapshotCgroup [OF _ distinct_cgroupFiles, where s = "with_calls ?moved s" and path = "CgPath cfg" and fs = fs and n = n] assms(1)
    by (auto simp: looks_def)
  have "map_get (?snap (CgPath cfg)) f = Some (shownLimit fs n (CgPath cfg) f)" if "f \<in> set cgroupFiles" for f
    using that by (simp add: map_of_map_restrict)
  note d = run_DiffCgroup [of cgroupFiles "?snap (CgPath cfg)" "shownLimit fs n (CgPath cfg)", OF this]
  have "calls (SetupCgroups cg cfg) s = ?moved @ qs @
      map (\<lambda>f. diffLine f (shownLimit fs n ?root f) (shownLimit fs n (CgPath cfg) f))
        (filter (\<lambda>f. shownLimit fs n ?root f \<noteq> shownLimit fs n (CgPath cfg) f) cgroupFiles)"
  proof (cases cg)
    case False
    then have "us = []" by (simp add: us_def)
    with False st en ps(1) as(1) qs(1) show ?thesis by (simp add: eval calls_def d)
  next
    case True
    show ?thesis
    proof (cases "o_err s (trace s @ ?snapped @ as) (PrC (Unshare [CLONE_NEWCGROUP]))")
      case None
      with True have "us = [PrC (Unshare [CLONE_NEWCGROUP])]" by (simp add: us_def)
      with None True st en ps(1) as(1) qs(1) show ?thesis by (simp add: eval calls_def d)
    next
      case (Some e)
      with True have "us = [PrC (Unshare [CLONE_NEWCGROUP]), UiC (Printf (''Erro no Unshare CGROUP: %v'' @ [CHR 0x0A]) [ArgE e])]"
        by (simp add: us_def)
      with Some True st en ps(1) as(1) qs(1) show ?thesis by (simp add: eval calls_def d)
    qed
  qed
  then show ?thesis using ps qs as by (simp add: us_def diffLine_def filter_map o_def split: option.split)
qed

text \<open>A host with version 2 cgroups whose only readable limits are the container's of memory and the host's of pids.\<close>

definition ex_files :: "string \<Rightarrow> err + string" where
  "ex_files p =
     (if p = ''/sys/fs/cgroup/bctor/memory.max'' then Inr ''1048576''
      else if p = ''/proc/sys/kernel/pid_max'' then Inr ''32768'' else Inl (Errorf ''no such file'' []))"

definition cgroup_os :: os where
  "cgroup_os = quiet_os\<lparr>
     o_int := (\<lambda>_ c. if c = FsC (Statfs ''/sys/fs/cgroup'') then Inr CGROUP2_SUPER_MAGIC
       else if c = PrC Getpid then Inr 42 else Inr 4),
     o_str := (\<lambda>_ c. case c of FsC (ReadFile p) \<Rightarrow> ex_files p | _ \<Rightarrow> Inr [])\<rparr>"

definition ex_limits :: CGroupsConfig where
  "ex_limits = \<lparr>CPUMax = [], MemoryMax = ''1048576'', PIDsMax = [], IOMax = [], CgPath = ''/sys/fs/cgroup/bctor''\<rparr>"

lemma ex_set_up: "result (SetupCgroups True ex_limits) cgroup_os = Ret ()"
  by code_simp

theorem cgroup_set_up_witness:
  "filter is_change (calls (SetupCgroups True ex_limits) cgroup_os) =
     [FsC (WriteFile ''/sys/fs/cgroup/cgroup.subtree_control'' ''+cpu +memory +pids +io''),
      FsC (MkdirAll ''/sys/fs/cgroup/bctor''),
      FsC (WriteFile ''/sys/fs/cgroup/bctor/memory.max'' ''1048576''),
      FsC (WriteFile ''/sys/fs/cgroup/bctor/cgroup.procs'' ''42''),
      PrC (Unshare [CLONE_NEWCGROUP])] \<and>
   filter is_diff (calls (SetupCgroups True ex_limits) cgroup_os) = [diffLine ''memory.max'' ''<unreadable>'' ''1048576'']"
proof -
  have r: "reads ex_files 4 cgroup_os" by (simp add: reads_def cgroup_os_def)
  have p: "o_int cgroup_os t (PrC Getpid) = Inr 42" for t by (simp add: cgroup_os_def)
  have c: "FsC (WriteFile (PathJoin [''/sys/fs/cgroup'', ''cgroup.subtree_control'']) ''+cpu +memory +pids +io'') #
      cgroupChanges ex_limits 42 @ [PrC (Unshare [CLONE_NEWCGROUP])] =
     [FsC (WriteFile ''/sys/fs/cgroup/cgroup.subtree_control'' ''+cpu +memory +pids +io''),
      FsC (MkdirAll ''/sys/fs/cgroup/bctor''),
      FsC (WriteFile ''/sys/fs/cgroup/bctor/memory.max'' ''1048576''),
      FsC (WriteFile ''/sys/fs/cgroup/bctor/cgroup.procs'' ''42''),
      PrC (Unshare [CLONE_NEWCGROUP])]" by code_simp
  have d: "map (\<lambda>f. diffLine f (shownLimit ex_files 4 ''/sys/fs/cgroup'' f) (shownLimit ex_files 4 (CgPath ex_limits) f))
        (filter (\<lambda>f. shownLimit ex_files 4 ''/sys/fs/cgroup'' f \<noteq> shownLimit ex_files 4 (CgPath ex_limits) f) cgroupFiles) =
     [diffLine ''memory.max'' ''<unreadable>'' ''1048576'']" by code_simp
  show ?thesis using cgroup_set_up [OF r p ex_set_up] by (simp only: c d if_True simp_thms)
qed

end
