(* ===== verification/Init.thy ===== *)
theory Init
  imports Caps FdsSetup Filesystem Cgroup "HOL-Library.Sublist"
begin

text \<open>
  The container's side: \<open>lib/namespaces.go\<close> (joining and creating namespaces, and the supervisor's
  part of the user namespace handshake), \<open>lib/workload.go\<close> (from the fork to the exec of the
  workload, and its parent, which reports to the supervisor and waits) and \<open>RunContainerInit\<close> of
  \<open>sup/init.go\<close>.
\<close>

section \<open>Namespaces\<close>

definition flagsChecks :: "ContainerSpec \<Rightarrow> ('z os_scheme, err option) state" where
  "flagsChecks spec =
     (if MOUNT (Namespaces spec) then sys_err (FsC (Mount '''' ''/'' '''' [MS_REC, MS_PRIVATE] ''''))
      else return None)"

text \<open>Loop over the shared descriptors, in whatever order the map gives them.\<close>

fun joinShared :: "(NamespaceType, int) gomap \<Rightarrow> ('z os_scheme, err option outcome) state" where
  "joinShared [] = return (Ret None)"
| "joinShared ((ns, fd) # rest) =
     (if ns = NSUser then joinShared rest
      else obind (nsTypeToCloneFlag ns) (\<lambda>flag. do {
        e \<leftarrow> sys_err (PrC (Setns fd flag));
        case e of
          Some e \<Rightarrow> do {
            er \<leftarrow> LogError ''setns(%v): %v'' [ArgI (int (ns_code ns)), ArgE e];
            return (Ret (Some er))
          }
        | None \<Rightarrow> do { _ \<leftarrow> sys (FdC (Close fd)); joinShared rest }
      }))"

fun unshareFlags :: "ContainerSpec \<Rightarrow> (NamespaceType, int) gomap \<Rightarrow> NamespaceType list \<Rightarrow> cflag list \<Rightarrow>
    ('z os_scheme, cflag list outcome) state" where
  "unshareFlags spec shared [] flags = return (Ret flags)"
| "unshareFlags spec shared (ns # rest) flags =
     (if specWantsNamespace spec ns \<and> map_get shared ns = None
      then obind (nsTypeToCloneFlag ns) (\<lambda>flag. unshareFlags spec shared rest (flags @ [flag]))
      else unshareFlags spec shared rest flags)"

text \<open>The user namespace comes first: created with the supervisor's help, or joined.\<close>

definition enterUserNS ::
  "ContainerSpec \<Rightarrow> IPC \<Rightarrow> (NamespaceType, int) gomap \<Rightarrow> ('z os_scheme, err option) state" where
  "enterUserNS spec ipc shared =
     (case map_get shared NSUser of
        None \<Rightarrow>
          (if USER (Namespaces spec) then do {
             e \<leftarrow> sys_err (PrC (Unshare [CLONE_NEWUSER]));
             case e of
               Some e \<Rightarrow> do { er \<leftarrow> LogError ''unshare(user): %v'' [ArgE e]; return (Some er) }
             | None \<Rightarrow> do {
                 _ \<leftarrow> FreeFd (snd (UserNSReady ipc));
                 _ \<leftarrow> WaitFd (fst (UserNSPipe ipc));
                 _ \<leftarrow> sys (FdC (Close (snd (UserNSPipe ipc))));
                 return None
               }
           } else return None)
      | Some fd \<Rightarrow> do {
          e \<leftarrow> sys_err (PrC (Setns fd CLONE_NEWUSER));
          case e of
            Some e \<Rightarrow> do { er \<leftarrow> LogError ''setns(user): %v'' [ArgE e]; return (Some er) }
          | None \<Rightarrow> do { _ \<leftarrow> sys (FdC (Close fd)); return None }
        })"

definition enterNamespaces ::
  "ContainerSpec \<Rightarrow> IPC \<Rightarrow> (NamespaceType, int) gomap \<Rightarrow> ('z os_scheme, err option outcome) state" where
  "enterNamespaces spec ipc shared = do {
       e \<leftarrow> enterUserNS spec ipc shared;
       case e of Some e \<Rightarrow> return (Ret (Some e)) | None \<Rightarrow>
       obind (joinShared shared) (\<lambda>e.
         case e of Some e \<Rightarrow> return (Ret (Some e)) | None \<Rightarrow>
         obind (unshareFlags spec shared [NSNet, NSMnt, NSPID, NSIPC, NSUTS, NSCgroup] []) (\<lambda>flags. do {
           e \<leftarrow> (if flags \<noteq> [] then sys_err (PrC (Unshare flags)) else return None);
           case e of
             Some e \<Rightarrow> do { er \<leftarrow> LogError ''unshare: %v'' [ArgE e]; return (Ret (Some er)) }
           | None \<Rightarrow> do {
               e \<leftarrow> flagsChecks spec;
               case e of
                 Some e \<Rightarrow> do { er \<leftarrow> LogError ''flag check failed: %v'' [ArgE e]; return (Ret (Some er)) }
               | None \<Rightarrow> return (Ret None)
             }
         }))
     }"

definition ApplyNamespaces :: "ContainerSpec \<Rightarrow> IPC \<Rightarrow> ('z os_scheme, err option outcome) state" where
  "ApplyNamespaces spec ipc =
     obind (if Shares spec \<noteq> [] then RecvNamespaceFDs ipc else return (Ret [])) (enterNamespaces spec ipc)"

text \<open>The supervisor's part: the maps are written before the container may go on.\<close>

definition SetupUserNSAndContinue :: "int \<Rightarrow> IPC \<Rightarrow> ('z os_scheme, err option) state" where
  "SetupUserNSAndContinue pid ipc = do {
     let pidStr = Itoa pid;
     e \<leftarrow> denySetgroups pidStr;
     case e of
       Some e \<Rightarrow> do {
         _ \<leftarrow> LogError (''Failed to deny setgroups for PID %s: %v'' @ [CHR 0x0A]) [ArgS pidStr, ArgE e];
         return (Some e)
       }
     | None \<Rightarrow> do {
     e \<leftarrow> writeUIDMap pidStr;
     case e of
       Some e \<Rightarrow> do {
         _ \<leftarrow> LogError (''Failed to write UID map for PID %s: %v'' @ [CHR 0x0A]) [ArgS pidStr, ArgE e];
         return (Some e)
       }
     | None \<Rightarrow> do {
     e \<leftarrow> writeGIDMap pidStr;
     case e of
       Some e \<Rightarrow> do {
         _ \<leftarrow> LogError (''Failed to write GID map for PID %s: %v'' @ [CHR 0x0A]) [ArgS pidStr, ArgE e];
         return (Some e)
       }
     | None \<Rightarrow> sys_err (FdC (Write (snd (UserNSPipe ipc)) [CHR 0x01]))
     }}
   }"

section \<open>The workload\<close>

definition setupBatchIO :: "IPC \<Rightarrow> ('z os_scheme, unit) state" where
  "setupBatchIO ipc = do {
     _ \<leftarrow> sys (FdC (Dup2 (snd (Log2Sup ipc)) 1));
     _ \<leftarrow> sys (FdC (Dup2 (snd (Log2Sup ipc)) 2));
     _ \<leftarrow> sys (FdC (Close (fst (Log2Sup ipc))));
     sys (FdC (Close (snd (Log2Sup ipc))))
   }"

definition setupInteractiveIO :: "IPC \<Rightarrow> ('z os_scheme, unit) state" where
  "setupInteractiveIO ipc = do {
     let sFd = PtySlave ipc;
     let mFd = PtyMaster ipc;
     _ \<leftarrow> sys (FdC Setsid);
     _ \<leftarrow> sys (FdC (IoctlTIOCSCTTY sFd));
     _ \<leftarrow> sys (FdC (Dup2 sFd 0));
     _ \<leftarrow> sys (FdC (Dup2 sFd 1));
     _ \<leftarrow> sys (FdC (Dup2 sFd 2));
     _ \<leftarrow> sys (FdC (SetNonblock 0));
     _ \<leftarrow> sys (FdC (SetNonblock 1));
     _ \<leftarrow> sys (FdC (SetNonblock 2));
     _ \<leftarrow> (if mFd > 2 then sys (FdC (Close mFd)) else return ());
     if sFd > 2 then sys (FdC (Close sFd)) else return ()
   }"

definition setupIO :: "ContainerSpec \<Rightarrow> IPC \<Rightarrow> ('z os_scheme, unit) state" where
  "setupIO spec ipc =
     (case Mode (Workload spec) of
        ModeInteractive \<Rightarrow> setupInteractiveIO ipc
      | ModeBatch \<Rightarrow> setupBatchIO ipc)"

text \<open>The command that a specification runs, or nothing if the profile found has no entry.\<close>

definition workloadOf :: "ContainerSpec \<Rightarrow> (string \<times> string list \<times> string list) option" where
  "workloadOf spec =
     (let profile =
        (if WorkloadRegistry (Seccomp spec) = None
         then (if Mode (Workload spec) = ModeBatch then ProfileBatch else ProfileDebugShell)
         else Seccomp spec)
      in case WorkloadRegistry profile of None \<Rightarrow> None
         | Some w \<Rightarrow>
             Some (if Path (Workload spec) \<noteq> [] then Path (Workload spec) else Path w,
                   if Args (Workload spec) \<noteq> [] then Args (Workload spec) else Args w,
                   if Env (Workload spec) \<noteq> [] then Env (Workload spec) else Env w))"

definition runWorkload :: "ContainerSpec \<Rightarrow> ('z os_scheme, unit outcome) state" where
  "runWorkload spec =
     (case workloadOf spec of
        None \<Rightarrow> return (Exit 1)
      | Some (path, args, env) \<Rightarrow> do {
          e \<leftarrow> sys_err (PrC (Exec path args env));
          case e of
            Some e \<Rightarrow> do {
              _ \<leftarrow> sys (UiC (Printf (''exec failed: %v'' @ [CHR 0x0A]) [ArgE e]));
              return (Exit 127)
            }
          | None \<Rightarrow> return Replaced
        })"

text \<open>The accessors of \<open>unix.WaitStatus\<close>.\<close>

definition statusExited :: "32 word \<Rightarrow> bool" where
  "statusExited w \<longleftrightarrow> w AND 0x7F = 0"

definition statusSignaled :: "32 word \<Rightarrow> bool" where
  "statusSignaled w \<longleftrightarrow> w AND 0x7F \<noteq> 0x7F \<and> w AND 0x7F \<noteq> 0"

definition exitStatus :: "32 word \<Rightarrow> int" where
  "exitStatus w = (if \<not> statusExited w then -1 else uint (drop_bit 8 w AND 0xFF))"

definition termSignal :: "32 word \<Rightarrow> int" where
  "termSignal w = (if \<not> statusSignaled w then -1 else uint (w AND 0x7F))"

definition exitCode :: "32 word \<Rightarrow> int" where
  "exitCode status =
     (if statusExited status then exitStatus status
      else if statusSignaled status then 128 + termSignal status
      else 0)"

text \<open>A failed wait leaves the status zero.\<close>

definition initWorkloadHandling :: "ContainerSpec \<Rightarrow> int \<Rightarrow> IPC \<Rightarrow> ('z os_scheme, unit outcome) state" where
  "initWorkloadHandling spec workloadPID ipc = do {
     _ \<leftarrow> SendWorkloadPID ipc workloadPID;
     obind (CollectCreatedNamespaceFDs spec) (\<lambda>handles. do {
       _ \<leftarrow> SendCreatedNamespaceFDs ipc handles;
       w \<leftarrow> sys_pair (PrC (Wait4 workloadPID));
       let status = (case w of Inl _ \<Rightarrow> 0 | Inr (_, st) \<Rightarrow> word_of_int st);
       _ \<leftarrow> (if IsNetRoot spec then do {
           _ \<leftarrow> LogInfo ''Init: %s Workload done, holding namespaces for joiners...'' [ArgS (ID spec)];
           _ \<leftarrow> sys (FdC (Close (snd (KeepAlive ipc))));
           _ \<leftarrow> WaitFd (fst (KeepAlive ipc));
           LogInfo ''Init: %s Released by Supervisor'' [ArgS (ID spec)]
         } else LogInfo ''Init: %s Workload done, exiting joiner'' [ArgS (ID spec)]);
       return (Exit (exitCode status))
     })
   }"

text \<open>Mounting is done by the containers that do not share their root's mount namespace.\<close>

definition ownMounts :: "ContainerSpec \<Rightarrow> bool" where
  "ownMounts spec \<longleftrightarrow> MOUNT (Namespaces spec) \<and> \<not> specJoinsNamespace spec NSMnt"

definition quit_with :: "string \<Rightarrow> ('z os_scheme, unit outcome) state" where
  "quit_with fmt = do { _ \<leftarrow> LogError fmt []; return (Exit 1) }"

definition setupRoot :: "ContainerSpec \<Rightarrow> ('z os_scheme, unit outcome) state" where
  "setupRoot spec =
     (if ownMounts spec then do {
        e \<leftarrow> PrepareRoot (FS spec);
        case e of Some _ \<Rightarrow> quit_with ''prepare'' | None \<Rightarrow> do {
        e \<leftarrow> PivotRoot (Rootfs (FS spec));
        case e of Some _ \<Rightarrow> quit_with ''pivotroot'' | None \<Rightarrow> do {
        _ \<leftarrow> sys (FsC (MkdirAll ''/proc''));
        _ \<leftarrow> sys (FsC (MkdirAll ''/sys''));
        return (Ret ())
        }}
      }
      else do {
        _ \<leftarrow> LogInfo ''Workload: mount setup already shared, skipping rootfs/pivot setup'' [];
        return (Ret ())
      })"

definition SetupRootAndSpawnWorkload :: "ContainerSpec \<Rightarrow> int \<Rightarrow> IPC \<Rightarrow> ('z os_scheme, unit outcome) state" where
  "SetupRootAndSpawnWorkload spec pid ipc =
     (if pid = 0 then do {
        _ \<leftarrow> setupIO spec ipc;
        obind (setupRoot spec) (\<lambda>_.
        obind (if ownMounts spec then do {
            e \<leftarrow> MountVirtualFS (FS spec);
            case e of Some _ \<Rightarrow> quit_with ''Error MountVirtualFS'' | None \<Rightarrow> return (Ret ())
          } else return (Ret ())) (\<lambda>_. do {
        _ \<leftarrow> LogInfo ''Workload: Applying Capabilities isolation'' [];
        obind (SetupCapabilities (Capabilities spec)) (\<lambda>_. do {
        _ \<leftarrow> (if IsNetRoot spec then WaitFd (fst (NetReady ipc)) else return ());
        obind (runWorkload spec) (\<lambda>_. do {
        _ \<leftarrow> LogError ''Workload: Returned unexpectedly'' [];
        return (Exit 127)
        })})}))
      }
      else do {
        _ \<leftarrow> sys (FdC (Close (snd (Log2Sup ipc))));
        _ \<leftarrow> sys (FdC (Close (fst (Log2Sup ipc))));
        initWorkloadHandling spec pid ipc
      })"

section \<open>The container's init\<close>

definition RunContainerInit :: "ContainerSpec \<Rightarrow> IPC \<Rightarrow> ('z os_scheme, unit outcome) state" where
  "RunContainerInit spec ipc = do {
     _ \<leftarrow> LogInfo ''Init: Start to Apply Namespaces'' [];
     obind (ApplyNamespaces spec ipc) (\<lambda>e.
       case e of
         Some e \<Rightarrow> do {
           _ \<leftarrow> LogError ('' Init: Failed to apply namespaces: %v'' @ [CHR 0x0A]) [ArgE e];
           _ \<leftarrow> LogError ('' Init: full spec: %+v'' @ [CHR 0x0A]) [];
           return (Exit 1)
         }
       | None \<Rightarrow>
           obind (if CGROUP (Namespaces spec) then SetupCgroups True (Cgroups spec) else return (Ret ())) (\<lambda>_. do {
             pid \<leftarrow> NewFork;
             case pid of
               Inl e \<Rightarrow> do { _ \<leftarrow> LogError ''Fork failed: %v'' [ArgE e]; return (Ret ()) }
             | Inr pid \<Rightarrow> obind (SetupRootAndSpawnWorkload spec pid ipc) (\<lambda>_. do {
                 _ \<leftarrow> sys (FdC (Close (snd (Init2Sup ipc))));
                 return (Ret ())
               })
           }))
   }"

section \<open>Exit codes\<close>

lemma uint_low7: "uint (w AND 0x7F) = uint w mod 128" for w :: "32 word"
proof -
  have "(0x7F :: 32 word) = mask 7" by (simp add: mask_eq_exp_minus_1)
  then have "uint (w AND 0x7F) = uint (take_bit 7 w)" by (simp only: take_bit_eq_mask)
  then show ?thesis by (simp add: uint_mod_distrib take_bit_eq_mod)
qed

lemma uint_byte1: "uint (drop_bit 8 w AND 0xFF) = uint w div 256 mod 256" for w :: "32 word"
proof -
  have "(0xFF :: 32 word) = mask 8" by (simp add: mask_eq_exp_minus_1)
  then have "uint (drop_bit 8 w AND 0xFF) = uint (take_bit 8 (drop_bit 8 w))"
    by (simp only: take_bit_eq_mask)
  then show ?thesis by (simp add: uint_mod_distrib uint_div_distrib drop_bit_eq_div take_bit_eq_mod)
qed

lemma status_bits:
  "statusExited w \<longleftrightarrow> uint w mod 128 = 0"
  "statusSignaled w \<longleftrightarrow> uint w mod 128 \<noteq> 127 \<and> uint w mod 128 \<noteq> 0"
  by (simp_all add: statusExited_def statusSignaled_def word_uint_eq_iff uint_low7)

text \<open>The status of a process, as \<open>wait\<close> lays it out: a code in the second byte, or a signal.\<close>

lemma exitCode_exited: "0 \<le> c \<Longrightarrow> c < 256 \<Longrightarrow> uint st = c * 256 \<Longrightarrow> exitCode st = c"
  by (simp add: exitCode_def status_bits exitStatus_def uint_byte1 mod_mult_right_eq)

lemma exitCode_signaled:
  "0 < sig \<Longrightarrow> sig < 127 \<Longrightarrow> core \<in> {0, 1} \<Longrightarrow> uint st = sig + 128 * core \<Longrightarrow> exitCode st = 128 + sig"
  by (auto simp: exitCode_def status_bits termSignal_def uint_low7)


lemma yields_nsTypeToProcPath:
  "ns \<in> set all_ns \<Longrightarrow> yields (nsTypeToProcPath ns) (\<lambda>r cs. \<exists>p. r = Ret p \<and> cs = [])"
  by (auto simp: all_ns_def intro!: yield_rules)

definition only_opens :: "call list \<Rightarrow> bool" where
  "only_opens cs \<longleftrightarrow> (\<forall>c \<in> set cs. \<exists>p. c = FsC (OpenPath p))"

lemma yields_collect_loop:
  "set nss \<subseteq> set all_ns \<Longrightarrow> yields (collect_loop spec nss fds) (\<lambda>r cs. (\<exists>m. r = Ret m) \<and> only_opens cs)"
proof (induction nss arbitrary: fds)
  case Nil
  show ?case by (simp add: yield_rules only_opens_def)
next
  case (Cons ns nss)
  have "set nss \<subseteq> set all_ns" and ns: "ns \<in> set all_ns" using Cons.prems by simp_all
  note IH = Cons.IH [OF this(1)]
  show ?case
    unfolding collect_loop.simps
    by (rule yield_rules | rule yields_mono [OF IH]
        | rule yields_obind, rule yields_mono [OF yields_nsTypeToProcPath [OF ns]]
        | clarsimp simp: only_opens_def)+
qed

lemma yields_CollectCreated:
  "yields (CollectCreatedNamespaceFDs spec) (\<lambda>r cs. (\<exists>m. r = Ret m) \<and> only_opens cs)"
  unfolding CollectCreatedNamespaceFDs_def by (rule yields_collect_loop) simp

text \<open>
  The phases of a container's init once the workload runs, \<open>opens\<close> being the calls that collect the
  descriptors of the created namespaces and \<open>created\<close> what was collected: the pid is sent, the
  descriptors are collected and sent, each next to the code of its type, the workload is waited for.
\<close>

definition init_phases ::
  "ContainerSpec \<Rightarrow> int \<Rightarrow> IPC \<Rightarrow> call list \<Rightarrow> (NamespaceType, int) gomap \<Rightarrow> call list" where
  "init_phases spec pid ipc opens created =
     FdC (Sendmsg (snd (Init2Sup ipc)) (PutUint32 (word_of_int pid)) []) # opens @
       [FdC (Sendmsg (snd (Init2Sup ipc)) (nsBytes (map_keys created)) (map snd created)), PrC (Wait4 pid)] @
       (if IsNetRoot spec
        then [UiC (Log TypeInfo ''Init: %s Workload done, holding namespaces for joiners...'' [ArgS (ID spec)]),
          FdC (Close (snd (KeepAlive ipc))), FdC (Read (fst (KeepAlive ipc))),
          FdC (Close (fst (KeepAlive ipc))),
          UiC (Log TypeInfo ''Init: %s Released by Supervisor'' [ArgS (ID spec)])]
        else [UiC (Log TypeInfo ''Init: %s Workload done, exiting joiner'' [ArgS (ID spec)])])"

lemma CollectCreated_run:
  "\<exists>m. run_state (CollectCreatedNamespaceFDs spec) s = (Ret m, with_calls (calls (CollectCreatedNamespaceFDs spec) s) s) \<and>
     distinct (map_keys m) \<and> (\<forall>ns \<in> set (map_keys m). specWantsNamespace spec ns \<and> \<not> specJoinsNamespace spec ns)"
proof -
  have "sorted (map_keys [] @ all_ns)" "distinct (map_keys [] @ all_ns)"
    by (simp_all add: all_ns_def less_eq_NamespaceType_def)
  from collect_loop_run [OF subset_refl this, of spec s] obtain m cs where
    r: "run_state (CollectCreatedNamespaceFDs spec) s = (Ret m, with_calls cs s)"
    and "collected spec [] all_ns (opensAll s) (map_keys m)"
    by (auto simp: CollectCreatedNamespaceFDs_def)
  then have "distinct (map_keys m)" "\<forall>ns \<in> set (map_keys m). specWantsNamespace spec ns \<and> \<not> specJoinsNamespace spec ns"
    by (auto simp: collected_def createsNs_def)
  with r show ?thesis by (intro exI [of _ m]) (simp add: calls_def)
qed

text \<open>
  C21: the exit code of a container's init is its workload's, as a shell reports it: the code of a
  workload that exited, 128 plus the number of the signal that killed it. Before it exits, it
  has sent the supervisor the workload's pid, then the namespace descriptors that
  \<open>CollectCreatedNamespaceFDs\<close> returned (which are of distinct types the specification wants and
  does not join), each next to the code of its type, and has waited for the workload; the init of a
  net root then gives up its own end of the keep-alive pipe and waits on the other, so that its
  namespaces outlive the workload.
\<close>

theorem init_reports_and_exits:
  assumes "\<And>t. o_pair s t (PrC (Wait4 pid)) = Inr (pid, st)" and "0 \<le> st" and "st < 2 ^ 32"
  shows "result (initWorkloadHandling spec pid ipc) s = Exit (exitCode (word_of_int st)) \<and>
    (let collect = CollectCreatedNamespaceFDs spec;
         s1 = emit (FdC (Sendmsg (snd (Init2Sup ipc)) (PutUint32 (word_of_int pid)) [])) s
     in \<exists>created. result collect s1 = Ret created \<and> distinct (map_keys created) \<and>
       (\<forall>ns \<in> set (map_keys created). specWantsNamespace spec ns \<and> \<not> specJoinsNamespace spec ns) \<and>
       calls (initWorkloadHandling spec pid ipc) s = init_phases spec pid ipc (calls collect s1) created) \<and>
    (\<forall>c. 0 \<le> c \<and> c < 256 \<and> st = c * 256 \<longrightarrow> result (initWorkloadHandling spec pid ipc) s = Exit c) \<and>
    (\<forall>sig core. 0 < sig \<and> sig < 127 \<and> core \<in> {0, 1} \<and> st = sig + 128 * core \<longrightarrow>
      result (initWorkloadHandling spec pid ipc) s = Exit (128 + sig))"
proof -
  have u: "uint (word_of_int st :: 32 word) = st"
    using assms(2,3) by (simp add: unsigned_of_int take_bit_eq_mod)
  let ?c = "CollectCreatedNamespaceFDs spec"
  let ?s = "emit (FdC (Sendmsg (snd (Init2Sup ipc)) (PutUint32 (word_of_int pid)) [])) s"
  obtain m where m: "run_state ?c ?s = (Ret m, with_calls (calls ?c ?s) ?s)"
    and k: "distinct (map_keys m)" "\<forall>ns \<in> set (map_keys m). specWantsNamespace spec ns \<and> \<not> specJoinsNamespace spec ns"
    using CollectCreated_run [of spec ?s] by blast
  have "run_state (initWorkloadHandling spec pid ipc) s =
      (Exit (exitCode (word_of_int st)), with_calls (init_phases spec pid ipc (calls ?c ?s) m) s)"
    by (simp add: initWorkloadHandling_def SendWorkloadPID_def SendCreatedNamespaceFDs_def m
        assms(1) init_phases_def Let_def)
  then have r: "result (initWorkloadHandling spec pid ipc) s = Exit (exitCode (word_of_int st))"
    and c: "calls (initWorkloadHandling spec pid ipc) s = init_phases spec pid ipc (calls ?c ?s) m"
    by (simp_all add: result_def calls_def)
  have "result ?c ?s = Ret m" using m by (simp add: result_def)
  with c k have "let collect = ?c; s1 = ?s
     in \<exists>created. result collect s1 = Ret created \<and> distinct (map_keys created) \<and>
       (\<forall>ns \<in> set (map_keys created). specWantsNamespace spec ns \<and> \<not> specJoinsNamespace spec ns) \<and>
       calls (initWorkloadHandling spec pid ipc) s = init_phases spec pid ipc (calls collect s1) created"
    unfolding Let_def by blast
  then show ?thesis
    using r exitCode_exited [of _ "word_of_int st"] exitCode_signaled [of _ _ "word_of_int st"] u
    by auto
qed

theorem init_reports_and_exits_witness:
  "result (initWorkloadHandling DefaultSpec 42 ex_ipc)
    (quiet_os\<lparr>o_pair := \<lambda>_ _. Inr (42, 9)\<rparr>) = Exit 137 \<and>
   (\<exists>created opens. calls (initWorkloadHandling DefaultSpec 42 ex_ipc) (quiet_os\<lparr>o_pair := \<lambda>_ _. Inr (42, 9)\<rparr>) =
      init_phases DefaultSpec 42 ex_ipc opens created)"
proof -
  have "\<And>t. o_pair (quiet_os\<lparr>o_pair := \<lambda>_ _. Inr (42, 9)\<rparr>) t (PrC (Wait4 42)) = Inr (42, 9)"
    by simp
  note h = init_reports_and_exits [OF this, of DefaultSpec ex_ipc]
  then have "result (initWorkloadHandling DefaultSpec 42 ex_ipc)
    (quiet_os\<lparr>o_pair := \<lambda>_ _. Inr (42, 9)\<rparr>) = Exit 137" by force
  with h show ?thesis by (auto simp: Let_def)
qed

section \<open>The handshake for the user namespace\<close>

definition handshake :: "string \<Rightarrow> int \<Rightarrow> int \<Rightarrow> IPC \<Rightarrow> call list" where
  "handshake pid uid gid ipc =
     [FsC (WriteFile (''/proc/'' @ pid @ ''/setgroups'') ''deny''),
      PrC Getuid, FsC (WriteFile (''/proc/'' @ pid @ ''/uid_map'') (''0 '' @ Itoa uid @ '' 1'' @ [CHR 0x0A])),
      PrC Getgid, FsC (WriteFile (''/proc/'' @ pid @ ''/gid_map'') (''0 '' @ Itoa gid @ '' 1'' @ [CHR 0x0A])),
      FdC (Write (snd (UserNSPipe ipc)) [CHR 0x01])]"

fun is_log :: "call \<Rightarrow> bool" where
  "is_log (UiC (Log _ _ _)) = True"
| "is_log _ = False"

text \<open>
  \<open>upto_failure\<close>: a list of calls up to and including the first write that fails, the answers
  being asked after each call for the next.
\<close>

fun can_fail :: "call \<Rightarrow> bool" where
  "can_fail (FsC (WriteFile _ _)) = True"
| "can_fail (FdC (Write _ _)) = True"
| "can_fail _ = False"

fun upto_failure :: "'z os_scheme \<Rightarrow> call list \<Rightarrow> call list \<Rightarrow> call list" where
  "upto_failure s t [] = []"
| "upto_failure s t (c # cs) =
     (if can_fail c \<and> o_err s t c \<noteq> None then [c] else c # upto_failure s (t @ [c]) cs)"

fun first_failure :: "'z os_scheme \<Rightarrow> call list \<Rightarrow> call list \<Rightarrow> err option" where
  "first_failure s t [] = None"
| "first_failure s t (c # cs) =
     (if can_fail c \<and> o_err s t c \<noteq> None then o_err s t c else first_failure s (t @ [c]) cs)"

text \<open>
  C22: the supervisor lets a container go on with its user namespace only when \<open>setgroups\<close> is
  denied and both id maps are written: apart from the messages it logs, what it does is exactly
  that sequence up to the first write that fails, whose error it returns; so the byte into the pipe,
  the last call of the sequence, is written exactly when none of the three writes before it failed.
\<close>

theorem userns_handshake:
  assumes "\<And>t. o_int s t (PrC Getuid) = Inr uid" and "\<And>t. o_int s t (PrC Getgid) = Inr gid"
  shows "let steps = handshake (Itoa pid) uid gid ipc in
    filter (\<lambda>c. \<not> is_log c) (calls (SetupUserNSAndContinue pid ipc) s) = upto_failure s (trace s) steps \<and>
    (result (SetupUserNSAndContinue pid ipc) s = None \<longleftrightarrow> first_failure s (trace s) steps = None) \<and>
    (last steps \<in> set (calls (SetupUserNSAndContinue pid ipc) s) \<longleftrightarrow>
      first_failure s (trace s) (butlast steps) = None)"
proof -
  let ?c1 = "FsC (WriteFile (''/proc/'' @ Itoa pid @ ''/setgroups'') ''deny'')"
  let ?c2 = "FsC (WriteFile (''/proc/'' @ Itoa pid @ ''/uid_map'') (''0 '' @ Itoa uid @ '' 1'' @ [CHR 0x0A]))"
  let ?c3 = "FsC (WriteFile (''/proc/'' @ Itoa pid @ ''/gid_map'') (''0 '' @ Itoa gid @ '' 1'' @ [CHR 0x0A]))"
  let ?t2 = "trace s @ [?c1, PrC Getuid]"
  let ?t3 = "?t2 @ [?c2, PrC Getgid]"
  note d = SetupUserNSAndContinue_def denySetgroups_def writeUIDMap_def writeGIDMap_def
      calls_def result_def handshake_def assms Let_def idOf_def
  show ?thesis
  proof (cases "o_err s (trace s) ?c1")
    case None
    note e1 = this
    show ?thesis
    proof (cases "o_err s ?t2 ?c2")
      case None
      note e2 = this
      show ?thesis
      proof (cases "o_err s ?t3 ?c3")
        case None
        with e1 e2 show ?thesis by (simp add: d)
      qed (use e1 e2 in \<open>simp add: d\<close>)
    qed (use e1 in \<open>simp add: d\<close>)
  qed (simp add: d)
qed

theorem userns_handshake_witness:
  "filter (\<lambda>c. \<not> is_log c) (calls (SetupUserNSAndContinue 42 ex_ipc) (quiet_os\<lparr>o_int := \<lambda>_ _. Inr 1000\<rparr>)) =
    handshake ''42'' 1000 1000 ex_ipc"
proof -
  have "\<And>t. o_int (quiet_os\<lparr>o_int := \<lambda>_ _. Inr 1000\<rparr>) t (PrC Getuid) = Inr 1000"
    "\<And>t. o_int (quiet_os\<lparr>o_int := \<lambda>_ _. Inr 1000\<rparr>) t (PrC Getgid) = Inr 1000" by simp_all
  note h = userns_handshake [OF this, of 42 ex_ipc]
  have "Itoa 42 = ''42''" by code_simp
  with h show ?thesis by (simp add: Let_def handshake_def quiet_os_def)
qed

section \<open>Which namespaces a container is in\<close>

fun cloneFlag :: "NamespaceType \<Rightarrow> cflag option" where
  "cloneFlag NSUser = Some CLONE_NEWUSER"
| "cloneFlag NSNet = Some CLONE_NEWNET"
| "cloneFlag NSMnt = Some CLONE_NEWNS"
| "cloneFlag NSPID = Some CLONE_NEWPID"
| "cloneFlag NSIPC = Some CLONE_NEWIPC"
| "cloneFlag NSUTS = Some CLONE_NEWUTS"
| "cloneFlag NSCgroup = Some CLONE_NEWCGROUP"
| "cloneFlag (NSOther _) = None"

lemma yields_nsTypeToCloneFlag:
  "yields (nsTypeToCloneFlag t) (\<lambda>r cs. (\<exists>f. cloneFlag t = Some f \<and> r = Ret f \<and> cs = []) \<or>
    (\<exists>p. r = Panic p))"
  by (cases t) (simp_all, (rule yield_rules | simp)+)

fun is_nscall :: "call \<Rightarrow> bool" where
  "is_nscall (PrC (Setns _ _)) = True"
| "is_nscall (PrC (Unshare _)) = True"
| "is_nscall _ = False"

definition joinCalls :: "(NamespaceType, int) gomap \<Rightarrow> call list" where
  "joinCalls shared = map (\<lambda>(ns, fd). PrC (Setns fd (the (cloneFlag ns))))
     (filter (\<lambda>(ns, _). ns \<noteq> NSUser) shared)"

lemma yields_joinShared:
  "yields (joinShared shared) (\<lambda>r cs. r = Ret None \<longrightarrow>
    filter is_nscall cs = joinCalls shared \<and> (\<forall>ns \<in> fst ` set shared. cloneFlag ns \<noteq> None))"
proof (induction shared)
  case Nil
  show ?case by (simp add: yield_rules joinCalls_def)
next
  case (Cons p shared)
  obtain ns fd where p: "p = (ns, fd)" by (cases p)
  show ?case
    unfolding p joinShared.simps
    by (rule yield_rules | rule yields_mono [OF Cons.IH]
        | rule yields_obind, rule yields_mono [OF yields_nsTypeToCloneFlag], elim disjE exE conjE, simp_all only: outcome.case
        | clarsimp simp: joinCalls_def)+
qed

lemma yields_cloneFlag_ok:
  "t \<in> set all_ns \<Longrightarrow> yields (nsTypeToCloneFlag t) (\<lambda>r cs. r = Ret (the (cloneFlag t)) \<and> cs = [])"
  by (auto simp: all_ns_def intro!: yield_rules)

lemma yields_unshareFlags:
  "set nss \<subseteq> set all_ns \<Longrightarrow> yields (unshareFlags spec shared nss flags) (\<lambda>r cs. cs = [] \<and>
    r = Ret (flags @ map (the \<circ> cloneFlag)
      (filter (\<lambda>ns. specWantsNamespace spec ns \<and> map_get shared ns = None) nss)))"
proof (induction nss arbitrary: flags)
  case Nil
  show ?case by (simp add: yield_rules)
next
  case (Cons ns nss)
  have "set nss \<subseteq> set all_ns" and ns: "ns \<in> set all_ns" using Cons.prems by simp_all
  note IH = Cons.IH [OF this(1)]
  show ?case
    unfolding unshareFlags.simps
    by (rule yield_rules yields_mono [OF IH] yields_obind_rule [OF yields_cloneFlag_ok [OF ns]] | clarsimp)+
qed

definition userCalls :: "ContainerSpec \<Rightarrow> (NamespaceType, int) gomap \<Rightarrow> call list" where
  "userCalls spec shared =
     (case map_get shared NSUser of
        Some fd \<Rightarrow> [PrC (Setns fd CLONE_NEWUSER)]
      | None \<Rightarrow> if USER (Namespaces spec) then [PrC (Unshare [CLONE_NEWUSER])] else [])"

lemma yields_enterUserNS:
  "yields (enterUserNS spec ipc shared) (\<lambda>r cs. r = None \<longrightarrow> filter is_nscall cs = userCalls spec shared)"
  unfolding enterUserNS_def userCalls_def
  by (cases "map_get shared NSUser") (simp_all only: option.case, (rule yield_rules | simp)+)

definition newNamespaces :: "ContainerSpec \<Rightarrow> (NamespaceType, int) gomap \<Rightarrow> NamespaceType list" where
  "newNamespaces spec shared =
     filter (\<lambda>ns. specWantsNamespace spec ns \<and> map_get shared ns = None)
       [NSNet, NSMnt, NSPID, NSIPC, NSUTS, NSCgroup]"

lemma yields_new_flags:
  "yields (unshareFlags spec shared [NSNet, NSMnt, NSPID, NSIPC, NSUTS, NSCgroup] [])
    (\<lambda>r cs. cs = [] \<and> r = Ret (map (the \<circ> cloneFlag) (newNamespaces spec shared)))"
  unfolding newNamespaces_def by (rule yields_mono [OF yields_unshareFlags]) (auto simp: all_ns_def)

definition unshareCalls :: "ContainerSpec \<Rightarrow> (NamespaceType, int) gomap \<Rightarrow> call list" where
  "unshareCalls spec shared =
     (if newNamespaces spec shared = [] then []
      else [PrC (Unshare (map (the \<circ> cloneFlag) (newNamespaces spec shared)))])"

text \<open>
  What a container's init does to its namespaces: the user namespace first, then those joined,
  then all new ones in one call, and the propagation of mounts cut off at the end.
\<close>

definition namespaced :: "ContainerSpec \<Rightarrow> (NamespaceType, int) gomap \<Rightarrow> call list \<Rightarrow> bool" where
  "namespaced spec shared cs \<longleftrightarrow>
     filter is_nscall cs = userCalls spec shared @ joinCalls shared @ unshareCalls spec shared \<and>
     (\<forall>ns \<in> fst ` set shared. cloneFlag ns \<noteq> None) \<and>
     (Shares spec = [] \<longrightarrow> shared = []) \<and>
     (MOUNT (Namespaces spec) \<longrightarrow> cs \<noteq> [] \<and> last cs = FsC (Mount '''' ''/'' '''' [MS_REC, MS_PRIVATE] ''''))"

lemma yields_enterNamespaces:
  "(Shares spec = [] \<longrightarrow> shared = []) \<Longrightarrow>
    yields (enterNamespaces spec ipc shared) (\<lambda>r cs. r = Ret None \<longrightarrow> namespaced spec shared cs)"
  unfolding enterNamespaces_def flagsChecks_def
  by (rule yield_rules yields_bind_rule [OF yields_enterUserNS]
      yields_obind_rule [OF yields_joinShared] yields_obind_rule [OF yields_new_flags]
     | rule yields_bind
     | (simp add: namespaced_def unshareCalls_def; fail)
     | (simp; fail))+

text \<open>The descriptors a container shares: those of the message it receives, if it asked for any.\<close>

definition sharedFds :: "ContainerSpec \<Rightarrow> IPC \<Rightarrow> 'z os_scheme \<Rightarrow> (NamespaceType, int) gomap outcome" where
  "sharedFds spec ipc s = (if Shares spec \<noteq> [] then result (RecvNamespaceFDs ipc) s else Ret [])"

lemma ApplyNamespaces_shared:
  assumes "result (ApplyNamespaces spec ipc) s = Ret None"
  shows "\<exists>shared. sharedFds spec ipc s = Ret shared \<and> namespaced spec shared (calls (ApplyNamespaces spec ipc) s)"
proof -
  let ?c = "FdC (Recvmsg (fst (Sup2Init ipc)) 32)"
  define s1 where "s1 = (if Shares spec \<noteq> [] then emit ?c s else s)"
  define got where "got = (if Shares spec \<noteq> [] then [?c] else [])"
  have s1: "s1 = with_calls got s" by (simp add: s1_def got_def emit_with_calls)
  have "run_state (if Shares spec \<noteq> [] then RecvNamespaceFDs ipc else return (Ret [])) s = (sharedFds spec ipc s, s1)"
    by (simp add: sharedFds_def s1_def result_def RecvNamespaceFDs_def)
  then have r: "run_state (ApplyNamespaces spec ipc) s =
      (case sharedFds spec ipc s of Ret shared \<Rightarrow> run_state (enterNamespaces spec ipc shared) s1
       | Exit n \<Rightarrow> (Exit n, s1) | Panic p \<Rightarrow> (Panic p, s1) | Replaced \<Rightarrow> (Replaced, s1))"
    by (simp add: ApplyNamespaces_def split: outcome.split)
  with assms obtain shared where sh: "sharedFds spec ipc s = Ret shared"
    by (cases "sharedFds spec ipc s") (auto simp: result_def)
  have empty: "Shares spec = [] \<longrightarrow> shared = []" using sh by (auto simp: sharedFds_def)
  from yieldsD [OF yields_enterNamespaces [OF empty], of ipc s1]
  have n: "namespaced spec shared (calls (enterNamespaces spec ipc shared) s1)"
    using assms r sh by (simp add: result_def)
  have a: "run_state (enterNamespaces spec ipc shared) s1 =
      (result (enterNamespaces spec ipc shared) s1, with_calls (calls (enterNamespaces spec ipc shared) s1) s1)"
    using appends_run [OF yields_appends [OF yields_enterNamespaces [OF empty]], of ipc s1] by simp
  have "calls (ApplyNamespaces spec ipc) s = got @ calls (enterNamespaces spec ipc shared) s1"
    using a by (simp add: calls_def [of "ApplyNamespaces spec ipc"] r sh s1)
  with n sh show ?thesis by (auto simp: namespaced_def got_def)
qed

lemma newNamespaces_iff:
  "ns \<in> set (newNamespaces spec shared) \<longleftrightarrow>
    ns \<in> set all_ns \<and> ns \<noteq> NSUser \<and> specWantsNamespace spec ns \<and> map_get shared ns = None"
proof -
  have "ns \<in> set [NSNet, NSMnt, NSPID, NSIPC, NSUTS, NSCgroup] \<longleftrightarrow> ns \<in> set all_ns \<and> ns \<noteq> NSUser"
    by (cases ns) (simp_all add: all_ns_def)
  then show ?thesis
    unfolding newNamespaces_def by (simp only: set_filter mem_Collect_eq) blast
qed

text \<open>
  C20: a container that went through \<open>ApplyNamespaces\<close> without an error is where its specification
  puts it. The descriptors it shares are those of the message it received, none if it asked for
  none; every one of them was joined, at the descriptor received and as its type, and none of these
  types was created; every other namespace type it wants was created; in the order user namespace,
  shared ones, new ones. And mounts no longer propagate if it has its mounts apart.
\<close>

theorem namespaces_applied:
  assumes "result (ApplyNamespaces spec ipc) s = Ret None"
  shows "\<exists>shared. sharedFds spec ipc s = Ret shared \<and> namespaced spec shared (calls (ApplyNamespaces spec ipc) s) \<and>
    (\<forall>ns \<in> set all_ns. specWantsNamespace spec ns \<longrightarrow>
      (case map_get shared ns of
         Some fd \<Rightarrow> PrC (Setns fd (the (cloneFlag ns))) \<in> set (calls (ApplyNamespaces spec ipc) s)
       | None \<Rightarrow> \<exists>fl. the (cloneFlag ns) \<in> set fl \<and>
           PrC (Unshare fl) \<in> set (calls (ApplyNamespaces spec ipc) s)))"
proof -
  let ?cs = "calls (ApplyNamespaces spec ipc) s"
  from ApplyNamespaces_shared [OF assms] obtain shared where
    sh: "sharedFds spec ipc s = Ret shared" and n: "namespaced spec shared ?cs" by blast
  from n have f: "filter is_nscall ?cs = userCalls spec shared @ joinCalls shared @ unshareCalls spec shared"
    by (simp add: namespaced_def)
  have sub: "c \<in> set ?cs" if "c \<in> set (userCalls spec shared @ joinCalls shared @ unshareCalls spec shared)" for c
    using that unfolding f [symmetric] by simp
  have "case map_get shared ns of
         Some fd \<Rightarrow> PrC (Setns fd (the (cloneFlag ns))) \<in> set ?cs
       | None \<Rightarrow> \<exists>fl. the (cloneFlag ns) \<in> set fl \<and> PrC (Unshare fl) \<in> set ?cs"
    if ns: "ns \<in> set all_ns" and w: "specWantsNamespace spec ns" for ns
  proof (cases "map_get shared ns")
    case None
    show ?thesis
    proof (cases "ns = NSUser")
      case True
      then have "PrC (Unshare [CLONE_NEWUSER]) \<in> set ?cs"
        using None w by (intro sub) (simp add: userCalls_def)
      with True None show ?thesis by (auto intro!: exI [of _ "[CLONE_NEWUSER]"])
    next
      case False
      then have new: "ns \<in> set (newNamespaces spec shared)"
        using w None by (simp only: newNamespaces_iff ns simp_thms)
      then have "PrC (Unshare (map (the \<circ> cloneFlag) (newNamespaces spec shared))) \<in> set ?cs"
        by (intro sub) (auto simp: unshareCalls_def)
      with new None show ?thesis
        by (auto intro!: exI [of _ "map (the \<circ> cloneFlag) (newNamespaces spec shared)"])
    qed
  next
    case (Some fd)
    have "PrC (Setns fd (the (cloneFlag ns))) \<in> set ?cs"
    proof (rule sub, cases "ns = NSUser")
      case False
      with Some have "(ns, fd) \<in> set (filter (\<lambda>(ns, _). ns \<noteq> NSUser) shared)" by (auto dest: map_of_SomeD)
      then have "PrC (Setns fd (the (cloneFlag ns))) \<in> set (joinCalls shared)"
        unfolding joinCalls_def by (force simp: image_iff)
      then show "PrC (Setns fd (the (cloneFlag ns))) \<in>
          set (userCalls spec shared @ joinCalls shared @ unshareCalls spec shared)" by simp
    qed (use Some in \<open>simp add: userCalls_def\<close>)
    with Some show ?thesis by simp
  qed
  with n sh show ?thesis by blast
qed

text \<open>A joiner of a pod's network: the message brings one descriptor, which is 7 on its side.\<close>

definition ex_joiner :: ContainerSpec where
  "ex_joiner = DefaultSpec\<lparr>Shares := [\<lparr>ShareType = NSNet, FromContainer = ''bctor-a1''\<rparr>]\<rparr>"

definition ex_message :: os where
  "ex_message = quiet_os\<lparr>o_msg := \<lambda>_ _. Inr (nsBytes [NSNet], Rights [7])\<rparr>"

theorem namespaces_applied_witness:
  "PrC (Setns 7 CLONE_NEWNET) \<in> set (calls (ApplyNamespaces ex_joiner ex_ipc) ex_message) \<and>
   (\<exists>fl. CLONE_NEWPID \<in> set fl \<and> PrC (Unshare fl) \<in> set (calls (ApplyNamespaces ex_joiner ex_ipc) ex_message))"
proof -
  have e: "o_err ex_message t c = None" for t c by (simp add: quiet_os_def ex_message_def)
  have d: "Shares ex_joiner \<noteq> []" "Namespaces ex_joiner = \<lparr>USER = True, NET = True, MOUNT = True,
      PIDNS = True, IPCNS = False, UTS = False, CGROUP = False\<rparr>" by (simp_all add: ex_joiner_def DefaultSpec_def)
  have m: "decodeShared (nsBytes [NSNet]) (Rights [7]) = Ret [(NSNet, 7)]"
    by code_simp
  have sh: "sharedFds ex_joiner ex_ipc ex_message = Ret [(NSNet, 7)]"
    by (simp add: sharedFds_def d result_def RecvNamespaceFDs_def ex_message_def m)
  have "o_msg ex_message t c = Inr (nsBytes [NSNet], Rights [7])" for t c by (simp add: ex_message_def)
  then have "result (ApplyNamespaces ex_joiner ex_ipc) ex_message = Ret None"
    by (simp add: ApplyNamespaces_def RecvNamespaceFDs_def enterNamespaces_def enterUserNS_def flagsChecks_def
        result_def d e m)
  from namespaces_applied [OF this] sh
  have "\<forall>ns \<in> set all_ns. specWantsNamespace ex_joiner ns \<longrightarrow>
      (case map_get [(NSNet, 7)] ns of
         Some fd \<Rightarrow> PrC (Setns fd (the (cloneFlag ns))) \<in> set (calls (ApplyNamespaces ex_joiner ex_ipc) ex_message)
       | None \<Rightarrow> \<exists>fl. the (cloneFlag ns) \<in> set fl \<and>
           PrC (Unshare fl) \<in> set (calls (ApplyNamespaces ex_joiner ex_ipc) ex_message))"
    by auto
  from bspec [OF this, of NSNet] bspec [OF this, of NSPID] show ?thesis
    by (simp add: all_ns_def d)
qed

section \<open>The way to the workload\<close>

text \<open>
  Calls that give the process another program, other namespaces or a child (\<open>process_call\<close>), and
  besides them those that change its capabilities; \<open>plain\<close> lists have none of either.
\<close>

definition special :: "call \<Rightarrow> bool" where
  "special c \<longleftrightarrow> process_call c \<or> cap_call c"

definition plain :: "call list \<Rightarrow> bool" where
  "plain cs \<longleftrightarrow> (\<forall>c \<in> set cs. \<not> special c)"

definition no_process :: "call list \<Rightarrow> bool" where
  "no_process cs \<longleftrightarrow> (\<forall>c \<in> set cs. \<not> process_call c)"

declare special_def [simp]

lemma plain_simps [simp]:
  "plain []" "plain (c # cs) \<longleftrightarrow> \<not> special c \<and> plain cs" "plain (cs @ ds) \<longleftrightarrow> plain cs \<and> plain ds"
  by (auto simp: plain_def)

lemma no_process_simps [simp]:
  "no_process []" "no_process (c # cs) \<longleftrightarrow> \<not> process_call c \<and> no_process cs"
  "no_process (cs @ ds) \<longleftrightarrow> no_process cs \<and> no_process ds"
  by (auto simp: no_process_def)

lemma plain_no_process: "plain cs \<Longrightarrow> no_process cs"
  by (auto simp: plain_def no_process_def)

lemma plain_caps: "plain cs \<Longrightarrow> caps_after cs k = k"
proof (induction cs arbitrary: k)
  case (Cons c cs)
  have "cap_step c k = k" if "\<not> cap_call c" for c
    using that by (cases "(c, k)" rule: cap_step.cases) (auto split: prcall.split)
  with Cons show ?case by simp
qed simp

text \<open>What must have been called before the workload is started, in this order.\<close>

definition rootCalls :: "string \<Rightarrow> call list" where
  "rootCalls root =
     [FsC (Mount '''' ''/'' '''' [MS_REC, MS_PRIVATE] ''''),
      FsC (Mount root root '''' [MS_BIND, MS_REC] ''''),
      FsC (Mount '''' root '''' [MS_REC, MS_PRIVATE] '''')]"

definition pivotCalls :: "string \<Rightarrow> call list" where
  "pivotCalls root =
     [FsC (Chdir root), FsC (PivotRootTo root (PathJoin [root, ''.pivot_old''])), FsC (Chdir ''/''),
      FsC (UnmountDetach ''/.pivot_old''), FsC (RemoveAll ''/.pivot_old'')]"

definition readOnlyCalls :: "FSConfig \<Rightarrow> call list" where
  "readOnlyCalls cfg =
     (if ReadOnly cfg then [FsC (Mount '''' ''/'' '''' [MS_BIND, MS_REMOUNT, MS_RDONLY, MS_REC] '''')] else [])"

definition isolation :: "ContainerSpec \<Rightarrow> IPC \<Rightarrow> call list" where
  "isolation spec ipc =
     (if ownMounts spec
      then rootCalls (Rootfs (FS spec)) @ pivotCalls (Rootfs (FS spec)) @ readOnlyCalls (FS spec) else []) @
     lowering (AllowCaps (Capabilities spec)) @
     (if IsNetRoot spec then [FdC (Read (fst (NetReady ipc)))] else [])"

lemma yields_fail_with:
  "yields (fail_with fmt e) (\<lambda>r cs. r \<noteq> None \<and> plain cs)"
  unfolding fail_with_def by (rule yield_rules | simp)+

lemma yields_PivotRoot:
  "yields (PivotRoot root) (\<lambda>r cs. plain cs \<and> (r = None \<longrightarrow> cs = pivotCalls root))"
  unfolding PivotRoot_def pivotCalls_def Let_def
  by (rule yield_rules | rule yields_mono [OF yields_fail_with], (auto; fail) | (simp; fail))+

lemma yields_bindDevice: "yields (bindDevice p d) (\<lambda>_ cs. \<forall>c \<in> set cs. \<not> special c)"
  unfolding bindDevice_def Let_def by (rule yield_rules | simp)+

lemma yields_for_each_all:
  assumes "\<And>x. yields (f x) (\<lambda>_ cs. \<forall>c \<in> set cs. S c)"
  shows "yields (for_each xs f) (\<lambda>_ cs. \<forall>c \<in> set cs. S c)"
proof (induction xs)
  case (Cons x xs)
  show ?case unfolding for_each.simps
    by (rule yields_bind_rule [OF assms], rule yields_mono [OF Cons.IH]) auto
qed (simp add: yield_rules)

lemma yields_installBusybox: "yields (installBusybox p) (\<lambda>_ cs. \<forall>c \<in> set cs. \<not> special c)"
proof -
  have l: "yields (do { _ \<leftarrow> sys (FsC (Remove t)); sys (FsC (Symlink ''busybox'' t)) })
      (\<lambda>_ cs. \<forall>c \<in> set cs. \<not> special c)" for t
    by (rule yield_rules | simp)+
  show ?thesis
    unfolding installBusybox_def Let_def
    by (rule yield_rules | rule yields_bind | rule yields_mono [OF yields_for_each_all [OF l]] | simp | auto)+
qed

lemma subseq_Cons_skip: "subseq xs ys \<Longrightarrow> subseq xs (y # ys)"
  by (rule list_emb_Cons)

lemma yields_PrepareRoot:
  "yields (PrepareRoot cfg) (\<lambda>r cs. plain cs \<and> (r = None \<longrightarrow> subseq (rootCalls (Rootfs cfg)) cs))"
  unfolding PrepareRoot_def rootCalls_def Let_def
  by (rule yield_rules yields_bind_rule [OF yields_installBusybox]
      yields_bind_rule [OF yields_for_each_err_all [OF yields_bindDevice]]
     | rule yields_mono [OF yields_fail_with], (auto simp: plain_def; fail) 
     | (auto simp: plain_def; fail))+

lemma yields_mountWritable: "yields (mountWritable d) (\<lambda>_ cs. \<forall>c \<in> set cs. \<not> special c)"
  unfolding mountWritable_def by (rule yield_rules | (simp; fail))+

lemma yields_proc:
  "yields (if b then do {
       e \<leftarrow> sys_err (FsC (Mount ''proc'' ''/proc'' ''proc'' fl ''''));
       if e \<noteq> None then do {
         _ \<leftarrow> sys (FsC (UnmountDetach ''/proc''));
         sys (FsC (Mount ''proc'' ''/proc'' ''proc'' [] ''''))
       } else return () } else return ()) (\<lambda>_. plain)"
  by (rule yield_rules | (simp; fail))+

lemma yields_sysfs:
  "yields (if b then do {
       e \<leftarrow> sys_err (FsC (Mount ''sysfs'' ''/sys'' ''sysfs'' fl ''''));
       case e of None \<Rightarrow> return None
       | Some e \<Rightarrow> if e \<noteq> Errno EPERM then fail_with fmt e else return None
     } else return None) (\<lambda>_. plain)"
  by (rule yield_rules | rule yields_mono [OF yields_fail_with], (auto; fail) | (simp; fail))+

lemma yields_tmpfs:
  "yields (if b then for_each_err ds mountWritable else return None) (\<lambda>_. plain)"
  by (rule yield_rules | rule yields_mono [OF yields_for_each_err_all [OF yields_mountWritable]],
        (auto simp: plain_def; fail) | (simp; fail))+

lemma yields_MountVirtualFS:
  "yields (MountVirtualFS cfg) (\<lambda>r cs. plain cs \<and> (r = None \<longrightarrow> subseq (readOnlyCalls cfg) cs))"
  unfolding MountVirtualFS_def readOnlyCalls_def
  by (rule yields_bind_rule [OF yields_proc] yields_bind_rule [OF yields_sysfs]
      yields_bind_rule [OF yields_tmpfs] yield_rules
     | rule yields_mono [OF yields_fail_with], (auto; fail)
     | (auto intro: list_emb_append2; fail))+

lemma yields_setupInteractiveIO: "yields (setupInteractiveIO ipc) (\<lambda>_. plain)"
  unfolding setupInteractiveIO_def Let_def by (rule yield_rules | rule yields_bind | (simp; fail))+

lemma yields_setupBatchIO: "yields (setupBatchIO ipc) (\<lambda>_. plain)"
  unfolding setupBatchIO_def by (rule yield_rules | (simp; fail))+

lemma yields_setupIO: "yields (setupIO spec ipc) (\<lambda>_. plain)"
  by (simp add: setupIO_def yields_setupInteractiveIO yields_setupBatchIO split: ExecutionMode.split)

lemma yields_case_outcome:
  "\<lbrakk> \<And>x. r = Ret x \<Longrightarrow> yields (f x) Q; \<And>n. yields (g n) Q; \<And>p. yields (h p) Q; yields k Q \<rbrakk> \<Longrightarrow>
    yields (case r of Ret x \<Rightarrow> f x | Exit n \<Rightarrow> g n | Panic p \<Rightarrow> h p | Replaced \<Rightarrow> k) Q"
  by (simp split: outcome.split)

lemma yields_SetCapabilities: "yields (SetCapabilities caps) (\<lambda>_. no_process)"
  unfolding SetCapabilities_def
  by (rule yield_rules yields_case_outcome | (simp; fail))+

lemma yields_AddInheritable: "yields (AddInheritable c) (\<lambda>_. no_process)"
  unfolding AddInheritable_def capSet_def
  by (rule yield_rules yields_case_outcome | (simp; fail))+

lemma yields_for_each_out:
  assumes "\<And>x. yields (f x) (\<lambda>_ cs. \<forall>c \<in> set cs. S c)"
  shows "yields (for_each_out xs f) (\<lambda>_ cs. \<forall>c \<in> set cs. S c)"
proof (induction xs)
  case (Cons x xs)
  show ?case unfolding for_each_out.simps
    by (rule yields_obind_rule [OF assms], rule yields_mono [OF Cons.IH]) auto
qed (simp add: yield_rules)

lemma yields_lowering:
  "yields (do {
      _ \<leftarrow> DropAllExcept caps;
      _ \<leftarrow> for_each caps (\<lambda>cap. do { _ \<leftarrow> RaiseAmbient cap; return () });
      return (Ret ()) }) (\<lambda>_ cs. cs = lowering caps)"
  unfolding yields_def lowering_def
  by (simp add: DropAllExcept_run RaiseAmbient_loop del: upt_rec_numeral)

lemma no_process_lowering: "no_process (lowering caps)"
  by (auto simp: no_process_def lowering_def)

lemma yields_SetupCapabilities:
  "yields (SetupCapabilities cfg) (\<lambda>r cs. no_process cs \<and> (is_Ret r \<longrightarrow> subseq (lowering (AllowCaps cfg)) cs))"
  unfolding SetupCapabilities_def
  by (rule yields_obind_rule [OF yields_SetCapabilities]
      yields_obind_rule [OF yields_for_each_out [OF yields_AddInheritable [unfolded no_process_def]]]
      yields_mono [OF yields_lowering]
    | (auto simp: no_process_lowering no_process_def [symmetric] intro: list_emb_append2; fail))+

lemma yields_quit: "yields (quit_with fmt) (\<lambda>r cs. plain cs \<and> r = Exit 1)"
  unfolding quit_with_def by (rule yield_rules | (simp; fail))+

lemma yields_setupRoot:
  "yields (setupRoot spec) (\<lambda>r cs. plain cs \<and> (is_Ret r \<longrightarrow> subseq
     (if ownMounts spec then rootCalls (Rootfs (FS spec)) @ pivotCalls (Rootfs (FS spec)) else []) cs))"
  unfolding setupRoot_def
  by (rule yield_rules yields_bind_rule [OF yields_PrepareRoot] yields_bind_rule [OF yields_PivotRoot]
     | rule yields_mono [OF yields_quit], (auto; fail)
     | (auto intro: list_emb_append_mono list_emb_append2; fail))+

lemma yields_virtual:
  "yields (if ownMounts spec then do {
       e \<leftarrow> MountVirtualFS (FS spec);
       case e of Some _ \<Rightarrow> quit_with fmt | None \<Rightarrow> return (Ret ()) } else return (Ret ()))
     (\<lambda>r cs. plain cs \<and> (is_Ret r \<longrightarrow> subseq (if ownMounts spec then readOnlyCalls (FS spec) else []) cs))"
  by (rule yield_rules yields_bind_rule [OF yields_MountVirtualFS]
     | rule yields_mono [OF yields_quit], (auto; fail) | (auto; fail))+


lemma yields_runWorkload:
  "yields (runWorkload spec) (\<lambda>_ cs. plain cs \<or> (\<exists>w post. workloadOf spec = Some w \<and>
     cs = PrC (case w of (p, a, e) \<Rightarrow> Exec p a e) # post \<and> plain post))"
  unfolding runWorkload_def by (cases "workloadOf spec") (simp_all only: option.case, (rule yield_rules | auto)+)

lemma yields_netReady:
  "yields (if IsNetRoot spec then WaitFd (fst (NetReady ipc)) else return ())
    (\<lambda>_ cs. plain cs \<and> subseq (if IsNetRoot spec then [FdC (Read (fst (NetReady ipc)))] else []) cs)"
  by (rule yield_rules | (simp; fail))+

lemma yields_run: "yields m Q \<Longrightarrow> \<exists>r cs. run_state m s = (r, with_calls cs s) \<and> Q r cs"
  unfolding yields_def by (metis prod.collapse)

lemma with_calls_inj: "with_calls cs s = with_calls ds s \<longleftrightarrow> cs = ds"
  by (metis same_append_eq with_calls_simps(1))

text \<open>The steps of the workload's side, by name.\<close>

definition mountVirtual :: "ContainerSpec \<Rightarrow> ('z os_scheme, unit outcome) state" where
  "mountVirtual spec = (if ownMounts spec then do {
       e \<leftarrow> MountVirtualFS (FS spec);
       case e of Some _ \<Rightarrow> quit_with ''Error MountVirtualFS'' | None \<Rightarrow> return (Ret ()) } else return (Ret ()))"

definition awaitNet :: "ContainerSpec \<Rightarrow> IPC \<Rightarrow> ('z os_scheme, unit) state" where
  "awaitNet spec ipc = (if IsNetRoot spec then WaitFd (fst (NetReady ipc)) else return ())"

lemma workload_steps:
  "SetupRootAndSpawnWorkload spec 0 ipc = do {
     _ \<leftarrow> setupIO spec ipc;
     obind (setupRoot spec) (\<lambda>_. obind (mountVirtual spec) (\<lambda>_. do {
       _ \<leftarrow> LogInfo ''Workload: Applying Capabilities isolation'' [];
       obind (SetupCapabilities (Capabilities spec)) (\<lambda>_. do {
         _ \<leftarrow> awaitNet spec ipc;
         obind (runWorkload spec) (\<lambda>_. do {
           _ \<leftarrow> LogError ''Workload: Returned unexpectedly'' [];
           return (Exit 127) }) }) })) }"
  by (simp add: SetupRootAndSpawnWorkload_def mountVirtual_def awaitNet_def)

lemma workload_path:
  assumes x: "PrC (Exec path args env) \<in> set (calls (SetupRootAndSpawnWorkload spec 0 ipc) s)"
  shows "\<exists>a d e post. calls (SetupRootAndSpawnWorkload spec 0 ipc) s = (a @ d @ e) @ PrC (Exec path args env) # post \<and>
    workloadOf spec = Some (path, args, env) \<and> subseq (isolation spec ipc) (a @ d @ e) \<and>
    plain a \<and> no_process d \<and> plain e \<and> plain post \<and>
    run_state (SetupCapabilities (Capabilities spec)) (with_calls a s) = (Ret (), with_calls d (with_calls a s))"
proof -
  let ?virtual = "mountVirtual spec"
  let ?caps = "SetupCapabilities (Capabilities spec)"
  let ?net = "awaitNet spec ipc"
  let ?l = "UiC (Log TypeInfo ''Workload: Applying Capabilities isolation'' [])"
  obtain c0 where r0: "run_state (setupIO spec ipc) s = ((), with_calls c0 s)" and p0: "plain c0"
    using yields_run [OF yields_setupIO, of spec ipc s] by auto
  obtain q1 c1 where r1: "run_state (setupRoot spec) (with_calls c0 s) = (q1, with_calls (c0 @ c1) s)" and p1: "plain c1"
    and i1: "is_Ret q1 \<Longrightarrow> subseq (if ownMounts spec then rootCalls (Rootfs (FS spec)) @ pivotCalls (Rootfs (FS spec)) else []) c1"
    using yields_run [OF yields_setupRoot, of spec "with_calls c0 s"] by auto
  obtain q2 c2 where r2: "run_state ?virtual (with_calls (c0 @ c1) s) = (q2, with_calls (c0 @ c1 @ c2) s)" and p2: "plain c2"
    and i2: "is_Ret q2 \<Longrightarrow> subseq (if ownMounts spec then readOnlyCalls (FS spec) else []) c2"
    using yields_run [OF yields_virtual, of spec "''Error MountVirtualFS''" "with_calls (c0 @ c1) s"] unfolding mountVirtual_def by auto
  let ?a = "c0 @ c1 @ c2 @ [?l]"
  obtain q3 d where r3: "run_state ?caps (with_calls ?a s) = (q3, with_calls (?a @ d) s)" and p3: "no_process d"
    and i3: "is_Ret q3 \<Longrightarrow> subseq (lowering (AllowCaps (Capabilities spec))) d"
    using yields_run [OF yields_SetupCapabilities, of "Capabilities spec" "with_calls ?a s"] by auto
  obtain e where r4: "run_state ?net (with_calls (?a @ d) s) = ((), with_calls (?a @ d @ e) s)" and p4: "plain e"
    and i4: "subseq (if IsNetRoot spec then [FdC (Read (fst (NetReady ipc)))] else []) e"
    using yields_run [OF yields_netReady, of spec ipc "with_calls (?a @ d) s"] unfolding awaitNet_def by auto
  obtain q5 w where r5: "run_state (runWorkload spec) (with_calls (?a @ d @ e) s) = (q5, with_calls (?a @ d @ e @ w) s)"
    and i5: "plain w \<or> (\<exists>u post. workloadOf spec = Some u \<and> w = PrC (case u of (p, a, e) \<Rightarrow> Exec p a e) # post \<and> plain post)"
    using yields_run [OF yields_runWorkload, of spec "with_calls (?a @ d @ e) s"] by auto
  let ?x = "PrC (Exec path args env)"
  have x_not: "?x \<notin> set cs" if "no_process cs" for cs using that by (auto simp: no_process_def)
  have run: "run_state (SetupRootAndSpawnWorkload spec 0 ipc) s =
     (case q1 of Ret _ \<Rightarrow> (case q2 of Ret _ \<Rightarrow> (case q3 of Ret _ \<Rightarrow> (case q5 of
         Ret _ \<Rightarrow> (Exit 127, with_calls (?a @ d @ e @ w @ [UiC (Log TypeError ''Workload: Returned unexpectedly'' [])]) s)
       | Exit n \<Rightarrow> (Exit n, with_calls (?a @ d @ e @ w) s) | Panic p \<Rightarrow> (Panic p, with_calls (?a @ d @ e @ w) s)
       | Replaced \<Rightarrow> (Replaced, with_calls (?a @ d @ e @ w) s))
       | Exit n \<Rightarrow> (Exit n, with_calls (?a @ d) s) | Panic p \<Rightarrow> (Panic p, with_calls (?a @ d) s) | Replaced \<Rightarrow> (Replaced, with_calls (?a @ d) s))
       | Exit n \<Rightarrow> (Exit n, with_calls (c0 @ c1 @ c2) s) | Panic p \<Rightarrow> (Panic p, with_calls (c0 @ c1 @ c2) s)
       | Replaced \<Rightarrow> (Replaced, with_calls (c0 @ c1 @ c2) s))
       | Exit n \<Rightarrow> (Exit n, with_calls (c0 @ c1) s) | Panic p \<Rightarrow> (Panic p, with_calls (c0 @ c1) s)
       | Replaced \<Rightarrow> (Replaced, with_calls (c0 @ c1) s))"
    using r0 r1 r2 r3 r4 r5
    by (simp add: workload_steps split: outcome.split)
  have n: "no_process (c0 @ c1 @ c2 @ [?l] @ d @ e)"
    using p0 p1 p2 p3 p4 by (simp add: plain_no_process)
  obtain post where q: "is_Ret q1" "is_Ret q2" "is_Ret q3"
    and c: "calls (SetupRootAndSpawnWorkload spec 0 ipc) s = (?a @ d @ e) @ w @ post" "plain post"
    using x n x_not unfolding calls_def run
    by (cases q1; cases q2; cases q3; cases q5) auto
  obtain post' where w: "workloadOf spec = Some (path, args, env)" "w = ?x # post'" "plain post'"
    using x c i5 n x_not [of "?a @ d @ e"] x_not [OF plain_no_process, of w] x_not [OF plain_no_process, of post]
    by (auto dest: x_not [OF plain_no_process])
  have "isolation spec ipc =
      (if ownMounts spec then rootCalls (Rootfs (FS spec)) @ pivotCalls (Rootfs (FS spec)) else []) @
      (if ownMounts spec then readOnlyCalls (FS spec) else []) @
      lowering (AllowCaps (Capabilities spec)) @
      (if IsNetRoot spec then [FdC (Read (fst (NetReady ipc)))] else [])"
    by (simp add: isolation_def)
  then have iso: "subseq (isolation spec ipc) ((c0 @ c1 @ c2 @ ?l # d @ e))"
    using i1 i2 i3 i4 q by (simp only: list_emb_append_mono list_emb_append2 list_emb_Cons)
  have "q3 = Ret ()" using q(3) by (cases q3) auto
  with r3 have "run_state ?caps (with_calls ?a s) = (Ret (), with_calls d (with_calls ?a s))" by simp
  with c w iso p0 p1 p2 p3 p4 show ?thesis
    by (intro exI [of _ ?a] exI [of _ d] exI [of _ e] exI [of _ "post' @ post"]) simp
qed

text \<open>
  C12: a workload is started with the command its specification names, or the profile's default,
  and only after the mount tree was cut off, the root directory changed and the old root gone, the
  root remounted read-only if it is to be, the capabilities lowered, and the network reported ready
  for a net root: all in this order, if the container has its own mounts. It is started at most
  once. On a kernel that answers as \<open>capabilities(7)\<close> documents, when the process has the allowed
  capabilities, it then holds exactly the allowed ones, permitted and effective, and no other is
  ambient.
\<close>

theorem workload_confined:
  assumes "PrC (Exec path args env) \<in> set (calls (SetupRootAndSpawnWorkload spec 0 ipc) s)"
  shows "\<exists>pre post. calls (SetupRootAndSpawnWorkload spec 0 ipc) s = pre @ PrC (Exec path args env) # post \<and>
    workloadOf spec = Some (path, args, env) \<and> subseq (isolation spec ipc) pre \<and>
    no_process pre \<and> no_process post \<and>
    (\<forall>k. documented k s \<and> set (AllowCaps (Capabilities spec)) \<subseteq> known \<inter> Perm k \<longrightarrow>
       Perm (caps_after pre k) = set (AllowCaps (Capabilities spec)) \<and>
       Eff (caps_after pre k) = set (AllowCaps (Capabilities spec)) \<and>
       Amb (caps_after pre k) \<subseteq> set (AllowCaps (Capabilities spec)))"
proof -
  let ?A = "set (AllowCaps (Capabilities spec))"
  from workload_path [OF assms] obtain a d e post where
    c: "calls (SetupRootAndSpawnWorkload spec 0 ipc) s = (a @ d @ e) @ PrC (Exec path args env) # post"
    "workloadOf spec = Some (path, args, env)" "subseq (isolation spec ipc) (a @ d @ e)"
    and p: "plain a" "no_process d" "plain e" "plain post"
    and r: "run_state (SetupCapabilities (Capabilities spec)) (with_calls a s) = (Ret (), with_calls d (with_calls a s))"
    by blast
  have "caps_after (a @ d @ e) k = lowered ?A k" if k: "documented k s" and A: "?A \<subseteq> known \<inter> Perm k" for k
  proof -
    have "documented k (with_calls a s)"
      using documented_with_calls [OF k, of a] p(1) plain_caps by (auto simp: plain_def)
    from SetupCapabilities_run [OF this, of "Capabilities spec"] A r show ?thesis
      using plain_caps [OF p(1)] plain_caps [OF p(3)] by (auto simp: with_calls_inj)
  qed
  then have k: "\<forall>k. documented k s \<and> ?A \<subseteq> known \<inter> Perm k \<longrightarrow> Perm (caps_after (a @ d @ e) k) = ?A \<and>
      Eff (caps_after (a @ d @ e) k) = ?A \<and> Amb (caps_after (a @ d @ e) k) \<subseteq> ?A"
    by (simp add: lowered_def)
  have "no_process (a @ d @ e)" "no_process post" using p by (simp_all add: plain_no_process)
  with c k show ?thesis by blast
qed

lemma quiet_os_answers:
  "o_err quiet_os t c = None" "o_int quiet_os t c = Inr 7" "o_dir quiet_os t c = Inr False"
  "o_caps quiet_os t c = Inr (no_caps, no_caps)" "trace quiet_os = []"
  by (simp_all add: quiet_os_def no_caps_def)

lemma kernel_answers:
  assumes "\<not> cap_call c" shows "o_err (kernel_os k) t c = None"
proof (cases c)
  case (PrC p)
  have "cap_answer k p = None" for k
    using assms PrC by (cases "(k, p)" rule: cap_answer.cases) auto
  with PrC show ?thesis by (simp add: kernel_os_def)
qed (simp_all add: kernel_os_def)

lemma kernel_gives: "o_int (kernel_os k) t c = Inr 7" "o_dir (kernel_os k) t c = Inr False" "trace (kernel_os k) = []"
  by (simp_all add: kernel_os_def quiet_os_def)

theorem workload_confined_witness:
  "\<exists>pre post. calls (SetupRootAndSpawnWorkload DefaultSpec 0 ex_ipc) (kernel_os all_caps) =
      pre @ PrC (Exec ''/bin/sh'' [''sh'', ''-i''] (Env (the (WorkloadRegistry ProfileDebugShell)))) # post \<and>
    subseq (isolation DefaultSpec ex_ipc) pre \<and> Perm (caps_after pre all_caps) = {21}"
proof -
  let ?k = "kernel_os all_caps"
  have d: "MOUNT (Namespaces DefaultSpec)" "Shares DefaultSpec = []" "\<not> IsNetRoot DefaultSpec"
    "Mode (Workload DefaultSpec) = ModeInteractive" by (simp_all add: DefaultSpec_def)
  have A: "set (AllowCaps (Capabilities DefaultSpec)) = {21}" "21 \<in> known" "Perm all_caps = known"
    by (simp_all add: DefaultSpec_def CAP_SYS_ADMIN_def known_def all_caps_def)
  have w: "workloadOf DefaultSpec = Some (''/bin/sh'', [''sh'', ''-i''], Env (the (WorkloadRegistry ProfileDebugShell)))"
    by (simp add: workloadOf_def DefaultSpec_def)
  have own: "ownMounts DefaultSpec" by (simp add: ownMounts_def d specJoinsNamespace_def)
  obtain c0 where io: "run_state (setupIO DefaultSpec ex_ipc) ?k = ((), with_calls c0 ?k)" and p0: "plain c0"
    using yields_run [OF yields_setupIO, of DefaultSpec ex_ipc ?k] by auto
  have r: "fst (run_state (setupRoot DefaultSpec) (with_calls ds ?k)) = Ret ()" for ds
    by (simp add: setupRoot_def own PrepareRoot_def PivotRoot_def installBusybox_def bindDevice_def
        kernel_answers kernel_gives run_for_each_sys Let_def)
  have v: "fst (run_state (MountVirtualFS (FS DefaultSpec)) (with_calls ds ?k)) = None" for ds
    by (simp add: MountVirtualFS_def mountWritable_def kernel_answers kernel_gives)
  obtain c1 where c1: "run_state (setupRoot DefaultSpec) (with_calls c0 ?k) = (Ret (), with_calls (c0 @ c1) ?k)" and p1: "plain c1"
    using yields_run [OF yields_setupRoot, of DefaultSpec "with_calls c0 ?k"] r [of c0] by auto
  obtain c2 where c2: "run_state (MountVirtualFS (FS DefaultSpec)) (with_calls (c0 @ c1) ?k) =
      (None, with_calls (c0 @ c1 @ c2) ?k)" and p2: "plain c2"
    using yields_run [OF yields_MountVirtualFS, of "FS DefaultSpec" "with_calls (c0 @ c1) ?k"] v [of "c0 @ c1"] by auto
  let ?a = "c0 @ c1 @ c2 @ [UiC (Log TypeInfo ''Workload: Applying Capabilities isolation'' [])]"
  have "plain ?a" using p0 p1 p2 by simp
  then have "documented all_caps (with_calls ?a ?k)"
    using documented_with_calls [OF documented_kernel [OF small_all_caps], of ?a] plain_caps [of ?a all_caps]
    by (auto simp: plain_def)
  from SetupCapabilities_run [OF this, of "Capabilities DefaultSpec"] A obtain c3 where
    c3: "run_state (SetupCapabilities (Capabilities DefaultSpec)) (with_calls ?a ?k) = (Ret (), with_calls (?a @ c3) ?k)" by auto
  let ?exec = "PrC (Exec ''/bin/sh'' [''sh'', ''-i''] (Env (the (WorkloadRegistry ProfileDebugShell))))"
  have "run_state (SetupRootAndSpawnWorkload DefaultSpec 0 ex_ipc) ?k = (Replaced, with_calls (?a @ c3 @ [?exec]) ?k)"
    using c3 by (simp add: SetupRootAndSpawnWorkload_def io c1 c2 own d runWorkload_def w
        kernel_answers kernel_gives del: WorkloadRegistry.simps)
  then have "?exec \<in> set (calls (SetupRootAndSpawnWorkload DefaultSpec 0 ex_ipc) ?k)"
    by (simp add: calls_def)
  from workload_confined [OF this] obtain pre post where
    "calls (SetupRootAndSpawnWorkload DefaultSpec 0 ex_ipc) ?k = pre @ ?exec # post"
    "subseq (isolation DefaultSpec ex_ipc) pre"
    "\<forall>k. documented k ?k \<and> set (AllowCaps (Capabilities DefaultSpec)) \<subseteq> known \<inter> Perm k \<longrightarrow>
       Perm (caps_after pre k) = set (AllowCaps (Capabilities DefaultSpec))" by blast
  with documented_kernel [OF small_all_caps] A show ?thesis by auto
qed

end
