(* ===== verification/Network.thy ===== *)
theory Network
  imports GoStrconv FdsSetup
begin

text \<open>
  \<open>lib/ntw/network.go\<close> and \<open>lib/ntw/network_cleanup.go\<close>: the allocator of container addresses,
  the host's bridge and NAT rule, and the virtual Ethernet pair of a pod's root container, from
  its creation to its removal.
\<close>

section \<open>Addresses\<close>

text \<open>
  An address is its four bytes. Only IPv4 text is read here: the sources parse two constants and
  what \<open>IPString\<close> printed, so the IPv6 forms that \<open>net.ParseIP\<close> knows never come up.
\<close>

type_synonym IP = "nat list"

definition IPString :: "IP \<Rightarrow> string" where
  "IPString ip = Join (map (\<lambda>b. Itoa (int b)) ip) ''.''"

definition parse_octet :: "string \<Rightarrow> nat option" where
  "parse_octet p =
     (if p = [] \<or> length p > 3 \<or> (length p > 1 \<and> hd p = CHR ''0'') \<or> \<not> list_all is_decimal p
      then None
      else case dec_val 0 p of None \<Rightarrow> None | Some v \<Rightarrow> if v > 255 then None else Some v)"

fun parse_octets :: "string list \<Rightarrow> nat list option" where
  "parse_octets [] = Some []"
| "parse_octets (p # ps) =
     (case parse_octet p of None \<Rightarrow> None
      | Some b \<Rightarrow> map_option ((#) b) (parse_octets ps))"

definition ParseIP :: "string \<Rightarrow> IP option" where
  "ParseIP s = (let parts = Split s CHR ''.'' in if length parts \<noteq> 4 then None else parse_octets parts)"

record IPNet =
  NetIP :: IP
  MaskOnes :: nat

definition mask_byte :: "nat \<Rightarrow> nat \<Rightarrow> nat \<Rightarrow> nat" where
  "mask_byte ones i b = (let k = 8 - min 8 (ones - 8 * i) in b div 2 ^ k * 2 ^ k)"

definition ParseCIDR :: "string \<Rightarrow> err + IP \<times> IPNet" where
  "ParseCIDR s =
     (let bad = Inl (Errorf ''invalid CIDR address: %s'' [ArgS s])
      in case SplitN s CHR ''/'' 2 of
           [addr, m] \<Rightarrow>
             (case ParseIP addr of None \<Rightarrow> bad
              | Some ip \<Rightarrow>
                  (if m = [] \<or> \<not> list_all is_decimal m then bad
                   else case dec_val 0 m of None \<Rightarrow> bad
                   | Some n \<Rightarrow>
                       if n > 32 then bad
                       else Inr (ip, \<lparr>NetIP = map (\<lambda>i. mask_byte n i (ip ! i)) [0..<4], MaskOnes = n\<rparr>)))
         | _ \<Rightarrow> bad)"

definition IPNetString :: "IPNet \<Rightarrow> string" where
  "IPNetString n = IPString (NetIP n) @ ''/'' @ Itoa (int (MaskOnes n))"

section \<open>The allocator\<close>

record NetResources =
  Bridge :: string
  HostVeth :: string
  PeerVeth :: string
  ResIP :: string

record IPAllocator =
  Base :: IP
  AllocSubnet :: IPNet
  Next :: int
  Used :: "(string, bool) gomap"

definition NewIPAlloc :: "string \<Rightarrow> err + IPAllocator" where
  "NewIPAlloc cidr =
     (case ParseCIDR cidr of Inl e \<Rightarrow> Inl e
      | Inr (ip, subnet) \<Rightarrow> Inr \<lparr>Base = ip, AllocSubnet = subnet, Next = 10, Used = []\<rparr>)"

text \<open>The loop of \<open>Allocate\<close>: it moves \<open>Next\<close> past every address it looks at.\<close>

function allocate_loop :: "IPAllocator \<Rightarrow> (err + IP) outcome \<times> IPAllocator" where
  "allocate_loop a =
     (if Next a < 254 then
        (if length (Base a) \<le> 3 then (Panic ''index out of range'', a)
         else
           let ip = (Base a)[3 := nat (Next a mod 256)];
               a = a\<lparr>Next := Next a + 1\<rparr>
           in if map_get (Used a) (IPString ip) \<noteq> Some True
              then (Ret (Inr ip), a\<lparr>Used := map_put (IPString ip) True (Used a)\<rparr>)
              else allocate_loop a)
      else (Ret (Inl (Errorf ''no available IPs in subnet %s'' [ArgS (IPNetString (AllocSubnet a))])), a))"
  by pat_completeness auto
termination
  by (relation "measure (\<lambda>a. nat (254 - Next a))") auto

declare allocate_loop.simps [simp del]

definition release_ip :: "IP \<Rightarrow> IPAllocator \<Rightarrow> IPAllocator" where
  "release_ip ip a = a\<lparr>Used := map_del (IPString ip) (Used a)\<rparr>"

record nstate = hstate +
  IPAlloc :: IPAllocator
  Subnet :: "IPNet option"

text \<open>The two methods, each under the allocator's own mutex.\<close>

definition Allocate :: "('z nstate_scheme, (err + IP) outcome) state" where
  "Allocate = do {
     _ \<leftarrow> sys (UiC (Lock AllocMu));
     s \<leftarrow> State_Monad.get;
     _ \<leftarrow> State_Monad.update (\<lambda>s. s\<lparr>IPAlloc := snd (allocate_loop (IPAlloc s))\<rparr>);
     _ \<leftarrow> sys (UiC (Unlock AllocMu));
     return (fst (allocate_loop (IPAlloc s)))
   }"

definition Release :: "IP option \<Rightarrow> ('z nstate_scheme, unit) state" where
  "Release ip =
     (case ip of None \<Rightarrow> return ()
      | Some ip \<Rightarrow> do {
          _ \<leftarrow> sys (UiC (Lock AllocMu));
          _ \<leftarrow> State_Monad.update (\<lambda>s. s\<lparr>IPAlloc := release_ip ip (IPAlloc s)\<rparr>);
          sys (UiC (Unlock AllocMu))
        })"

section \<open>The host\<close>

text \<open>\<open>errors.Is\<close>: an error matches if it, or an error it wraps with \<open>%w\<close>, is the one sought.\<close>

fun err_is :: "err \<Rightarrow> errno \<Rightarrow> bool" and arg_is :: "arg \<Rightarrow> errno \<Rightarrow> bool" where
  "err_is (Errno x) y = (x = y)"
| "err_is (Errorf fmt args) y = (Contains fmt ''%w'' \<and> (\<exists>a \<in> set args. arg_is a y))"
| "arg_is (ArgE e) y = err_is e y"
| "arg_is (ArgS _) y = False"
| "arg_is (ArgI _) y = False"

definition EnsureBridge :: "string \<Rightarrow> string \<Rightarrow> ('z os_scheme, err option) state" where
  "EnsureBridge name cidr = do {
     e \<leftarrow> sys_err (NetC (AddBridge name));
     if (case e of None \<Rightarrow> False | Some er \<Rightarrow> \<not> err_is er EEXIST) then return e
     else do {
       link \<leftarrow> sys_int (NetC (LinkByName name));
       case link of Inl e \<Rightarrow> return (Some e)
       | Inr _ \<Rightarrow> do {
           _ \<leftarrow> sys (NetC (AddrAdd name cidr));
           sys_err (NetC (LinkSetUp name))
         }
     }
   }"

definition EnableIPForwarding :: "('z os_scheme, err option) state" where
  "EnableIPForwarding = sys_err (FsC (WriteFile ''/proc/sys/net/ipv4/ip_forward'' ''1''))"

fun default_route :: "route list \<Rightarrow> ('z os_scheme, err + string) state" where
  "default_route [] = return (Inl (Errorf ''no default route found'' []))"
| "default_route ((dst, gw, index) # rs) =
     (if dst = None \<and> gw \<noteq> None then do {
        link \<leftarrow> sys_str (NetC (LinkByIndex index));
        case link of Inl _ \<Rightarrow> default_route rs | Inr name \<Rightarrow> return (Inr name)
      }
      else default_route rs)"

definition DefaultRouteInterface :: "('z os_scheme, err + string) state" where
  "DefaultRouteInterface = do {
     routes \<leftarrow> sys_routes (NetC RouteList);
     case routes of Inl e \<Rightarrow> return (Inl e) | Inr rs \<Rightarrow> default_route rs
   }"

definition nat_rule :: "string \<Rightarrow> string \<Rightarrow> string \<Rightarrow> call" where
  "nat_rule action subnet outIface =
     PrC (Command ''iptables''
       [''-t'', ''nat'', action, ''POSTROUTING'', ''-s'', subnet, ''-o'', outIface, ''-j'', ''MASQUERADE''])"

definition AddNATRule :: "string \<Rightarrow> string \<Rightarrow> ('z os_scheme, err option) state" where
  "AddNATRule subnet outIface = sys_err (nat_rule ''-A'' subnet outIface)"

definition RemoveNATRule :: "string \<Rightarrow> string \<Rightarrow> ('z os_scheme, err option) state" where
  "RemoveNATRule subnet outIface = sys_err (nat_rule ''-D'' subnet outIface)"

definition DeleteBridge :: "string \<Rightarrow> ('z os_scheme, unit) state" where
  "DeleteBridge name = do {
     link \<leftarrow> sys_int (NetC (LinkByName name));
     case link of Inl _ \<Rightarrow> return () | Inr _ \<Rightarrow> sys (NetC (LinkDel name))
   }"

section \<open>The virtual Ethernet pair\<close>

text \<open>\<open>%x\<close> of random bytes; the buffer stays zero where the call gives none.\<close>

definition hex_bytes :: "nat list \<Rightarrow> string" where
  "hex_bytes bs = concat (map (\<lambda>b. [digit_char (b div 16), digit_char (b mod 16)]) bs)"

definition randomSuffix :: "nat \<Rightarrow> ('z os_scheme, string) state" where
  "randomSuffix n = do {
     r \<leftarrow> sys_str (NetC (RandRead n));
     let d = (case r of Inl _ \<Rightarrow> [] | Inr d \<Rightarrow> map of_char d);
     return (hex_bytes (take n (d @ replicate n 0)))
   }"

text \<open>One guarded call of \<open>SetupContainerVeth\<close>: on an error the pair is deleted again.\<close>

definition or_del :: "string \<Rightarrow> string \<Rightarrow> err \<Rightarrow> ('z os_scheme, err + 'a) state" where
  "or_del hostVeth fmt e = do {
     _ \<leftarrow> sys (NetC (LinkDel hostVeth));
     return (Inl (Errorf fmt [ArgE e]))
   }"

definition SetupContainerVeth :: "string \<Rightarrow> int \<Rightarrow> IP \<Rightarrow> ('z os_scheme, err + NetResources) state" where
  "SetupContainerVeth bridgeName netnsFD ip = do {
     suffix \<leftarrow> randomSuffix 4;
     let hostVeth = ''ve-'' @ suffix;
     let tempPeer = ''vp-'' @ suffix;
     e \<leftarrow> sys_err (NetC (AddVeth hostVeth tempPeer));
     case e of Some e \<Rightarrow> return (Inl (Errorf ''LinkAdd failed: %w'' [ArgE e])) | None \<Rightarrow> do {
     br \<leftarrow> sys_int (NetC (LinkByName bridgeName));
     case br of Inl e \<Rightarrow> or_del hostVeth (''bridge '' @ bridgeName @ '' not found: %w'') e | Inr _ \<Rightarrow> do {
     hostLink \<leftarrow> sys_int (NetC (LinkByName hostVeth));
     case hostLink of Inl e \<Rightarrow> or_del hostVeth ''host veth lookup failed: %w'' e | Inr _ \<Rightarrow> do {
     e \<leftarrow> sys_err (NetC (LinkSetMaster hostVeth bridgeName));
     case e of Some e \<Rightarrow> or_del hostVeth ''LinkSetMaster failed: %w'' e | None \<Rightarrow> do {
     e \<leftarrow> sys_err (NetC (LinkSetUp hostVeth));
     case e of Some e \<Rightarrow> or_del hostVeth ''LinkSetUp host failed: %w'' e | None \<Rightarrow> do {
     peerLink \<leftarrow> sys_int (NetC (LinkByName tempPeer));
     case peerLink of Inl e \<Rightarrow> or_del hostVeth ''peer veth lookup failed: %w'' e | Inr _ \<Rightarrow> do {
     e \<leftarrow> sys_err (NetC (LinkSetNsFd tempPeer netnsFD));
     case e of Some e \<Rightarrow> or_del hostVeth (''LinkSetNsFd failed to move to FD '' @ Itoa netnsFD @ '': %w'') e
     | None \<Rightarrow> return (Inr \<lparr>Bridge = bridgeName, HostVeth = hostVeth, PeerVeth = tempPeer,
                       ResIP = IPString ip\<rparr>)
     }}}}}}
   }"

text \<open>The bounded wait for the interface to appear: 20 ms after each failure.\<close>

fun find_link :: "nat \<Rightarrow> string \<Rightarrow> err option \<Rightarrow> ('z os_scheme, err option) state" where
  "find_link 0 name err = return err"
| "find_link (Suc k) name err = do {
     r \<leftarrow> sys_int (NetC (LinkByName name));
     case r of Inr _ \<Rightarrow> return None
     | Inl e \<Rightarrow> do { _ \<leftarrow> sys (PrC (SleepMs 20)); find_link k name (Some e) }
   }"

definition ConfigureContainerInterface ::
  "int \<Rightarrow> string \<Rightarrow> IP \<Rightarrow> IP option \<Rightarrow> IPNet option \<Rightarrow> ('z os_scheme, err option) state" where
  "ConfigureContainerInterface netnsFD tempPeerName ip gateway subnet = do {
     ns \<leftarrow> sys_int (NetC NetnsGet);
     case ns of Inl e \<Rightarrow> return (Some (Errorf ''failed to get original netns: %w'' [ArgE e]))
     | Inr origNS \<Rightarrow> deferring (sys (NetC (NetnsClose origNS))) (do {
     e \<leftarrow> sys_err (PrC (Setns netnsFD CLONE_NEWNET));
     case e of Some e \<Rightarrow> return (Some (Errorf ''setns to container failed: %w'' [ArgE e]))
     | None \<Rightarrow> deferring (sys (NetC (NetnsSet origNS))) (do {
     e \<leftarrow> find_link 50 tempPeerName None;
     case e of Some e \<Rightarrow> return (Some (Errorf (''interface '' @ tempPeerName @ '' not found after migration: %w'') [ArgE e]))
     | None \<Rightarrow> do {
     e \<leftarrow> sys_err (NetC (LinkSetDown tempPeerName));
     case e of Some e \<Rightarrow> return (Some (Errorf ''failed to set link down for rename: %w'' [ArgE e]))
     | None \<Rightarrow> do {
     e \<leftarrow> sys_err (NetC (LinkSetName tempPeerName ''eth0''));
     case e of Some e \<Rightarrow> return (Some (Errorf (''failed to rename '' @ tempPeerName @ '' to eth0: %w'') [ArgE e]))
     | None \<Rightarrow> do {
     eth0 \<leftarrow> sys_int (NetC (LinkByName ''eth0''));
     case eth0 of Inl e \<Rightarrow> return (Some (Errorf ''failed to find eth0 after rename: %w'' [ArgE e]))
     | Inr index \<Rightarrow>
     (case subnet of None \<Rightarrow> return (Some (Errorf ''subnet cannot be nil'' []))
     | Some net \<Rightarrow> do {
     e \<leftarrow> sys_err (NetC (AddrAdd ''eth0'' (IPString ip @ ''/'' @ Itoa (int (MaskOnes net)))));
     case e of Some e \<Rightarrow> return (Some (Errorf (''failed to add IP address '' @ IPString ip @ '': %w'') [ArgE e]))
     | None \<Rightarrow> do {
     e \<leftarrow> sys_err (NetC (LinkSetUp ''eth0''));
     case e of Some e \<Rightarrow> return (Some (Errorf ''failed to set eth0 UP: %w'' [ArgE e]))
     | None \<Rightarrow> do {
     lo \<leftarrow> sys_int (NetC (LinkByName ''lo''));
     _ \<leftarrow> (case lo of Inl _ \<Rightarrow> return () | Inr _ \<Rightarrow> sys (NetC (LinkSetUp ''lo'')));
     let gw = (case gateway of None \<Rightarrow> ''<nil>'' | Some g \<Rightarrow> IPString g);
     e \<leftarrow> sys_err (NetC (RouteAdd index gw));
     case e of Some e \<Rightarrow> return (Some (Errorf (''failed to add default route via '' @ gw @ '': %w'') [ArgE e]))
     | None \<Rightarrow> return None
     }}})}}}})})
   }"

definition NetworkConfig :: "int \<Rightarrow> ContainerSpec \<Rightarrow> ('z nstate_scheme, NetResources option outcome) state" where
  "NetworkConfig netnsFD spec = obind Allocate (\<lambda>r.
     case r of
       Inl e \<Rightarrow> do {
         _ \<leftarrow> LogError ''IP allocation failed for %s: %v'' [ArgS (ID spec), ArgE e];
         return (Ret None)
       }
     | Inr ip \<Rightarrow> do {
         v \<leftarrow> SetupContainerVeth ''bctor0'' netnsFD ip;
         case v of
           Inl e \<Rightarrow> do {
             _ \<leftarrow> LogError ''Veth setup failed: %v'' [ArgE e];
             _ \<leftarrow> Release (Some ip);
             return (Ret None)
           }
         | Inr netres \<Rightarrow> do {
             s \<leftarrow> State_Monad.get;
             e \<leftarrow> ConfigureContainerInterface netnsFD (PeerVeth netres) ip (ParseIP ''10.0.0.1'') (Subnet s);
             case e of
               Some e \<Rightarrow> do {
                 _ \<leftarrow> LogError ''Interface config failed inside container: %v'' [ArgE e];
                 _ \<leftarrow> Release (Some ip);
                 return (Ret None)
               }
             | None \<Rightarrow> return (Ret (Some (netres\<lparr>ResIP := IPString ip\<rparr>)))
           }
       })"

definition CleanupContainerNetworking :: "NetResources option \<Rightarrow> ('z nstate_scheme, unit) state" where
  "CleanupContainerNetworking res =
     (case res of None \<Rightarrow> return ()
      | Some netres \<Rightarrow> do {
          link \<leftarrow> sys_int (NetC (LinkByName (HostVeth netres)));
          _ \<leftarrow> (case link of Inl _ \<Rightarrow> return () | Inr _ \<Rightarrow> sys (NetC (LinkDel (HostVeth netres))));
          if ResIP netres \<noteq> [] then Release (ParseIP (ResIP netres)) else return ()
        })"

section \<open>Addresses as text\<close>

definition ip_ok :: "IP \<Rightarrow> bool" where
  "ip_ok ip \<longleftrightarrow> length ip = 4 \<and> (\<forall>b \<in> set ip. b < 256)"

lemma nat_digits_step: "10 \<le> b \<Longrightarrow> nat_digits 10 b = nat_digits 10 (b div 10) @ [digit_char (b mod 10)]"
  by (subst nat_digits.simps) simp

lemma nat_digits_small:
  "b < 10 \<Longrightarrow> nat_digits 10 b = [digit_char b]"
  "\<not> b < 10 \<Longrightarrow> b < 100 \<Longrightarrow> nat_digits 10 b = [digit_char (b div 10), digit_char (b mod 10)]"
  "\<not> b < 100 \<Longrightarrow> b < 1000 \<Longrightarrow> nat_digits 10 b =
    [digit_char (b div 10 div 10), digit_char (b div 10 mod 10), digit_char (b mod 10)]"
proof -
  show one: "nat_digits 10 b = [digit_char b]" if "b < 10" for b
    using that by (subst nat_digits.simps) simp
  show two: "nat_digits 10 b = [digit_char (b div 10), digit_char (b mod 10)]"
    if "\<not> b < 10" "b < 100" for b
    using that one [of "b div 10"] by (simp add: nat_digits_step less_mult_imp_div_less)
  show "nat_digits 10 b = [digit_char (b div 10 div 10), digit_char (b div 10 mod 10), digit_char (b mod 10)]"
    if "\<not> b < 100" "b < 1000"
  proof -
    have "\<not> b div 10 < 10" "b div 10 < 100" using that by linarith+
    with that two [of "b div 10"] show ?thesis by (simp add: nat_digits_step)
  qed
qed

lemma digit_char_0: "d < 10 \<Longrightarrow> digit_char d = CHR ''0'' \<longleftrightarrow> d = 0"
proof -
  have z: "digit_char 0 = CHR ''0''" "digit_val (CHR ''0'') = Some 0" by code_simp+
  assume "d < 10"
  then have "digit_val (digit_char d) = Some d" by simp
  with z show ?thesis by auto
qed

lemma parse_octet_Itoa:
  assumes "b < 256"
  shows "parse_octet (Itoa (int b)) = Some b"
proof -
  have "length (nat_digits 10 b) \<le> 3 \<and> (length (nat_digits 10 b) > 1 \<longrightarrow> hd (nat_digits 10 b) \<noteq> CHR ''0'')"
    using assms by (cases "b < 10"; cases "b < 100") (simp_all add: nat_digits_small digit_char_0)
  moreover have "list_all is_decimal (nat_digits 10 b)"
    using nat_digits_decimal by (simp add: list_all_iff)
  ultimately show ?thesis
    using assms by (auto simp: parse_octet_def Itoa_def dec_val_nat_digits nat_digits_ne)
qed

lemma parse_octets_Itoa:
  "\<forall>b \<in> set bs. b < 256 \<Longrightarrow> parse_octets (map (\<lambda>b. Itoa (int b)) bs) = Some bs"
  by (induction bs) (simp_all add: parse_octet_Itoa)

lemma ParseIP_IPString: "ip_ok ip \<Longrightarrow> ParseIP (IPString ip) = Some ip"
proof -
  assume ip: "ip_ok ip"
  then have "map (\<lambda>b. Itoa (int b)) ip \<noteq> []" by (auto simp: ip_ok_def)
  moreover have "CHR ''.'' \<notin> set (Itoa (int b))" for b
    using Itoa_decimal [of "int b"] by (auto simp: is_decimal_def)
  ultimately have "Split (IPString ip) CHR ''.'' = map (\<lambda>b. Itoa (int b)) ip"
    unfolding IPString_def by (intro Split_Join) auto
  with ip show ?thesis by (simp add: ParseIP_def ip_ok_def parse_octets_Itoa)
qed

interpretation ip_codec: codec IPString ParseIP ip_ok
  by unfold_locales (rule ParseIP_IPString)

lemma IPString_ne: "ip_ok ip \<Longrightarrow> IPString ip \<noteq> []"
  using ParseIP_IPString [of ip] by (auto simp: ParseIP_def)

lemma ParseIP_ok: "ParseIP s = Some ip \<Longrightarrow> ip_ok ip"
proof -
  have o: "parse_octet p = Some b \<Longrightarrow> b < 256" for p b
    by (auto simp: parse_octet_def split: if_splits option.splits)
  have "parse_octets ps = Some bs \<Longrightarrow> length bs = length ps \<and> (\<forall>b \<in> set bs. b < 256)" for ps bs
    by (induction ps arbitrary: bs) (auto split: option.splits dest: o)
  then show "ParseIP s = Some ip \<Longrightarrow> ip_ok ip"
    by (auto simp: ParseIP_def ip_ok_def Let_def split: if_splits)
qed

section \<open>The interface of an allocator\<close>

text \<open>
  What \<open>IPManager\<close> promises the supervisor: an address given out was not in use and is in use
  from then on, a failure changes nothing, a release makes one address free. A run of a client
  keeps the list of what it was given and did not release.
\<close>

datatype 'ip alloc_op = OpAllocate | OpRelease 'ip

fun serve :: "('s \<Rightarrow> (err + 'ip) \<times> 's) \<Rightarrow> ('ip \<Rightarrow> 's \<Rightarrow> 's) \<Rightarrow> 'ip alloc_op list \<Rightarrow>
    'ip list \<times> 's \<Rightarrow> 'ip list \<times> 's" where
  "serve alloc rel [] (given, s) = (given, s)"
| "serve alloc rel (OpAllocate # ops) (given, s) =
     (case alloc s of (Inl _, s') \<Rightarrow> serve alloc rel ops (given, s')
      | (Inr ip, s') \<Rightarrow> serve alloc rel ops (ip # given, s'))"
| "serve alloc rel (OpRelease ip # ops) (given, s) = serve alloc rel ops (removeAll ip given, rel ip s)"

locale ip_manager =
  fixes alloc :: "'s \<Rightarrow> (err + 'ip) \<times> 's"
    and rel :: "'ip \<Rightarrow> 's \<Rightarrow> 's"
    and in_use :: "'s \<Rightarrow> 'ip set"
    and ok :: "'s \<Rightarrow> bool"
    and valid :: "'ip \<Rightarrow> bool"
  assumes alloc_ok: "ok s \<Longrightarrow> ok (snd (alloc s))"
    and alloc_fresh: "ok s \<Longrightarrow> alloc s = (Inr ip, s') \<Longrightarrow>
      valid ip \<and> ip \<notin> in_use s \<and> in_use s' = insert ip (in_use s)"
    and alloc_error: "ok s \<Longrightarrow> alloc s = (Inl e, s') \<Longrightarrow> in_use s' = in_use s"
    and rel_ok: "ok s \<Longrightarrow> valid ip \<Longrightarrow> ok (rel ip s)"
    and rel_free: "ok s \<Longrightarrow> valid ip \<Longrightarrow> in_use (rel ip s) = in_use s - {ip}"
begin

lemma serve_exclusive:
  "\<lbrakk> ok s; set given = in_use s; distinct given; \<forall>ip. OpRelease ip \<in> set ops \<longrightarrow> valid ip;
     serve alloc rel ops (given, s) = (given', s') \<rbrakk> \<Longrightarrow>
    ok s' \<and> set given' = in_use s' \<and> distinct given'"
proof (induction ops arbitrary: given s)
  case (Cons op ops)
  show ?case
  proof (cases op)
    case OpAllocate
    obtain r s1 where a: "alloc s = (r, s1)" by (cases "alloc s")
    then have "ok s1" using alloc_ok [OF Cons.prems(1)] by simp
    then show ?thesis
    proof (cases r)
      case (Inl e)
      with a have "in_use s1 = in_use s" using alloc_error [OF Cons.prems(1)] by simp
      with Cons.prems a Inl OpAllocate \<open>ok s1\<close> show ?thesis by (intro Cons.IH [of s1 given]) auto
    next
      case (Inr ip)
      with a have "ip \<notin> in_use s" "in_use s1 = insert ip (in_use s)"
        using alloc_fresh [OF Cons.prems(1)] by auto
      with Cons.prems a Inr OpAllocate \<open>ok s1\<close> show ?thesis
        by (intro Cons.IH [of s1 "ip # given"]) auto
    qed
  next
    case (OpRelease ip)
    with Cons.prems(4) have v: "valid ip" by auto
    with Cons.prems OpRelease show ?thesis
      using rel_ok [OF Cons.prems(1) v] rel_free [OF Cons.prems(1) v]
      by (intro Cons.IH [of "rel ip s" "removeAll ip given"]) (auto simp: distinct_removeAll)
  qed
qed simp

lemma alloc_rel:
  "ok s \<Longrightarrow> alloc s = (Inr ip, s') \<Longrightarrow> in_use (rel ip s') = in_use s"
  using alloc_ok [of s] alloc_fresh [of s ip s'] rel_free [of s' ip] by auto

end

section \<open>The allocator keeps the promise\<close>

definition alloc_ok :: "IPAllocator \<Rightarrow> bool" where
  "alloc_ok a \<longleftrightarrow> ip_ok (Base a) \<and> 0 \<le> Next a"

definition ips_in_use :: "IPAllocator \<Rightarrow> IP set" where
  "ips_in_use a = {ip. ip_ok ip \<and> map_get (Used a) (IPString ip) = Some True}"

lemma ip_ok_update: "ip_ok ip \<Longrightarrow> b < 256 \<Longrightarrow> ip_ok (ip[i := b])"
  unfolding ip_ok_def using set_update_subset_insert [of ip i b] by auto

text \<open>What one call of the loop does, given what was in use.\<close>

fun alloc_post :: "IP \<Rightarrow> (string, bool) gomap \<Rightarrow> err + IP \<Rightarrow> IPAllocator \<Rightarrow> bool" where
  "alloc_post base used (Inl e) a' \<longleftrightarrow> alloc_ok a' \<and> Base a' = base \<and> Used a' = used"
| "alloc_post base used (Inr ip) a' \<longleftrightarrow> alloc_ok a' \<and> Base a' = base \<and> ip_ok ip \<and>
     map_get used (IPString ip) \<noteq> Some True \<and> Used a' = map_put (IPString ip) True used"

lemma allocate_loop_spec:
  assumes "alloc_ok a"
  shows "\<exists>r a'. allocate_loop a = (Ret r, a') \<and> alloc_post (Base a) (Used a) r a'"
  using assms
proof (induction a rule: allocate_loop.induct)
  case (1 a)
  let ?ip = "(Base a)[3 := nat (Next a mod 256)]"
  let ?a = "a\<lparr>Next := Next a + 1\<rparr>"
  have len: "\<not> length (Base a) \<le> 3" and ip: "ip_ok ?ip" and ok: "alloc_ok ?a"
    using "1.prems" ip_ok_update [of "Base a" "nat (Next a mod 256)" 3]
    by (auto simp: alloc_ok_def ip_ok_def nat_less_iff)
  show ?case
  proof (cases "Next a < 254")
    case False
    with "1.prems" show ?thesis by (subst allocate_loop.simps) simp
  next
    case True
    show ?thesis
    proof (cases "map_get (Used a) (IPString ?ip) = Some True")
      case False
      with True len ip ok show ?thesis by (subst allocate_loop.simps) (simp add: alloc_ok_def Let_def)
    next
      case used: True
      have "allocate_loop a = allocate_loop ?a"
        using True len used by (subst allocate_loop.simps) (simp add: Let_def)
      then show ?thesis using "1.IH" [OF True len refl refl] used ok by simp
    qed
  qed
qed


definition alloc_pure :: "IPAllocator \<Rightarrow> (err + IP) \<times> IPAllocator" where
  "alloc_pure a = (case allocate_loop a of (Ret r, a') \<Rightarrow> (r, a') | (_, a') \<Rightarrow> (Inl (Errorf [] []), a'))"

lemma alloc_pure_spec:
  assumes "alloc_ok a"
  obtains r a' where "alloc_pure a = (r, a')" "allocate_loop a = (Ret r, a')"
    "alloc_post (Base a) (Used a) r a'"
  using allocate_loop_spec [OF assms] unfolding alloc_pure_def by fastforce

lemma ips_in_use_put:
  "ip_ok ip \<Longrightarrow> Used a' = map_put (IPString ip) True (Used a) \<Longrightarrow>
    ips_in_use a' = insert ip (ips_in_use a)"
  by (auto simp: ips_in_use_def ip_codec.enc_inj)

interpretation allocator: ip_manager alloc_pure release_ip ips_in_use alloc_ok ip_ok
proof unfold_locales
  fix a assume ok: "alloc_ok a"
  obtain r a' where p: "alloc_pure a = (r, a')" and post: "alloc_post (Base a) (Used a) r a'"
    by (rule alloc_pure_spec [OF ok])
  show "alloc_ok (snd (alloc_pure a))" using p post by (cases r) auto
  fix ip s' assume "alloc_pure a = (Inr ip, s')"
  with p post show "ip_ok ip \<and> ip \<notin> ips_in_use a \<and> ips_in_use s' = insert ip (ips_in_use a)"
    using ips_in_use_put [of ip s' a] by (auto simp: ips_in_use_def)
next
  fix a e s' assume ok: "alloc_ok a" and e: "alloc_pure a = (Inl e, s')"
  obtain r a' where "alloc_pure a = (r, a')" and "alloc_post (Base a) (Used a) r a'"
    by (rule alloc_pure_spec [OF ok])
  with e show "ips_in_use s' = ips_in_use a" by (auto simp: ips_in_use_def)
next
  fix a ip assume "alloc_ok a" "ip_ok ip"
  then show "alloc_ok (release_ip ip a)" and "ips_in_use (release_ip ip a) = ips_in_use a - {ip}"
    by (auto simp: alloc_ok_def release_ip_def ips_in_use_def ip_codec.enc_inj split: if_splits)
qed

text \<open>
  C29: no two containers get one address. However allocations and releases of valid addresses
  follow each other on an allocator without addresses in use, those given out and not released
  are pairwise distinct, and they are exactly the allocator's addresses in use.
\<close>

theorem addresses_exclusive:
  assumes "alloc_ok a" and "Used a = []" and "\<forall>ip. OpRelease ip \<in> set ops \<longrightarrow> ip_ok ip"
    and "serve alloc_pure release_ip ops ([], a) = (given, a')"
  shows "distinct given \<and> set given = ips_in_use a'"
proof -
  have "set [] = ips_in_use a" using assms(2) by (simp add: ips_in_use_def)
  from allocator.serve_exclusive [OF assms(1) this _ assms(3,4)] show ?thesis by simp
qed

section \<open>The addresses of the supervisor's subnet\<close>

fun run_alloc :: "IP alloc_op list \<Rightarrow> IPAllocator \<Rightarrow> (err + IP) outcome list" where
  "run_alloc [] a = []"
| "run_alloc (OpAllocate # ops) a = (case allocate_loop a of (r, a') \<Rightarrow> r # run_alloc ops a')"
| "run_alloc (OpRelease ip # ops) a = run_alloc ops (release_ip ip a)"

definition subnet24 :: IPNet where
  "subnet24 = \<lparr>NetIP = [10, 0, 0, 0], MaskOnes = 24\<rparr>"

definition nth_address :: "nat \<Rightarrow> (err + IP) outcome" where
  "nth_address i =
     Ret (if i < 244 then Inr [10, 0, 0, 10 + i]
          else Inl (Errorf ''no available IPs in subnet %s'' [ArgS ''10.0.0.0/24'']))"

definition served :: "nat \<Rightarrow> IPAllocator \<Rightarrow> bool" where
  "served n a \<longleftrightarrow> Base a = [10, 0, 0, 0] \<and> AllocSubnet a = subnet24 \<and>
     Next a = (if n < 244 then 10 + int n else 254) \<and>
     (\<forall>j. 10 + n \<le> j \<longrightarrow> j < 254 \<longrightarrow> map_get (Used a) (IPString [10, 0, 0, j]) \<noteq> Some True)"

lemma subnet24_text: "IPNetString subnet24 = ''10.0.0.0/24''"
  by code_simp

lemma NewIPAlloc_24:
  "NewIPAlloc ''10.0.0.0/24'' =
    Inr \<lparr>Base = [10, 0, 0, 0], AllocSubnet = subnet24, Next = 10, Used = []\<rparr>"
  by code_simp

lemma served_release: "served n a \<Longrightarrow> served n (release_ip ip a)"
  by (auto simp: served_def release_ip_def)

lemma served_allocate:
  assumes "served n a"
  shows "\<exists>a'. allocate_loop a = (nth_address n, a') \<and> served (Suc n) a'"
proof (cases "n < 244")
  case True
  let ?ip = "[10, 0, 0, 10 + n]"
  have ne: "IPString [10, 0, 0, j] \<noteq> IPString ?ip" if "10 + Suc n \<le> j" "j < 254" for j
    using that True by (simp add: ip_codec.enc_inj ip_ok_def)
  have b: "Base a = [10, 0, 0, 0]" and nx: "Next a = 10 + int n" "Next a < 254"
    and u: "map_get (Used a) (IPString ?ip) \<noteq> Some True"
    using assms True by (auto simp: served_def)
  have ip: "(Base a)[3 := nat (Next a mod 256)] = ?ip"
    using nx by (simp add: b nat_add_distrib)
  have "allocate_loop a = (Ret (Inr ?ip), a\<lparr>Next := Next a + 1, Used := map_put (IPString ?ip) True (Used a)\<rparr>)"
    using nx(2) u b ip by (subst allocate_loop.simps) (simp add: Let_def)
  moreover have "served (Suc n) (a\<lparr>Next := Next a + 1, Used := map_put (IPString ?ip) True (Used a)\<rparr>)"
    using assms True ne nx by (auto simp: served_def)
  ultimately show ?thesis using True by (simp add: nth_address_def)
next
  case False
  with assms have "\<not> Next a < 254" by (simp add: served_def)
  then have "allocate_loop a = (nth_address n, a)"
    using assms False by (subst allocate_loop.simps) (simp add: served_def nth_address_def subnet24_text)
  then show ?thesis using assms False by (simp add: served_def)
qed

lemma run_alloc_served:
  "served n a \<Longrightarrow> run_alloc ops a =
    map nth_address [n ..< n + length (filter ((=) OpAllocate) ops)]"
proof (induction ops arbitrary: n a)
  case (Cons op ops)
  show ?case
  proof (cases op)
    case OpAllocate
    from served_allocate [OF Cons.prems] obtain a' where
      a': "allocate_loop a = (nth_address n, a')" "served (Suc n) a'" by blast
    then show ?thesis using OpAllocate Cons.IH [OF a'(2)] by (simp add: upt_conv_Cons del: upt_Suc)
  next
    case (OpRelease ip)
    then show ?thesis using Cons.IH [OF served_release [OF Cons.prems]] by simp
  qed
qed simp

text \<open>
  C28: the addresses the supervisor's allocator hands out, for any mix of allocations and releases:
  the i-th allocation gives 10.0.0.(10+i), and from the 245th on the error. A released address
  is not given out again, so a run of the supervisor has 244 in all.
\<close>

theorem allocation_sequence:
  "\<exists>a. NewIPAlloc ''10.0.0.0/24'' = Inr a \<and>
    (\<forall>ops. run_alloc ops a = map nth_address [0 ..< length (filter ((=) OpAllocate) ops)])"
proof -
  have "served 0 \<lparr>Base = [10, 0, 0, 0], AllocSubnet = subnet24, Next = 10, Used = []\<rparr>"
    by (simp add: served_def)
  then show ?thesis using run_alloc_served by (simp add: NewIPAlloc_24)
qed

theorem addresses_exclusive_witness:
  "case serve alloc_pure release_ip [OpAllocate, OpAllocate, OpRelease [10, 0, 0, 10], OpAllocate]
     ([], \<lparr>Base = [10, 0, 0, 0], AllocSubnet = subnet24, Next = 10, Used = []\<rparr>) of
     (given, a') \<Rightarrow> given = [[10, 0, 0, 12], [10, 0, 0, 11]] \<and> distinct given \<and> set given = ips_in_use a'"
proof -
  let ?a = "\<lparr>Base = [10, 0, 0, 0], AllocSubnet = subnet24, Next = 10, Used = []\<rparr>"
  let ?ops = "[OpAllocate, OpAllocate, OpRelease [10, 0, 0, 10], OpAllocate]"
  obtain given a' where s: "serve alloc_pure release_ip ?ops ([], ?a) = (given, a')"
    by (cases "serve alloc_pure release_ip ?ops ([], ?a)")
  have "fst (serve alloc_pure release_ip ?ops ([], ?a)) = [[10, 0, 0, 12], [10, 0, 0, 11]]"
    by code_simp
  moreover have "distinct given \<and> set given = ips_in_use a'"
    by (rule addresses_exclusive [OF _ _ _ s]) (simp_all add: alloc_ok_def ip_ok_def)
  ultimately show ?thesis unfolding s by simp
qed

section \<open>Creating the pair leaks nothing\<close>

text \<open>Result and calls of an attempt to create the pair \<open>h\<close>, \<open>p\<close>.\<close>

definition vethOutcome :: "string \<Rightarrow> int \<Rightarrow> IP \<Rightarrow> err + NetResources \<Rightarrow> call list \<Rightarrow> bool" where
  "vethOutcome br fd ip r cs \<longleftrightarrow>
     (\<exists>suffix h p ds. h = ''ve-'' @ suffix \<and> p = ''vp-'' @ suffix \<and>
        cs = NetC (RandRead 4) # NetC (AddVeth h p) # ds \<and>
        ((\<exists>e. r = Inl (Errorf ''LinkAdd failed: %w'' [ArgE e]) \<and> ds = []) \<or>
         (\<exists>e. r = Inl e \<and> ds \<noteq> [] \<and> last ds = NetC (LinkDel h)) \<or>
         (r = Inr \<lparr>Bridge = br, HostVeth = h, PeerVeth = p, ResIP = IPString ip\<rparr> \<and>
          ds = [NetC (LinkByName br), NetC (LinkByName h), NetC (LinkSetMaster h br),
                NetC (LinkSetUp h), NetC (LinkByName p), NetC (LinkSetNsFd p fd)])))"

lemma yields_SetupContainerVeth:
  "yields (SetupContainerVeth br fd ip) (vethOutcome br fd ip)"
  unfolding SetupContainerVeth_def randomSuffix_def or_del_def Let_def State_Monad.bind_assoc
  by (intro yield_rules) (simp_all add: vethOutcome_def)

text \<open>
  C30: creating a pod's virtual Ethernet pair is all or nothing: either the pair could not be added,
  or a later step failed and the last thing done is to delete the pair again, or every step
  succeeded, the host's end is attached and up, the peer is in the namespace given, and nothing
  was deleted.
\<close>

theorem SetupContainerVeth_no_leak:
  "vethOutcome br fd ip (result (SetupContainerVeth br fd ip) s) (calls (SetupContainerVeth br fd ip) s)"
  by (rule yieldsD [OF yields_SetupContainerVeth])

section \<open>The supervisor's thread comes back\<close>

fun switches_ns :: "call \<Rightarrow> bool" where
  "switches_ns (PrC (Setns _ _)) = True"
| "switches_ns (NetC (NetnsSet _)) = True"
| "switches_ns (NetC (NetnsClose _)) = True"
| "switches_ns _ = False"

lemma find_link_calls:
  "yields (find_link k name e) (\<lambda>_ cs. \<forall>c \<in> set cs. c = NetC (LinkByName name) \<or> c = PrC (SleepMs 20))"
proof (induction k arbitrary: e)
  case 0
  show ?case by (simp add: yield_rules)
next
  case (Suc k)
  show ?case unfolding find_link.simps
    by (rule yield_rules | rule yields_mono [OF Suc.IH] | simp)+
qed

lemma yields_bind_find_link:
  "(\<And>x cs. \<forall>c \<in> set cs. \<not> switches_ns c \<Longrightarrow> yields (f x) (\<lambda>r ds. Q r (cs @ ds))) \<Longrightarrow>
    yields (find_link k name e \<bind> f) Q"
  by (rule yields_bind, rule yields_mono [OF find_link_calls]) fastforce

text \<open>
  The calls of a function that works in another network namespace: it does not get there, or it
  comes back to the one it saved and closes it, whatever happened inside.
\<close>

definition ns_excursion :: "call \<Rightarrow> call list \<Rightarrow> bool" where
  "ns_excursion enter cs \<longleftrightarrow>
     cs = [NetC NetnsGet] \<or>
     (\<exists>orig. cs = [NetC NetnsGet, enter, NetC (NetnsClose orig)]) \<or>
     (\<exists>orig mid. cs = NetC NetnsGet # enter # mid @ [NetC (NetnsSet orig), NetC (NetnsClose orig)] \<and>
        (\<forall>c \<in> set mid. \<not> switches_ns c))"

lemma yields_ConfigureContainerInterface:
  "yields (ConfigureContainerInterface fd peer ip gw net)
     (\<lambda>_. ns_excursion (PrC (Setns fd CLONE_NEWNET)))"
  unfolding ConfigureContainerInterface_def
  by (rule yield_rules yields_bind_find_link | rule yields_bind | simp add: ns_excursion_def)+

text \<open>
  C31: configuring a container's interface is an excursion: if the supervisor's thread entered the
  container's network namespace, its last two steps, on every path, are to set the namespace it
  saved first and to close it; it never switches otherwise.
\<close>

theorem ConfigureContainerInterface_returns:
  "ns_excursion (PrC (Setns fd CLONE_NEWNET)) (calls (ConfigureContainerInterface fd peer ip gw net) s)"
  by (rule yieldsD [OF yields_ConfigureContainerInterface])

section \<open>Leases\<close>

lemmas appends_SetupContainerVeth [io_only] = yields_appends [OF yields_SetupContainerVeth]
  and appends_ConfigureContainerInterface [io_only] =
    yields_appends [OF yields_ConfigureContainerInterface]

lemma run_Allocate:
  assumes "alloc_ok (IPAlloc s)"
  obtains r a' where
    "run_state Allocate s =
      (Ret r, with_calls [UiC (Lock AllocMu), UiC (Unlock AllocMu)] (s\<lparr>IPAlloc := a'\<rparr>))"
    "alloc_pure (IPAlloc s) = (r, a')"
proof -
  obtain r a' where "alloc_pure (IPAlloc s) = (r, a')" "allocate_loop (IPAlloc s) = (Ret r, a')"
    by (rule alloc_pure_spec [OF assms])
  then show ?thesis
    by (intro that [of r a']) (simp_all add: Allocate_def State_Monad.update_def with_calls_def emit_def)
qed

lemma run_Release [simp]:
  "run_state (Release (Some ip)) s =
    ((), with_calls [UiC (Lock AllocMu), UiC (Unlock AllocMu)] (s\<lparr>IPAlloc := release_ip ip (IPAlloc s)\<rparr>))"
  by (simp add: Release_def State_Monad.update_def with_calls_def emit_def)

lemma IPAlloc_with_calls [simp]:
  "IPAlloc (with_calls cs s) = IPAlloc s" "IPAlloc (emit c s) = IPAlloc s"
  "Subnet (with_calls cs s) = Subnet s" "Subnet (emit c s) = Subnet s"
  "(with_calls cs s)\<lparr>IPAlloc := a\<rparr> = with_calls cs (s\<lparr>IPAlloc := a\<rparr>)"
  "(emit c s)\<lparr>IPAlloc := a\<rparr> = emit c (s\<lparr>IPAlloc := a\<rparr>)"
  by (simp_all add: with_calls_def emit_def)

text \<open>The pair's name in the result of the set-up, and the address in its text form.\<close>

definition leaseOf :: "NetResources \<Rightarrow> IP \<Rightarrow> bool" where
  "leaseOf res ip \<longleftrightarrow> ip_ok ip \<and> ResIP res = IPString ip"

text \<open>How a function of the network changes the state: calls, and the addresses in use.\<close>

definition net_step :: "IP set \<Rightarrow> 'z nstate_scheme \<Rightarrow> 'z nstate_scheme \<Rightarrow> bool" where
  "net_step used s s' \<longleftrightarrow> (\<exists>cs a. s' = with_calls cs (s\<lparr>IPAlloc := a\<rparr>) \<and> alloc_ok a \<and> ips_in_use a = used)"

lemma net_stepI:
  "alloc_ok a \<Longrightarrow> ips_in_use a = used \<Longrightarrow> net_step used s (with_calls cs (s\<lparr>IPAlloc := a\<rparr>))"
  by (auto simp: net_step_def)

lemma net_stepD: "net_step used s s' \<Longrightarrow> alloc_ok (IPAlloc s') \<and> ips_in_use (IPAlloc s') = used"
  by (auto simp: net_step_def)

lemma NetworkConfig_run:
  assumes ok: "alloc_ok (IPAlloc s)"
  shows "\<exists>r s'. run_state (NetworkConfig fd spec) s = (Ret r, s') \<and>
    (case r of None \<Rightarrow> net_step (ips_in_use (IPAlloc s)) s s'
     | Some res \<Rightarrow> \<exists>ip. leaseOf res ip \<and> ip \<notin> ips_in_use (IPAlloc s) \<and>
         net_step (insert ip (ips_in_use (IPAlloc s))) s s')"
proof -
  obtain r a' where run: "run_state Allocate s =
      (Ret r, with_calls [UiC (Lock AllocMu), UiC (Unlock AllocMu)] (s\<lparr>IPAlloc := a'\<rparr>))"
    and al: "alloc_pure (IPAlloc s) = (r, a')"
    by (rule run_Allocate [OF ok])
  have ok': "alloc_ok a'" using allocator.alloc_ok [OF ok] al by simp
  show ?thesis
  proof (cases r)
    case (Inl e)
    then have "ips_in_use a' = ips_in_use (IPAlloc s)" using allocator.alloc_error [OF ok] al by simp
    with ok' run Inl show ?thesis
      by (simp add: NetworkConfig_def net_stepI)
  next
    case (Inr ip)
    with al have ip: "ip_ok ip" "ip \<notin> ips_in_use (IPAlloc s)"
      "ips_in_use a' = insert ip (ips_in_use (IPAlloc s))"
      using allocator.alloc_fresh [OF ok] by auto
    have freed: "alloc_ok (release_ip ip a')" "ips_in_use (release_ip ip a') = ips_in_use (IPAlloc s)"
      using allocator.rel_ok [OF ok' ip(1)] allocator.alloc_rel [OF ok] al Inr by auto
    let ?s1 = "with_calls [UiC (Lock AllocMu), UiC (Unlock AllocMu)] (s\<lparr>IPAlloc := a'\<rparr>)"
    let ?v = "SetupContainerVeth ''bctor0'' fd ip"
    note rv = appends_run [OF appends_SetupContainerVeth, of "''bctor0''" fd ip ?s1]
    show ?thesis
    proof (cases "result ?v ?s1")
      case (Inl e)
      with run \<open>r = Inr ip\<close> rv freed show ?thesis
        by (simp add: NetworkConfig_def net_stepI)
    next
      case (Inr res)
      let ?s2 = "with_calls (calls ?v ?s1) ?s1"
      let ?c = "ConfigureContainerInterface fd (PeerVeth res) ip (ParseIP ''10.0.0.1'') (Subnet ?s2)"
      note rc = appends_run [OF appends_ConfigureContainerInterface,
          of fd "PeerVeth res" ip "ParseIP ''10.0.0.1''" "Subnet ?s2" ?s2]
      show ?thesis
      proof (cases "result ?c ?s2")
        case None
        with run \<open>r = Inr ip\<close> rv Inr rc ip ok' show ?thesis
          by (auto simp: NetworkConfig_def net_stepI leaseOf_def)
      next
        case (Some e)
        with run \<open>r = Inr ip\<close> rv Inr rc freed show ?thesis
          by (simp add: NetworkConfig_def net_stepI)
      qed
    qed
  qed
qed

lemma CleanupContainerNetworking_run:
  assumes "alloc_ok (IPAlloc s)" and "leaseOf res ip"
  shows "net_step (ips_in_use (IPAlloc s) - {ip}) s
    (snd (run_state (CleanupContainerNetworking (Some res)) s))"
proof -
  from assms(2) have ip: "ip_ok ip" "ParseIP (ResIP res) = Some ip" "ResIP res \<noteq> []"
    by (simp_all add: leaseOf_def ParseIP_IPString IPString_ne)
  have "alloc_ok (release_ip ip (IPAlloc s))"
    "ips_in_use (release_ip ip (IPAlloc s)) = ips_in_use (IPAlloc s) - {ip}"
    using allocator.rel_ok [OF assms(1) ip(1)] allocator.rel_free [OF assms(1) ip(1)] by auto
  then show ?thesis
    using ip by (auto simp: CleanupContainerNetworking_def emit_with_calls net_stepI split: sum.split)
qed

text \<open>
  C27: an address is leased for as long as the pod's network stands. \<open>NetworkConfig\<close> never panics on
  a proper allocator; if it fails at any step, the addresses in use are what they were; if it
  succeeds, one address that was free is in use; and \<open>CleanupContainerNetworking\<close> on its result,
  at any later time, frees this address and no other. Nothing else of the state changes.
\<close>

theorem network_lease:
  assumes "alloc_ok (IPAlloc s)"
  shows "\<exists>r s'. run_state (NetworkConfig fd spec) s = (Ret r, s') \<and>
    (r = None \<longrightarrow> net_step (ips_in_use (IPAlloc s)) s s') \<and>
    (\<forall>res. r = Some res \<longrightarrow> (\<exists>ip. leaseOf res ip \<and> ip \<notin> ips_in_use (IPAlloc s) \<and>
       net_step (insert ip (ips_in_use (IPAlloc s))) s s' \<and>
       (\<forall>t. alloc_ok (IPAlloc t) \<longrightarrow> net_step (ips_in_use (IPAlloc t) - {ip}) t
          (snd (run_state (CleanupContainerNetworking (Some res)) t)))))"
proof -
  from NetworkConfig_run [OF assms, of fd spec] obtain r s' where
    "run_state (NetworkConfig fd spec) s = (Ret r, s')"
    "case r of None \<Rightarrow> net_step (ips_in_use (IPAlloc s)) s s'
     | Some res \<Rightarrow> \<exists>ip. leaseOf res ip \<and> ip \<notin> ips_in_use (IPAlloc s) \<and>
         net_step (insert ip (ips_in_use (IPAlloc s))) s s'" by blast
  then show ?thesis
    using CleanupContainerNetworking_run by (intro exI [of _ r] exI [of _ s']) (cases r; fastforce)
qed

lemma find_link_first:
  "0 < k \<Longrightarrow> o_int s (trace s) (NetC (LinkByName name)) = Inr i \<Longrightarrow>
    run_state (find_link k name e) s = (None, emit (NetC (LinkByName name)) s)"
  by (cases k) simp_all

text \<open>Runs where the kernel accepts every call.\<close>

definition all_accepted :: "'z os_scheme \<Rightarrow> bool" where
  "all_accepted s \<longleftrightarrow> (\<forall>t c. o_err s t c = None) \<and> (\<forall>t c. o_int s t c = Inr 7)"

lemma all_accepted_with_calls [simp]: "all_accepted (with_calls cs s) = all_accepted s"
  by (simp add: all_accepted_def)

lemma SetupContainerVeth_accepted:
  "all_accepted s \<Longrightarrow> \<exists>h p. result (SetupContainerVeth br fd ip) s =
    Inr \<lparr>Bridge = br, HostVeth = h, PeerVeth = p, ResIP = IPString ip\<rparr>"
  by (simp add: SetupContainerVeth_def result_def randomSuffix_def Let_def all_accepted_def)

lemma ConfigureContainerInterface_accepted:
  "all_accepted s \<Longrightarrow> result (ConfigureContainerInterface fd peer ip gw (Some net)) s = None"
  by (simp add: ConfigureContainerInterface_def result_def Let_def all_accepted_def find_link_first)

lemma NetworkConfig_accepted:
  assumes "all_accepted s" and "Subnet s = Some net"
    and a: "allocate_loop (IPAlloc s) = (Ret (Inr ip), a')"
  shows "\<exists>res s'. run_state (NetworkConfig fd spec) s = (Ret (Some res), s') \<and> ResIP res = IPString ip"
proof -
  have r: "run_state Allocate s =
      (Ret (Inr ip), with_calls [UiC (Lock AllocMu), UiC (Unlock AllocMu)] (s\<lparr>IPAlloc := a'\<rparr>))"
    by (simp add: Allocate_def State_Monad.update_def with_calls_def emit_def a)
  have acc: "all_accepted (s\<lparr>IPAlloc := a'\<rparr>)" using assms(1) by (simp add: all_accepted_def)
  let ?s1 = "with_calls [UiC (Lock AllocMu), UiC (Unlock AllocMu)] (s\<lparr>IPAlloc := a'\<rparr>)"
  obtain h p where "result (SetupContainerVeth ''bctor0'' fd ip) ?s1 =
      Inr \<lparr>Bridge = ''bctor0'', HostVeth = h, PeerVeth = p, ResIP = IPString ip\<rparr>"
    using SetupContainerVeth_accepted [of ?s1 "''bctor0''" fd ip] acc by auto
  then show ?thesis
    using r acc assms(2)
    by (simp add: NetworkConfig_def appends_run [OF appends_SetupContainerVeth]
        appends_run [OF appends_ConfigureContainerInterface] ConfigureContainerInterface_accepted)
qed

definition ex_alloc :: IPAllocator where
  "ex_alloc = \<lparr>Base = [10, 0, 0, 0], AllocSubnet = subnet24, Next = 10, Used = []\<rparr>"

definition ex_net :: nstate where
  "ex_net = os.extend quiet_os \<lparr>Handles = [], IPAlloc = ex_alloc, Subnet = Some subnet24\<rparr>"

theorem network_lease_witness:
  "\<exists>res s' ip. run_state (NetworkConfig 5 DefaultSpec) ex_net = (Ret (Some res), s') \<and>
    ResIP res = ''10.0.0.10'' \<and> leaseOf res ip \<and> ips_in_use (IPAlloc s') = {ip} \<and>
    ips_in_use (IPAlloc (snd (run_state (CleanupContainerNetworking (Some res)) s'))) = {}"
proof -
  have ok: "alloc_ok (IPAlloc ex_net)" and none: "ips_in_use (IPAlloc ex_net) = {}"
    by (simp_all add: ex_net_def os.defs ex_alloc_def alloc_ok_def ip_ok_def ips_in_use_def)
  have str: "IPString [10, 0, 0, 10] = ''10.0.0.10''" by code_simp
  moreover have "allocate_loop (IPAlloc ex_net) = (Ret (Inr [10, 0, 0, 10]),
      ex_alloc\<lparr>Next := 11, Used := [(''10.0.0.10'', True)]\<rparr>)"
    by (subst allocate_loop.simps) (simp add: ex_net_def os.defs ex_alloc_def Let_def str)
  moreover have "all_accepted ex_net" "Subnet ex_net = Some subnet24"
    by (simp_all add: ex_net_def os.defs quiet_os_def all_accepted_def)
  ultimately obtain res s' where
    r: "run_state (NetworkConfig 5 DefaultSpec) ex_net = (Ret (Some res), s')"
    and t: "ResIP res = ''10.0.0.10''"
    using NetworkConfig_accepted by metis
  from network_lease [OF ok, of 5 DefaultSpec] r none obtain ip where
    l: "leaseOf res ip" and n: "net_step {ip} ex_net s'"
    and c: "\<And>t. alloc_ok (IPAlloc (t :: nstate)) \<Longrightarrow> net_step (ips_in_use (IPAlloc t) - {ip}) t
          (snd (run_state (CleanupContainerNetworking (Some res)) t))"
    by auto
  have s': "alloc_ok (IPAlloc s')" "ips_in_use (IPAlloc s') = {ip}"
    using net_stepD [OF n] by simp_all
  have "ips_in_use (IPAlloc (snd (run_state (CleanupContainerNetworking (Some res)) s'))) = {}"
    using net_stepD [OF c [OF s'(1)]] s'(2) by simp
  with r t l s'(2) show ?thesis by blast
qed

end
