(* ===== verification/Forward.thy ===== *)
theory Forward
  imports Network
begin

text \<open>
  \<open>lib/ntw/forward.go\<close>: the table of port forwarding sessions by pod, the listener each session
  has, what is done for one connection, and running a function inside another process's network
  namespace.
\<close>

section \<open>Sessions\<close>

text \<open>A stop channel is its number; \<open>fnext\<close> is the number of the next one made.\<close>

record ForwardingSession =
  HostPort :: int
  Stop :: nat

type_synonym sessions = "(string, ForwardingSession list) gomap"

record fstate = nstate +
  sessions :: sessions
  fnext :: nat

definition NewPortForwarder :: sessions where
  "NewPortForwarder = []"

text \<open>
  \<open>PortForward\<close>: the two goroutines it starts are named; \<open>stopListener\<close> and \<open>acceptLoop\<close>
  below are their bodies.
\<close>

definition PortForward :: "int \<Rightarrow> int \<Rightarrow> int \<Rightarrow> nat \<Rightarrow> ('z os_scheme, err option) state" where
  "PortForward targetPID hostPort containerPort stop = do {
     let addr = ''0.0.0.0:'' @ Itoa hostPort;
     l \<leftarrow> sys_int (NetC (Listen addr));
     case l of
       Inl e \<Rightarrow> return (Some (Errorf ''failed to listen on %s: %v'' [ArgS addr, ArgE e]))
     | Inr l \<Rightarrow> do {
         _ \<leftarrow> sys (UiC (Spawn ''stopListener'' [ArgI (int stop), ArgI l]));
         _ \<leftarrow> sys (UiC (Spawn ''acceptLoop'' [ArgI targetPID, ArgI l, ArgI containerPort]));
         return None
       }
   }"

text \<open>After the stop signal arrived.\<close>

definition stopListener :: "int \<Rightarrow> ('z os_scheme, unit) state" where
  "stopListener l = sys (NetC (ListenerClose l))"

section \<open>Inside another network namespace\<close>

text \<open>
  The namespace saved is used even if getting it failed; then it is the value -1. The function
  passed assigns a variable of its caller; here it returns that value when it succeeds.
\<close>

definition ExecuteInNamespace ::
  "int \<Rightarrow> ('z os_scheme, err + 'a) state \<Rightarrow> ('z os_scheme, err + 'a) state" where
  "ExecuteInNamespace pid fn = do {
     r \<leftarrow> sys_int (NetC NetnsGet);
     let hostNS = (case r of Inl _ \<Rightarrow> -1 | Inr ns \<Rightarrow> ns);
     deferring (sys (NetC (NetnsClose hostNS))) (do {
       c \<leftarrow> sys_int (NetC (NetnsGetFromPid pid));
       case c of Inl e \<Rightarrow> return (Inl e)
       | Inr containerNS \<Rightarrow> deferring (sys (NetC (NetnsClose containerNS))) (do {
           e \<leftarrow> sys_err (NetC (NetnsSet containerNS));
           case e of Some e \<Rightarrow> return (Inl e)
           | None \<Rightarrow> deferring (sys (NetC (NetnsSet hostNS))) fn
         })
     })
   }"

text \<open>
  One connection: dial the container's port from inside its namespace, then copy both ways; the
  function ends when one direction is over, and closes both connections.
\<close>

definition handleForwardConn :: "int \<Rightarrow> int \<Rightarrow> int \<Rightarrow> ('z os_scheme, unit) state" where
  "handleForwardConn pid hostConn containerPort =
     deferring (sys (NetC (ConnClose hostConn))) (do {
       r \<leftarrow> ExecuteInNamespace pid (sys_int (NetC (Dial (''127.0.0.1:'' @ Itoa containerPort))));
       case r of Inl _ \<Rightarrow> return ()
       | Inr containerConn \<Rightarrow> deferring (sys (NetC (ConnClose containerConn))) (do {
           _ \<leftarrow> sys (UiC (Spawn ''copy'' [ArgI hostConn, ArgI containerConn]));
           _ \<leftarrow> sys (UiC (Spawn ''copy'' [ArgI containerConn, ArgI hostConn]));
           sys (UiC (ChanRecv ''done''))
         })
     })"

text \<open>
  The accept loop of a listener, for at most \<open>n\<close> connections; the result says whether it ended,
  which it does at the first error, closing the listener.
\<close>

fun accept_conns :: "nat \<Rightarrow> int \<Rightarrow> int \<Rightarrow> int \<Rightarrow> ('z os_scheme, bool) state" where
  "accept_conns 0 targetPID l containerPort = return False"
| "accept_conns (Suc n) targetPID l containerPort = do {
     conn \<leftarrow> sys_int (NetC (Accept l));
     case conn of
       Inl e \<Rightarrow>
         (if err_is e ENETCLOSED then return True
          else do {
            _ \<leftarrow> sys (UiC (Printf ('' [DEBUG] PortForward: Accept error: %v'' @ [CHR 0x0A]) [ArgE e]));
            return True
          })
     | Inr conn \<Rightarrow> do {
         _ \<leftarrow> sys (UiC (Spawn ''handleForwardConn'' [ArgI targetPID, ArgI conn, ArgI containerPort]));
         accept_conns n targetPID l containerPort
       }
   }"

definition acceptLoop :: "nat \<Rightarrow> int \<Rightarrow> int \<Rightarrow> int \<Rightarrow> ('z os_scheme, bool) state" where
  "acceptLoop n targetPID l containerPort = do {
     ended \<leftarrow> accept_conns n targetPID l containerPort;
     if ended then do { _ \<leftarrow> sys (NetC (ListenerClose l)); return True } else return False
   }"

section \<open>The table of sessions\<close>

definition add_session :: "string \<Rightarrow> ForwardingSession \<Rightarrow> sessions \<Rightarrow> sessions" where
  "add_session pod x m = map_put pod ((case map_get m pod of None \<Rightarrow> [] | Some xs \<Rightarrow> xs) @ [x]) m"

definition AddSession :: "string \<Rightarrow> int \<Rightarrow> int \<Rightarrow> int \<Rightarrow> ('z fstate_scheme, err option) state" where
  "AddSession pod hostPort containerPort pid = do {
     s \<leftarrow> State_Monad.get;
     let stopChan = fnext s;
     _ \<leftarrow> State_Monad.update (\<lambda>s. s\<lparr>fnext := Suc stopChan\<rparr>);
     e \<leftarrow> PortForward pid hostPort containerPort stopChan;
     case e of Some e \<Rightarrow> return (Some e)
     | None \<Rightarrow> do {
         _ \<leftarrow> sys (UiC (Lock ForwardMu));
         _ \<leftarrow> State_Monad.update (\<lambda>s. s\<lparr>sessions :=
           add_session pod \<lparr>HostPort = hostPort, Stop = stopChan\<rparr> (sessions s)\<rparr>);
         _ \<leftarrow> sys (UiC (Unlock ForwardMu));
         return None
       }
   }"

text \<open>A stop signal is offered once to each session's listener; one not waiting misses it.\<close>

definition CleanupForward :: "string \<Rightarrow> ('z fstate_scheme, unit) state" where
  "CleanupForward pod = do {
     _ \<leftarrow> sys (UiC (Lock ForwardMu));
     deferring (sys (UiC (Unlock ForwardMu))) (do {
       s \<leftarrow> State_Monad.get;
       case map_get (sessions s) pod of None \<Rightarrow> return ()
       | Some xs \<Rightarrow> do {
           _ \<leftarrow> for_each xs (\<lambda>x. sys (UiC (TrySend (int (Stop x)))));
           State_Monad.update (\<lambda>s. s\<lparr>sessions := map_del pod (sessions s)\<rparr>)
         }
     })
   }"

definition session_ports :: "string \<Rightarrow> sessions \<Rightarrow> int list" where
  "session_ports pod m = map HostPort (case map_get m pod of None \<Rightarrow> [] | Some xs \<Rightarrow> xs)"

definition ListPorts :: "string \<Rightarrow> ('z fstate_scheme, int list) state" where
  "ListPorts pod = do {
     _ \<leftarrow> sys (UiC (Lock ForwardMu));
     deferring (sys (UiC (Unlock ForwardMu))) (do {
       s \<leftarrow> State_Monad.get;
       return (session_ports pod (sessions s))
     })
   }"

section \<open>The interface of a forwarder\<close>

text \<open>
  What \<open>ForwardManager\<close> promises: a session added appends its port to its pod's, one refused
  changes nothing, cleaning up a pod leaves it none, and other pods are not touched. The
  operations of a history that took effect then determine every pod's ports.
\<close>

datatype forward_op = OpAdd string int int int | OpCleanup string

text \<open>The ports a history leaves a pod, read off the history alone.\<close>

fun ports_after :: "forward_op list \<Rightarrow> string \<Rightarrow> int list \<Rightarrow> int list" where
  "ports_after [] pod ps = ps"
| "ports_after (OpAdd q hp cp pid # ops) pod ps = ports_after ops pod (if q = pod then ps @ [hp] else ps)"
| "ports_after (OpCleanup q # ops) pod ps = ports_after ops pod (if q = pod then [] else ps)"

text \<open>Run a history; the operations that took effect, and the state.\<close>

fun run_forward ::
  "(string \<Rightarrow> int \<Rightarrow> int \<Rightarrow> int \<Rightarrow> 's \<Rightarrow> err option \<times> 's) \<Rightarrow> (string \<Rightarrow> 's \<Rightarrow> 's) \<Rightarrow>
    forward_op list \<Rightarrow> 's \<Rightarrow> forward_op list \<times> 's" where
  "run_forward add cleanup [] s = ([], s)"
| "run_forward add cleanup (OpAdd q hp cp pid # ops) s =
     (case add q hp cp pid s of
        (Some _, s') \<Rightarrow> run_forward add cleanup ops s'
      | (None, s') \<Rightarrow> (case run_forward add cleanup ops s' of
          (eff, s'') \<Rightarrow> (OpAdd q hp cp pid # eff, s'')))"
| "run_forward add cleanup (OpCleanup q # ops) s =
     (case run_forward add cleanup ops (cleanup q s) of (eff, s') \<Rightarrow> (OpCleanup q # eff, s'))"

locale forward_manager =
  fixes add :: "string \<Rightarrow> int \<Rightarrow> int \<Rightarrow> int \<Rightarrow> 's \<Rightarrow> err option \<times> 's"
    and cleanup :: "string \<Rightarrow> 's \<Rightarrow> 's"
    and ports :: "string \<Rightarrow> 's \<Rightarrow> int list"
  assumes ports_add: "add q hp cp pid s = (None, s') \<Longrightarrow>
      ports pod s' = (if q = pod then ports pod s @ [hp] else ports pod s)"
    and ports_refused: "add q hp cp pid s = (Some e, s') \<Longrightarrow> ports pod s' = ports pod s"
    and ports_cleanup: "ports pod (cleanup q s) = (if q = pod then [] else ports pod s)"
begin

lemma ports_history:
  "run_forward add cleanup ops s = (eff, s') \<Longrightarrow> ports pod s' = ports_after eff pod (ports pod s)"
proof (induction ops arbitrary: s eff s')
  case (Cons op ops)
  show ?case
  proof (cases op)
    case (OpAdd q hp cp pid)
    obtain r s1 where a: "add q hp cp pid s = (r, s1)" by (cases "add q hp cp pid s")
    obtain eff1 s2 where r1: "run_forward add cleanup ops s1 = (eff1, s2)"
      by (cases "run_forward add cleanup ops s1")
    from Cons.prems OpAdd a r1 Cons.IH [OF r1] show ?thesis
      using ports_add ports_refused by (cases r) auto
  next
    case (OpCleanup q)
    obtain eff1 s2 where r1: "run_forward add cleanup ops (cleanup q s) = (eff1, s2)"
      by (cases "run_forward add cleanup ops (cleanup q s)")
    from Cons.prems OpCleanup r1 Cons.IH [OF r1] show ?thesis by (auto simp: ports_cleanup)
  qed
qed simp

end

section \<open>The forwarder keeps the promise\<close>

lemma yields_PortForward:
  "yields (PortForward pid hp cp stop) (\<lambda>r cs. r = None \<longrightarrow> (\<exists>l. cs =
     [NetC (Listen (''0.0.0.0:'' @ Itoa hp)), UiC (Spawn ''stopListener'' [ArgI (int stop), ArgI l]),
      UiC (Spawn ''acceptLoop'' [ArgI pid, ArgI l, ArgI cp])]))"
  unfolding PortForward_def Let_def by (rule yield_rules | simp)+

lemmas appends_PortForward [io_only] = yields_appends [OF yields_PortForward]

lemma sessions_with_calls [simp]:
  "sessions (with_calls cs s) = sessions s" "sessions (emit c s) = sessions s"
  "fnext (with_calls cs s) = fnext s" "fnext (emit c s) = fnext s"
  by (simp_all add: with_calls_def emit_def)

lemma session_ports_add:
  "session_ports pod (add_session q x m) =
    (if q = pod then session_ports pod m @ [HostPort x] else session_ports pod m)"
  by (simp add: session_ports_def add_session_def split: option.split)

lemma sessions_update [simp]:
  "sessions (s\<lparr>fnext := n\<rparr>) = sessions s" "fnext (s\<lparr>sessions := m\<rparr>) = fnext s"
  by simp_all

lemma AddSession_sessions:
  "run_state (AddSession pod hp cp pid) s = (r, s') \<Longrightarrow> sessions s' =
    (if r = None then add_session pod \<lparr>HostPort = hp, Stop = fnext s\<rparr> (sessions s) else sessions s)"
  by (auto simp: AddSession_def State_Monad.update_def appends_run [OF appends_PortForward] Let_def
      split: option.splits)

lemma CleanupForward_sessions:
  "sessions (snd (run_state (CleanupForward pod) s)) = map_del pod (sessions s)"
  by (auto simp: CleanupForward_def State_Monad.update_def run_for_each_sys delete_id map_of_eq_None_iff
      split: option.split)

interpretation forwarder: forward_manager
    "\<lambda>q hp cp pid s. run_state (AddSession q hp cp pid) s"
    "\<lambda>q s. snd (run_state (CleanupForward q) s)"
    "\<lambda>pod s. session_ports pod (sessions s)"
proof unfold_locales
  fix q hp cp pid pod e and s s' :: "'z fstate_scheme"
  show "session_ports pod (sessions s') =
      (if q = pod then session_ports pod (sessions s) @ [hp] else session_ports pod (sessions s))"
    if "run_state (AddSession q hp cp pid) s = (None, s')"
    using AddSession_sessions [OF that] by (simp add: session_ports_add)
  show "session_ports pod (sessions s') = session_ports pod (sessions s)"
    if "run_state (AddSession q hp cp pid) s = (Some e, s')"
    using AddSession_sessions [OF that] by simp
  show "session_ports pod (sessions (snd (run_state (CleanupForward q) s))) =
      (if q = pod then [] else session_ports pod (sessions s))"
    by (simp add: CleanupForward_sessions session_ports_def)
qed

lemma result_ListPorts: "result (ListPorts pod) s = session_ports pod (sessions s)"
  by (simp add: ListPorts_def result_def)

text \<open>
  C32: the ports \<open>list\<close> shows for a pod are its forwards. After any history of sessions asked for and
  of clean-ups, on a fresh forwarder, \<open>List\<close> gives the host ports of the sessions of the pod that
  came up since its last clean-up, in order.
\<close>

theorem forwards_listed:
  assumes "sessions s = NewPortForwarder"
    and "run_forward (\<lambda>q hp cp pid. run_state (AddSession q hp cp pid))
      (\<lambda>q s. snd (run_state (CleanupForward q) s)) ops s = (eff, s')"
  shows "result (ListPorts pod) s' = ports_after eff pod []"
  using forwarder.ports_history [OF assms(2), of pod] assms(1)
  by (simp add: result_ListPorts NewPortForwarder_def session_ports_def)

section \<open>Connections\<close>

text \<open>
  A visit to the network namespace of a process, as the answers of the state decide it:
  \<open>host_ns\<close> is the handle saved of the namespace left, \<open>entered\<close> the namespace entered, if it
  could be opened and entered, and \<open>ns_visit\<close> the calls of a visit that makes the calls \<open>mid\<close>
  inside.
\<close>

definition host_ns :: "'z os_scheme \<Rightarrow> int" where
  "host_ns s = (case o_int s (trace s) (NetC NetnsGet) of Inl _ \<Rightarrow> -1 | Inr ns \<Rightarrow> ns)"

definition opened :: "int \<Rightarrow> 'z os_scheme \<Rightarrow> int option" where
  "opened pid s = (case o_int s (trace s @ [NetC NetnsGet]) (NetC (NetnsGetFromPid pid)) of
     Inl _ \<Rightarrow> None | Inr ns \<Rightarrow> Some ns)"

definition entered :: "int \<Rightarrow> 'z os_scheme \<Rightarrow> int option" where
  "entered pid s = (case opened pid s of None \<Rightarrow> None
   | Some ns \<Rightarrow> if o_err s (trace s @ [NetC NetnsGet, NetC (NetnsGetFromPid pid)]) (NetC (NetnsSet ns)) = None
       then Some ns else None)"

definition ns_visit :: "int \<Rightarrow> call list \<Rightarrow> 'z os_scheme \<Rightarrow> call list" where
  "ns_visit pid mid s = [NetC NetnsGet, NetC (NetnsGetFromPid pid)] @
     (case opened pid s of None \<Rightarrow> []
      | Some ns \<Rightarrow> [NetC (NetnsSet ns)] @
          (if entered pid s = None then [] else mid @ [NetC (NetnsSet (host_ns s))]) @
          [NetC (NetnsClose ns)]) @
     [NetC (NetnsClose (host_ns s))]"

text \<open>The connection that a dial made inside the namespace gives, if it gives one.\<close>

definition dialled :: "int \<Rightarrow> call \<Rightarrow> 'z os_scheme \<Rightarrow> int option" where
  "dialled pid d s = (case entered pid s of None \<Rightarrow> None
   | Some ns \<Rightarrow> (case o_int s (trace s @ [NetC NetnsGet, NetC (NetnsGetFromPid pid), NetC (NetnsSet ns)]) d of
       Inl _ \<Rightarrow> None | Inr conn \<Rightarrow> Some conn))"

lemma run_ExecuteInNamespace_dial:
  "\<exists>r. run_state (ExecuteInNamespace pid (sys_int d)) s = (r, with_calls (ns_visit pid [d] s) s) \<and>
     dialled pid d s = (case r of Inl _ \<Rightarrow> None | Inr conn \<Rightarrow> Some conn)"
  by (cases "o_int s (trace s) (NetC NetnsGet)";
      cases "o_int s (trace s @ [NetC NetnsGet]) (NetC (NetnsGetFromPid pid))")
    (auto simp: ExecuteInNamespace_def Let_def ns_visit_def opened_def entered_def host_ns_def dialled_def
      deferring_def emit_with_calls split: option.splits sum.splits)

text \<open>
  C33: a forwarded connection is served inside the container's network namespace and nowhere else.
  Only the dial is made there, and only if the namespace could be opened and entered; the thread is
  back in the namespace it saved before anything else happens. If the dial gave a connection the
  data is copied both ways and, once one direction is over, both connections are closed; if it did
  not, nothing is copied and the client's connection is closed.
\<close>

theorem handleForwardConn_confined:
  "calls (handleForwardConn pid hostConn port) s =
     (let dial = NetC (Dial (''127.0.0.1:'' @ Itoa port)) in
      ns_visit pid [dial] s @
      (case dialled pid dial s of
         None \<Rightarrow> [NetC (ConnClose hostConn)]
       | Some conn \<Rightarrow> [UiC (Spawn ''copy'' [ArgI hostConn, ArgI conn]), UiC (Spawn ''copy'' [ArgI conn, ArgI hostConn]),
           UiC (ChanRecv ''done''), NetC (ConnClose conn), NetC (ConnClose hostConn)]))"
proof -
  let ?d = "NetC (Dial (''127.0.0.1:'' @ Itoa port))"
  obtain r where r: "run_state (ExecuteInNamespace pid (sys_int ?d)) s = (r, with_calls (ns_visit pid [?d] s) s)"
      "dialled pid ?d s = (case r of Inl _ \<Rightarrow> None | Inr conn \<Rightarrow> Some conn)"
    using run_ExecuteInNamespace_dial by blast
  show ?thesis
    by (cases r) (use r in \<open>simp_all add: handleForwardConn_def deferring_def calls_def Let_def\<close>)
qed

lemma all_accepted_update [simp]:
  "all_accepted (s\<lparr>sessions := m\<rparr>) = all_accepted s" "all_accepted (s\<lparr>fnext := n\<rparr>) = all_accepted s"
  "all_accepted (emit c s) = all_accepted s"
  by (simp_all add: all_accepted_def)

lemma AddSession_accepted:
  "all_accepted s \<Longrightarrow>
    fst (run_state (AddSession q hp cp pid) s) = None \<and> all_accepted (snd (run_state (AddSession q hp cp pid) s))"
  by (simp add: AddSession_def PortForward_def State_Monad.update_def Let_def all_accepted_def)

lemma CleanupForward_accepted:
  "all_accepted s \<Longrightarrow> all_accepted (snd (run_state (CleanupForward q) s))"
  by (simp add: CleanupForward_def State_Monad.update_def run_for_each_sys split: option.split)

lemma run_forward_accepted:
  "all_accepted s \<Longrightarrow> fst (run_forward (\<lambda>q hp cp pid. run_state (AddSession q hp cp pid))
      (\<lambda>q s. snd (run_state (CleanupForward q) s)) ops s) = ops"
proof (induction ops arbitrary: s)
  case (Cons op ops)
  show ?case
  proof (cases op)
    case (OpAdd q hp cp pid)
    obtain s1 where "run_state (AddSession q hp cp pid) s = (None, s1)" "all_accepted s1"
      using AddSession_accepted [OF Cons.prems, of q hp cp pid] by (metis prod.collapse)
    with Cons.IH [of s1] OpAdd show ?thesis by (auto split: prod.splits)
  next
    case (OpCleanup q)
    with Cons.IH [OF CleanupForward_accepted [OF Cons.prems], of q] show ?thesis
      by (auto split: prod.splits)
  qed
qed simp

definition ex_forward :: fstate where
  "ex_forward = os.extend quiet_os \<lparr>Handles = [], IPAlloc = ex_alloc, Subnet = Some subnet24,
     sessions = NewPortForwarder, fnext = 0\<rparr>"

theorem forwards_listed_witness:
  "\<exists>s'. snd (run_forward (\<lambda>q hp cp pid. run_state (AddSession q hp cp pid))
      (\<lambda>q s. snd (run_state (CleanupForward q) s))
      [OpAdd ''a'' 80 80 7, OpCleanup ''a'', OpAdd ''a'' 3000 3000 7] ex_forward) = s' \<and>
    result (ListPorts ''a'') s' = [3000]"
proof -
  let ?run = "\<lambda>ops. run_forward (\<lambda>q hp cp pid. run_state (AddSession q hp cp pid))
      (\<lambda>q s. snd (run_state (CleanupForward q) s)) ops ex_forward"
  let ?ops = "[OpAdd ''a'' 80 80 7, OpCleanup ''a'', OpAdd ''a'' 3000 3000 7]"
  obtain eff s' where r: "?run ?ops = (eff, s')" by (cases "?run ?ops")
  have "all_accepted ex_forward" by (simp add: all_accepted_def ex_forward_def quiet_os_def os.defs)
  then have "fst (?run ?ops) = ?ops" by (rule run_forward_accepted)
  with r have e: "eff = ?ops" by simp
  have "sessions ex_forward = NewPortForwarder" by (simp add: ex_forward_def os.defs)
  from forwards_listed [OF this r, of "''a''"] e have "result (ListPorts ''a'') s' = [3000]" by simp
  with r show ?thesis by (metis snd_conv)
qed

end
