(* ===== verification/ContainerId.thy ===== *)
theory ContainerId
  imports GoStrconv FdsSetup
begin

text \<open>
  Names of containers: \<open>bctor-\<close>, the letters of the pod, the index in the pod
  (\<open>splitContainerID\<close> and \<open>podWouldBeEmptyAfterRemoving\<close> of \<open>sup/commands.go\<close>, \<open>isPodEmpty\<close> of
  \<open>sup/clean.go\<close>, the choice of the next letter and index in \<open>sup/orchestrator.go\<close>).
\<close>

section \<open>Splitting\<close>

text \<open>The loop that counts the leading letters, and the one that looks for a byte that is no digit.\<close>

fun letters_end :: "string \<Rightarrow> nat" where
  "letters_end [] = 0"
| "letters_end (c # cs) = (if is_lower c then Suc (letters_end cs) else 0)"

fun all_digits :: "string \<Rightarrow> bool" where
  "all_digits [] = True"
| "all_digits (c # cs) = (if \<not> is_decimal c then False else all_digits cs)"

definition splitContainerID :: "string \<Rightarrow> (string \<times> string) option" where
  "splitContainerID cid =
     (if \<not> HasPrefix cid ''bctor-'' then None
      else let rest = TrimPrefix cid ''bctor-''
      in if length rest < 2 then None
         else let i = letters_end rest
         in if i = 0 \<or> i = length rest then None
            else if \<not> all_digits (drop i rest) then None
            else Some (take i rest, drop i rest))"

text \<open>\<open>fmt.Sprintf("bctor-%s%d", letter, index)\<close>.\<close>

definition containerID :: "string \<Rightarrow> int \<Rightarrow> string" where
  "containerID letter index = ''bctor-'' @ letter @ Itoa index"

definition podOf :: "string \<Rightarrow> string option" where
  "podOf cid = map_option fst (splitContainerID cid)"

section \<open>Pods\<close>

fun isPodEmpty :: "string \<Rightarrow> (string, 'c) gomap \<Rightarrow> bool" where
  "isPodEmpty podName [] = True"
| "isPodEmpty podName ((cid, c) # cs) =
     (case splitContainerID cid of
        Some (pID, _) \<Rightarrow> if pID = podName then False else isPodEmpty podName cs
      | None \<Rightarrow> isPodEmpty podName cs)"

fun copy_except :: "string \<Rightarrow> (string, 'c) gomap \<Rightarrow> (string, 'c) gomap \<Rightarrow> (string, 'c) gomap" where
  "copy_except removeID [] tmp = tmp"
| "copy_except removeID ((cid, c) # cs) tmp =
     (if cid = removeID then copy_except removeID cs tmp
      else copy_except removeID cs (map_put cid c tmp))"

definition podWouldBeEmptyAfterRemoving :: "string \<Rightarrow> string \<Rightarrow> (string, 'c) gomap \<Rightarrow> bool" where
  "podWouldBeEmptyAfterRemoving podName removeID containers =
     isPodEmpty podName (copy_except removeID containers [])"

section \<open>Choosing names\<close>

text \<open>
  The letters of a specification's id: what is between the first two dashes, without its digits;
  nothing if there is no dash.
\<close>

definition idLetters :: "string \<Rightarrow> string option" where
  "idLetters cid =
     (let parts = Split cid CHR ''-''
      in if length parts > 1 then Some (filter (\<lambda>c. \<not> is_decimal c) (parts ! 1)) else None)"

text \<open>The loop from \<open>a\<close> to \<open>z\<close>.\<close>

definition letter_at :: "nat \<Rightarrow> string" where
  "letter_at i = [char_of (97 + i)]"

fun first_unused :: "string list \<Rightarrow> nat \<Rightarrow> nat \<Rightarrow> string option" where
  "first_unused used i 0 = None"
| "first_unused used i (Suc k) =
     (let letter = letter_at i
      in if letter \<notin> set used then Some letter else first_unused used (i + 1) k)"

definition nextLetter :: "string list \<Rightarrow> err + string" where
  "nextLetter ids =
     (case first_unused (List.map_filter idLetters ids) 0 26 of
        Some letter \<Rightarrow> Inr letter
      | None \<Rightarrow> Inl (Errorf ''alphabet exhausted: kill a pod to free up a letter'' []))"

fun count_ids :: "string \<Rightarrow> (string, 'c) gomap \<Rightarrow> int" where
  "count_ids letter [] = 0"
| "count_ids letter ((cid, _) # cs) =
     (if Contains cid (CHR ''-'' # letter) then 1 else 0) + count_ids letter cs"

definition nextIndex :: "string \<Rightarrow> (string, 'c) gomap \<Rightarrow> int" where
  "nextIndex letter containers = count_ids letter containers + 1"


section \<open>What the names mean\<close>

lemma letters_end_takeWhile: "letters_end s = length (takeWhile is_lower s)"
  by (induction s) auto

lemma all_digits_iff: "all_digits s \<longleftrightarrow> (\<forall>c \<in> set s. is_decimal c)"
  by (induction s) auto

lemma decimal_not_lower: "is_decimal c \<Longrightarrow> \<not> is_lower c"
  by (simp add: is_decimal_def is_lower_def)

lemma takeWhile_letters:
  assumes "\<forall>c \<in> set p. is_lower c" and "i \<noteq> []" and "\<forall>c \<in> set i. is_decimal c"
  shows "takeWhile is_lower (p @ i) = p"
  using assms by (cases i) (auto simp: decimal_not_lower)

lemma take_takeWhile: "take (length (takeWhile P xs)) xs = takeWhile P xs"
  using takeWhile_eq_take [of P xs] by simp

lemma splitContainerID_iff:
  "splitContainerID cid = Some (p, i) \<longleftrightarrow>
    cid = ''bctor-'' @ p @ i \<and> p \<noteq> [] \<and> i \<noteq> [] \<and>
    (\<forall>c \<in> set p. is_lower c) \<and> (\<forall>c \<in> set i. is_decimal c)"
  (is "?l \<longleftrightarrow> ?r")
proof
  assume ?l
  then have pre: "HasPrefix cid ''bctor-''" by (auto simp: splitContainerID_def split: if_splits)
  then obtain rest where cid: "cid = ''bctor-'' @ rest" unfolding HasPrefix_iff by blast
  then have t: "TrimPrefix cid ''bctor-'' = rest" by (simp only: TrimPrefix_append)
  let ?k = "length (takeWhile is_lower rest)"
  from \<open>?l\<close> pre t have k: "?k \<noteq> 0" "?k \<noteq> length rest" and d: "all_digits (drop ?k rest)"
    and p: "p = take ?k rest" and i: "i = drop ?k rest"
    by (simp_all add: splitContainerID_def Let_def letters_end_takeWhile split: if_splits)
  have "p @ i = rest" by (simp add: p i)
  moreover have "p = takeWhile is_lower rest" unfolding p by (rule take_takeWhile)
  then have "\<forall>c \<in> set p. is_lower c" by (auto dest: set_takeWhileD)
  moreover have "?k < length rest" using k(2) length_takeWhile_le [of is_lower rest] by linarith
  then have "i \<noteq> []" by (simp add: i)
  moreover have "p \<noteq> []" using k(1) \<open>p = takeWhile is_lower rest\<close> by auto
  ultimately show ?r using cid d by (simp add: all_digits_iff i)
next
  assume r: ?r
  then have tw: "takeWhile is_lower (p @ i) = p" by (intro takeWhile_letters) simp_all
  have t: "TrimPrefix cid ''bctor-'' = p @ i" using r by (simp only: TrimPrefix_append)
  have h: "HasPrefix cid ''bctor-''" using r by (auto simp: HasPrefix_iff)
  have "length (p @ i) \<ge> 2" using r by (cases p; cases i) simp_all
  with r tw show ?l
    unfolding splitContainerID_def Let_def t letters_end_takeWhile
    by (simp add: h all_digits_iff)
qed

lemma split_containerID [simp]:
  assumes "p \<noteq> []" and "\<forall>c \<in> set p. is_lower c" and "0 \<le> n"
  shows "splitContainerID (containerID p n) = Some (p, Itoa n)"
  using assms Itoa_decimal [OF assms(3)] by (simp add: splitContainerID_iff containerID_def)

interpretation id_codec: codec "\<lambda>(p, n). containerID p n"
    "\<lambda>s. map_option (\<lambda>(p, i). (p, int (the (dec_val 0 i)))) (splitContainerID s)"
    "\<lambda>(p, n). p \<noteq> [] \<and> (\<forall>c \<in> set p. is_lower c) \<and> 0 \<le> n"
  by unfold_locales (auto simp: Itoa_def dec_val_nat_digits)

lemma containerID_inj:
  "\<lbrakk> p \<noteq> []; \<forall>c \<in> set p. is_lower c; 0 \<le> n; q \<noteq> []; \<forall>c \<in> set q. is_lower c; 0 \<le> m \<rbrakk> \<Longrightarrow>
    containerID p n = containerID q m \<longleftrightarrow> p = q \<and> n = m"
  using id_codec.enc_inj [of "(p, n)" "(q, m)"] by simp

text \<open>
  C34: \<open>splitContainerID\<close> accepts exactly the names the supervisor builds: \<open>bctor-\<close>, a nonempty run
  of lower-case letters, a nonempty run of digits; and it returns these two runs.
\<close>

theorem splitContainerID_exact:
  "splitContainerID cid = Some (p, i) \<longleftrightarrow>
    cid = ''bctor-'' @ p @ i \<and> p \<noteq> [] \<and> i \<noteq> [] \<and>
    (\<forall>c \<in> set p. is_lower c) \<and> (\<forall>c \<in> set i. is_decimal c)"
  by (rule splitContainerID_iff)

theorem splitContainerID_exact_witness: "splitContainerID ''bctor-ab12'' = Some (''ab'', ''12'')"
proof -
  have "(\<forall>c \<in> set ''ab''. is_lower c) \<and> (\<forall>c \<in> set ''12''. is_decimal c)" by code_simp
  then show ?thesis using splitContainerID_exact [of "''bctor-ab12''" "''ab''" "''12''"] by simp
qed

section \<open>Pods\<close>

lemma isPodEmpty_iff: "isPodEmpty p m \<longleftrightarrow> (\<forall>k \<in> fst ` set m. podOf k \<noteq> Some p)"
  by (induction p m rule: isPodEmpty.induct) (force simp: podOf_def split: option.split)+

lemma copy_except_keys: "fst ` set (copy_except k m tmp) = fst ` set tmp \<union> (fst ` set m - {k})"
  by (induction k m tmp rule: copy_except.induct) (auto simp: fst_set_map_put)

lemma podWouldBeEmpty_iff:
  "podWouldBeEmptyAfterRemoving p k m \<longleftrightarrow> (\<forall>j \<in> fst ` set m. podOf j = Some p \<longrightarrow> j = k)"
  by (auto simp: podWouldBeEmptyAfterRemoving_def isPodEmpty_iff copy_except_keys)

lemma isPodEmpty_del: "isPodEmpty p (map_del k m) = podWouldBeEmptyAfterRemoving p k m"
  by (auto simp: isPodEmpty_iff podWouldBeEmpty_iff fst_set_map_del)

section \<open>A letter for the next pod\<close>

lemma podOf_idLetters:
  assumes "podOf k = Some p"
  shows "idLetters k = Some p"
proof -
  from assms obtain i where k: "k = ''bctor-'' @ p @ i"
    and p: "\<forall>c \<in> set p. is_lower c" and i: "\<forall>c \<in> set i. is_decimal c"
    by (auto simp: podOf_def splitContainerID_iff)
  have "CHR ''-'' \<notin> set (p @ i)" using p i by (auto simp: is_lower_def is_decimal_def)
  then have "Split k CHR ''-'' = [''bctor'', p @ i]"
    by (simp add: k Split_no_sep)
  moreover have "filter (\<lambda>c. \<not> is_decimal c) p = p" and "filter (\<lambda>c. \<not> is_decimal c) i = []"
    using p i by (auto simp: filter_id_conv decimal_not_lower)
  ultimately show ?thesis by (simp add: idLetters_def)
qed

lemma first_unused_Some:
  "first_unused used i k = Some l \<Longrightarrow>
    \<exists>j < k. l = letter_at (i + j) \<and> l \<notin> set used \<and> (\<forall>j' < j. letter_at (i + j') \<in> set used)"
proof (induction k arbitrary: i)
  case (Suc k)
  show ?case
  proof (cases "letter_at i \<in> set used")
    case True
    with Suc.prems Suc.IH [of "i + 1"] obtain j where j: "j < k" "l = letter_at (i + 1 + j)"
      "l \<notin> set used" "\<forall>j' < j. letter_at (i + 1 + j') \<in> set used" by auto
    have "letter_at (i + j') \<in> set used" if "j' < Suc j" for j'
      using that True j(4) by (cases j') auto
    with j show ?thesis by (intro exI [of _ "Suc j"]) simp
  next
    case False
    with Suc.prems show ?thesis by (intro exI [of _ 0]) auto
  qed
qed simp

lemma first_unused_None:
  "first_unused used i k = None \<longleftrightarrow> (\<forall>j < k. letter_at (i + j) \<in> set used)"
proof (induction k arbitrary: i)
  case (Suc k)
  show ?case by (auto simp: Suc.IH Let_def All_less_Suc2 split: if_splits)
qed simp

lemma letter_at_lower: "n < 26 \<Longrightarrow> letter_at n \<noteq> [] \<and> (\<forall>c \<in> set (letter_at n). is_lower c)"
  by (simp add: letter_at_def is_lower_def of_char_of)

lemma used_letters: "l \<in> set (List.map_filter idLetters ids) \<longleftrightarrow> (\<exists>k \<in> set ids. idLetters k = Some l)"
  by (force simp: List.map_filter_def image_iff)

text \<open>
  C35: a new pod gets a letter of its own: the letter is from \<open>a\<close> to \<open>z\<close>, no id in use is of that
  pod, and every smaller letter is in use; there is an error exactly when all 26 are in use.
\<close>

theorem nextLetter_fresh:
  "(\<forall>l. nextLetter ids = Inr l \<longrightarrow>
      (\<exists>j < 26. l = letter_at j \<and> (\<forall>k \<in> set ids. podOf k \<noteq> Some l) \<and>
        (\<forall>j' < j. \<exists>k \<in> set ids. idLetters k = Some (letter_at j')))) \<and>
   ((\<exists>e. nextLetter ids = Inl e) \<longleftrightarrow>
      (\<forall>j < 26. \<exists>k \<in> set ids. idLetters k = Some (letter_at j)))"
proof (cases "first_unused (List.map_filter idLetters ids) 0 26")
  case None
  then show ?thesis by (simp add: nextLetter_def) (simp add: first_unused_None used_letters)
next
  case (Some l)
  then have "\<not> (\<forall>j < 26. \<exists>k \<in> set ids. idLetters k = Some (letter_at j))"
    using first_unused_None [of "List.map_filter idLetters ids" 0 26] by (auto simp: used_letters)
  moreover from first_unused_Some [OF Some] obtain j where
    j: "j < 26" "l = letter_at j" "l \<notin> set (List.map_filter idLetters ids)"
    "\<forall>j' < j. letter_at j' \<in> set (List.map_filter idLetters ids)" by auto
  moreover have "\<forall>k \<in> set ids. podOf k \<noteq> Some l"
    using j(3) podOf_idLetters unfolding used_letters by blast
  ultimately show ?thesis using Some by (auto simp: nextLetter_def used_letters)
qed

theorem nextLetter_fresh_witness:
  "nextLetter [''bctor-a1'', ''bctor-a2'', ''bctor-c1''] = Inr ''b'' \<and>
    podOf ''bctor-c1'' \<noteq> Some ''b''"
proof -
  have "nextLetter [''bctor-a1'', ''bctor-a2'', ''bctor-c1''] = Inr ''b''" by code_simp
  moreover from this nextLetter_fresh [of "[''bctor-a1'', ''bctor-a2'', ''bctor-c1'']"]
  have "\<forall>k \<in> set [''bctor-a1'', ''bctor-a2'', ''bctor-c1'']. podOf k \<noteq> Some ''b''" by blast
  then have "podOf ''bctor-c1'' \<noteq> Some ''b''" by simp
  ultimately show ?thesis ..
qed

section \<open>An index for the next container\<close>

lemma count_ids_filter:
  "count_ids letter m = int (length (filter (\<lambda>k. Contains k (CHR ''-'' # letter)) (map_keys m)))"
  by (induction letter m rule: count_ids.induct) (auto simp: nextIndex_def)

lemma no_dash: "is_lower c \<or> is_decimal c \<Longrightarrow> c \<noteq> CHR ''-''"
  by (auto simp: is_lower_def is_decimal_def)

text \<open>On the names of one-letter pods, the substring test finds exactly the pod's containers.\<close>

lemma Contains_containerID:
  assumes "is_lower c" and "is_lower l" and "0 \<le> n"
  shows "Contains (containerID [c] n) [CHR ''-'', l] \<longleftrightarrow> c = l"
proof
  assume "Contains (containerID [c] n) [CHR ''-'', l]"
  then obtain u v where e: "''bctor'' @ CHR ''-'' # c # Itoa n = u @ CHR ''-'' # l # v"
    by (auto simp: Contains_iff containerID_def)
  have nd: "CHR ''-'' \<notin> set (c # Itoa n)"
    using no_dash assms Itoa_decimal by auto
  have "CHR ''-'' \<notin> set ''bctor''" by simp
  with e nd have "c # Itoa n = l # v"
    by (auto simp: append_eq_append_conv2 append_eq_Cons_conv Cons_eq_append_conv)
  then show "c = l" by simp
next
  assume "c = l"
  then show "Contains (containerID [c] n) [CHR ''-'', l]"
    unfolding Contains_iff containerID_def by (intro exI [of _ "''bctor''"] exI [of _ "Itoa n"]) simp
qed

definition wellNamed :: "string \<Rightarrow> bool" where
  "wellNamed k \<longleftrightarrow> (\<exists>c n. is_lower c \<and> 0 \<le> n \<and> k = containerID [c] n)"

definition podIndexes :: "char \<Rightarrow> (string, 'c) gomap \<Rightarrow> int set" where
  "podIndexes c m = {n. 0 \<le> n \<and> containerID [c] n \<in> fst ` set m}"

lemma nextIndex_card:
  assumes "gomap_ok m" and "\<forall>k \<in> fst ` set m. wellNamed k" and "is_lower l"
  shows "nextIndex [l] m = int (card (podIndexes l m)) + 1"
proof -
  let ?P = "\<lambda>k. Contains k [CHR ''-'', l]"
  have "{k \<in> fst ` set m. ?P k} = (\<lambda>n. containerID [l] n) ` podIndexes l m"
  proof (intro equalityI subsetI)
    fix k assume k: "k \<in> {k \<in> fst ` set m. ?P k}"
    with assms(2) obtain c n where c: "is_lower c" "0 \<le> n" "k = containerID [c] n"
      unfolding wellNamed_def by blast
    with k assms(3) have "c = l" by (simp add: Contains_containerID)
    with c k show "k \<in> (\<lambda>n. containerID [l] n) ` podIndexes l m" by (auto simp: podIndexes_def)
  next
    fix k assume "k \<in> (\<lambda>n. containerID [l] n) ` podIndexes l m"
    then show "k \<in> {k \<in> fst ` set m. ?P k}"
      using assms(3) by (auto simp: podIndexes_def Contains_containerID)
  qed
  moreover have "inj_on (\<lambda>n. containerID [l] n) (podIndexes l m)"
    using assms(3) by (auto simp: inj_on_def podIndexes_def containerID_inj)
  ultimately have "card {k \<in> fst ` set m. ?P k} = card (podIndexes l m)"
    by (simp add: card_image)
  moreover have "card (set (filter ?P (map_keys m))) = length (filter ?P (map_keys m))"
    using assms(1) by (intro distinct_card) (simp add: gomap_ok_def)
  ultimately show ?thesis by (simp add: nextIndex_def count_ids_filter)
qed

text \<open>
  The index chosen for a joiner is the number of the pod's containers plus one. It is a new
  one if the pod's containers have the indexes 1 to n; in general it is the index of a running
  container exactly when that number plus one is taken, as after the exit of a middle one.
\<close>

theorem nextIndex_fresh:
  assumes "gomap_ok m" and "\<forall>k \<in> fst ` set m. wellNamed k" and "is_lower l"
  shows "(podIndexes l m = {1..n} \<longrightarrow> 0 \<le> n \<longrightarrow> nextIndex [l] m = n + 1) \<and>
    (containerID [l] (nextIndex [l] m) \<in> fst ` set m \<longleftrightarrow>
      int (card (podIndexes l m)) + 1 \<in> podIndexes l m) \<and>
    (podIndexes l m = {1..n} \<longrightarrow> 0 \<le> n \<longrightarrow> containerID [l] (nextIndex [l] m) \<notin> fst ` set m)"
proof -
  note c = nextIndex_card [OF assms]
  have "containerID [l] (nextIndex [l] m) \<in> fst ` set m \<longleftrightarrow>
      int (card (podIndexes l m)) + 1 \<in> podIndexes l m"
    unfolding c by (auto simp: podIndexes_def)
  moreover have "nextIndex [l] m = n + 1" if "podIndexes l m = {1..n}" "0 \<le> n"
    using that c by simp
  moreover have "int (card {1..n}) + 1 \<notin> {1..n}" if "0 \<le> n" using that by simp
  ultimately show ?thesis by metis
qed

text \<open>A pod that lost its second container of three: the next index is 3 again.\<close>

theorem nextIndex_fresh_witness:
  "nextIndex ''a'' [(''bctor-a1'', ()), (''bctor-a3'', ())] = 3 \<and>
    nextIndex ''a'' [(''bctor-a1'', ()), (''bctor-a2'', ())] = 3"
proof -
  have id: "containerID ''a'' 1 = ''bctor-a1''" "containerID ''a'' 2 = ''bctor-a2''"
    "containerID ''a'' 3 = ''bctor-a3''" by code_simp+
  have l: "is_lower (CHR ''a'')" by code_simp
  have "wellNamed (containerID ''a'' n)" if "0 \<le> n" for n
    unfolding wellNamed_def using that l by (intro exI [of _ "CHR ''a''"] exI [of _ n]) simp
  from this [of 1] this [of 2] this [of 3]
  have wn: "wellNamed ''bctor-a1''" "wellNamed ''bctor-a2''" "wellNamed ''bctor-a3''"
    unfolding id by simp_all
  have eq: "containerID ''a'' n = containerID ''a'' m \<longleftrightarrow> n = m" if "0 \<le> n" "0 \<le> m" for n m
    using containerID_inj [of "''a''" n "''a''" m] l that by auto
  have i1: "podIndexes (CHR ''a'') [(''bctor-a1'', ()), (''bctor-a3'', ())] = {1, 3}"
    by (auto simp: podIndexes_def id [symmetric] eq)
  have i2: "podIndexes (CHR ''a'') [(''bctor-a1'', ()), (''bctor-a2'', ())] = {1..2}"
    by (auto simp: podIndexes_def id [symmetric] eq)
  have "containerID ''a'' (nextIndex ''a'' [(''bctor-a1'', ()), (''bctor-a3'', ())]) \<in>
      fst ` set [(''bctor-a1'', ()), (''bctor-a3'', ())]"
    using nextIndex_fresh [of "[(''bctor-a1'', ()), (''bctor-a3'', ())]" "CHR ''a''" 0] wn l i1
    by (simp add: gomap_ok_def)
  moreover have "nextIndex ''a'' [(''bctor-a1'', ()), (''bctor-a2'', ())] = 3"
    using nextIndex_fresh [of "[(''bctor-a1'', ()), (''bctor-a2'', ())]" "CHR ''a''" 2] wn l i2
    by (simp add: gomap_ok_def)
  moreover have "nextIndex ''a'' [(''bctor-a1'', ()), (''bctor-a3'', ())] = 3" by code_simp
  ultimately show ?thesis by simp
qed

end
