(* ===== verification/Supervisor.thy ===== *)
theory Supervisor
  imports Init Forward ContainerId Status
begin

text \<open>
  The supervisor's state and the start of containers: \<open>Container\<close>, \<open>StartContainer\<close> and
  \<open>FinalizeContainer\<close> of \<open>sup/supervisor.go\<close>, \<open>appState\<close> and the start functions of
  \<open>sup/orchestrator.go\<close>, \<open>Target\<close> and \<open>Register\<close> of \<open>sup/multiplexer.go\<close>.
\<close>

section \<open>State\<close>

datatype ContainerState = ContainerCreated | ContainerInitializing | ContainerRunning
  | ContainerStopped | ContainerExited

text \<open>The number a state is printed as.\<close>

fun stateCode :: "ContainerState \<Rightarrow> int" where
  "stateCode ContainerCreated = 0"
| "stateCode ContainerInitializing = 1"
| "stateCode ContainerRunning = 2"
| "stateCode ContainerStopped = 3"
| "stateCode ContainerExited = 4"

text \<open>A nil pointer is \<open>None\<close>: a placeholder has no specification, a container not set up no IPC.\<close>

record Container =
  CSpec :: "ContainerSpec option"
  InitPID :: int
  WorkloadPID :: int
  CState :: ContainerState
  CNamespaces :: handle_map
  CNet :: "NetResources option"
  CIPC :: "IPC option"

record Target =
  PTY :: "int option"
  TPID :: int

text \<open>
  The fields of \<open>SupervisorCtx\<close> are those of \<open>fstate\<close>. Containers are objects shared by the table,
  the starting functions and the commands, so the table holds addresses: \<open>heap\<close> gives the object
  at an address below \<open>hnext\<close>. \<open>podNet\<close> is the local map of \<open>OnContainerExit\<close>; the
  last three fields are the multiplexer's.
\<close>

record app = fstate +
  heap :: "nat \<Rightarrow> Container"
  hnext :: nat
  containers :: "(string, nat) gomap"
  podNet :: "(string, NetResources) gomap"
  ParentNS :: "NamespaceState option"
  iface :: string
  targets :: "(string, Target) gomap"
  activeID :: string
  lineBuf :: string

definition newContainer :: "Container \<Rightarrow> ('z app_scheme, nat) state" where
  "newContainer c = do {
     s \<leftarrow> State_Monad.get;
     _ \<leftarrow> State_Monad.update (\<lambda>s. s\<lparr>heap := (heap s)(hnext s := c), hnext := Suc (hnext s)\<rparr>);
     return (hnext s)
   }"

definition readContainer :: "nat \<Rightarrow> ('z app_scheme, Container) state" where
  "readContainer a = do { s \<leftarrow> State_Monad.get; return (heap s a) }"

definition writeContainer :: "nat \<Rightarrow> (Container \<Rightarrow> Container) \<Rightarrow> ('z app_scheme, unit) state" where
  "writeContainer a f = State_Monad.update (\<lambda>s. s\<lparr>heap := (heap s)(a := f (heap s a))\<rparr>)"

text \<open>The two writes of the table, each marked in the trace.\<close>

definition putContainer :: "string \<Rightarrow> nat \<Rightarrow> ('z app_scheme, unit) state" where
  "putContainer cid a = do {
     _ \<leftarrow> sys (UiC (TableWrite cid));
     State_Monad.update (\<lambda>s. s\<lparr>containers := map_put cid a (containers s)\<rparr>)
   }"

definition deleteContainer :: "string \<Rightarrow> ('z app_scheme, unit) state" where
  "deleteContainer cid = do {
     _ \<leftarrow> sys (UiC (TableWrite cid));
     State_Monad.update (\<lambda>s. s\<lparr>containers := map_del cid (containers s)\<rparr>)
   }"

definition lookupContainer :: "string \<Rightarrow> ('z app_scheme, nat option) state" where
  "lookupContainer cid = do { s \<leftarrow> State_Monad.get; return (map_get (containers s) cid) }"

text \<open>A section of code under a mutex.\<close>

definition locked :: "mutex \<Rightarrow> ('z os_scheme, 'a) state \<Rightarrow> ('z os_scheme, 'a) state" where
  "locked m body = do {
     _ \<leftarrow> sys (UiC (Lock m));
     r \<leftarrow> body;
     _ \<leftarrow> sys (UiC (Unlock m));
     return r
   }"

section \<open>Critical sections\<close>

text \<open>
  Each change of the shared tables by a starting function is a section of its own: the container
  is entered when its init is forked, and entered anew, as another object, when its workload's
  pid is known.
\<close>

definition blankContainer :: Container where
  "blankContainer = \<lparr>CSpec = None, InitPID = 0, WorkloadPID = 0, CState = ContainerCreated,
     CNamespaces = [], CNet = None, CIPC = None\<rparr>"

definition enterCreated :: "ContainerSpec \<Rightarrow> int \<Rightarrow> ('z app_scheme, unit) state" where
  "enterCreated spec pid = locked ScxMu (do {
     a \<leftarrow> newContainer (blankContainer\<lparr>CSpec := Some spec, InitPID := pid, CState := ContainerCreated\<rparr>);
     putContainer (ID spec) a
   })"

definition enterRunning :: "Container \<Rightarrow> ContainerSpec \<Rightarrow> ('z app_scheme, nat) state" where
  "enterRunning c spec = do {
     a \<leftarrow> newContainer c;
     locked ScxMu (do { _ \<leftarrow> putContainer (ID spec) a; return a })
   }"

definition enterPlaceholder :: "string \<Rightarrow> ('z app_scheme, unit) state" where
  "enterPlaceholder name = locked ScxMu (do {
     a \<leftarrow> newContainer (blankContainer\<lparr>CState := ContainerInitializing\<rparr>);
     putContainer name a
   })"

definition Register :: "string \<Rightarrow> int \<Rightarrow> int \<Rightarrow> ('z app_scheme, unit) state" where
  "Register cid ptyMaster pid = do {
     _ \<leftarrow> locked MuxMu (State_Monad.update (\<lambda>s.
       s\<lparr>targets := map_put cid \<lparr>PTY = Some ptyMaster, TPID = pid\<rparr> (targets s)\<rparr>));
     sys (UiC (Spawn ''pipeOutput'' [ArgS cid]))
   }"

section \<open>Starting a container\<close>

definition handlesOf :: "(NamespaceType, int) gomap \<Rightarrow> handle_map" where
  "handlesOf created = foldl (\<lambda>m (ns, fd). map_put ns \<lparr>HandleType = ns, FD = fd, Ref = 1\<rparr> m) [] created"

definition recvCreated :: "ContainerSpec \<Rightarrow> IPC \<Rightarrow> ('z app_scheme, (NamespaceType, int) gomap) state" where
  "recvCreated spec ipc =
     (if createsAnyNamespace spec \<or> Shares spec \<noteq> [] then do {
        r \<leftarrow> RecvCreatedNamespaceFDs ipc;
        case r of Inl _ \<Rightarrow> return []
        | Inr fds \<Rightarrow> do { _ \<leftarrow> RegisterNamespaceHandles (ID spec) fds; return fds }
      } else return [])"

definition setupNet :: "ContainerSpec \<Rightarrow> IPC \<Rightarrow> (NamespaceType, int) gomap \<Rightarrow>
    ('z app_scheme, NetResources option outcome) state" where
  "setupNet spec ipc created =
     (if IsNetRoot spec then
        obind (case map_get created NSNet of
            None \<Rightarrow> return (Ret None)
          | Some fd \<Rightarrow>
              (if fd = 0 then return (Ret None)
               else obind (NetworkConfig fd spec) (\<lambda>netres. do {
                 _ \<leftarrow> (if netres = None
                   then do { _ \<leftarrow> LogError ''Supervisor: Network setup failed for %s.'' [ArgS (ID spec)]; return () }
                   else return ());
                 return (Ret netres)
               }))) (\<lambda>netres. do {
          _ \<leftarrow> LogInfo ''NETWORK CONFIGURED!'' [];
          _ \<leftarrow> FreeFd (snd (NetReady ipc));
          return (Ret netres)
        })
      else return (Ret None))"

definition FinalizeContainer :: "int \<Rightarrow> ContainerSpec \<Rightarrow> IPC \<Rightarrow> ('z app_scheme, nat outcome) state" where
  "FinalizeContainer childPID spec ipc =
     obind (RecvWorkloadPID ipc) (\<lambda>workloadPID. do {
       created \<leftarrow> recvCreated spec ipc;
       obind (setupNet spec ipc created) (\<lambda>netres. do {
         a \<leftarrow> enterRunning \<lparr>CSpec = Some spec, InitPID = childPID, WorkloadPID = workloadPID,
             CState = ContainerRunning, CNamespaces = handlesOf created, CNet = netres, CIPC = None\<rparr> spec;
         _ \<leftarrow> sys (FdC (Close (fst (Init2Sup ipc))));
         _ \<leftarrow> sys (FdC (Close (fst (Sup2Init ipc))));
         return (Ret a)
       })
     })"

text \<open>What the parent does while the child applies its namespaces.\<close>

definition handshakeWithInit :: "ContainerSpec \<Rightarrow> int \<Rightarrow> IPC \<Rightarrow> ('z app_scheme, err option) state" where
  "handshakeWithInit spec childPID ipc = do {
     e \<leftarrow> (if USER (Namespaces spec) \<and> \<not> specJoins spec NSUser then do {
         _ \<leftarrow> WaitFd (fst (UserNSReady ipc));
         e \<leftarrow> SetupUserNSAndContinue childPID ipc;
         case e of None \<Rightarrow> return None
         | Some e \<Rightarrow> do {
             _ \<leftarrow> LogError (''Supervisor: SetupUserNSAndContinue failed: %v'' @ [CHR 0x0A]) [ArgE e];
             return (Some e)
           }
       } else do { _ \<leftarrow> FreeFd (snd (UserNSPipe ipc)); return None });
     case e of Some e \<Rightarrow> return (Some e)
     | None \<Rightarrow> do {
         _ \<leftarrow> (if Shares spec \<noteq> [] then do {
             _ \<leftarrow> locked ScxMu (return ());
             _ \<leftarrow> SendNamespaceFDs ipc (Shares spec);
             return ()
           } else return ());
         return None
       }
   }"

text \<open>
  The first use of a nil \<open>*IPC\<close> in the child and in its parent. It is reached by the
  specifications the program starts: those with shares receive them first, the others create a
  user namespace.
\<close>

definition nilInit :: "ContainerSpec \<Rightarrow> ('z app_scheme, 'a outcome) state" where
  "nilInit spec = do {
     _ \<leftarrow> LogInfo ''Init: Start to Apply Namespaces'' [];
     if Shares spec = [] \<and> USER (Namespaces spec) then do {
       e \<leftarrow> sys_err (PrC (Unshare [CLONE_NEWUSER]));
       case e of None \<Rightarrow> return (Panic ''nil pointer dereference'')
       | Some e \<Rightarrow> do {
           er \<leftarrow> LogError ''unshare(user): %v'' [ArgE e];
           _ \<leftarrow> LogError '' Init: Failed to apply namespaces: %v'' [ArgE er];
           _ \<leftarrow> LogError '' Init: full spec: %+v'' [];
           return (Exit 1)
         }
     } else return (Panic ''nil pointer dereference'')
   }"

text \<open>
  \<open>StartContainer\<close>, in the parent and in the child. The child only comes back from
  \<open>RunContainerInit\<close> when it could not fork; then it goes on with the parent's code.
\<close>

definition StartContainer :: "ContainerSpec \<Rightarrow> IPC option \<Rightarrow> ('z app_scheme, (err + nat) outcome) state" where
  "StartContainer spec ipcp = do {
     pid \<leftarrow> NewFork;
     case pid of Inl e \<Rightarrow> return (Ret (Inl e))
     | Inr childPID \<Rightarrow>
         (case ipcp of
            None \<Rightarrow> (if childPID = 0 then nilInit spec else return (Panic ''nil pointer dereference''))
          | Some ipc \<Rightarrow>
              obind (if childPID = 0 then obind (RunContainerInit spec ipc) (\<lambda>_. return (Ret None))
                     else do { e \<leftarrow> handshakeWithInit spec childPID ipc; return (Ret e) }) (\<lambda>e.
              case e of Some e \<Rightarrow> return (Ret (Inl e))
              | None \<Rightarrow> do {
                  _ \<leftarrow> sys (FdC (Close (snd (Sup2Init ipc))));
                  _ \<leftarrow> enterCreated spec childPID;
                  obind (FinalizeContainer childPID spec ipc) (\<lambda>a. return (Ret (Inr a)))
                }))
   }"

section \<open>Choosing names\<close>

fun specIDs :: "(nat \<Rightarrow> Container) \<Rightarrow> (string, nat) gomap \<Rightarrow> string list outcome" where
  "specIDs h [] = Ret []"
| "specIDs h ((_, a) # cs) =
     (case CSpec (h a) of
        None \<Rightarrow> Panic ''nil pointer dereference''
      | Some spec \<Rightarrow> outcome_bind (specIDs h cs) (\<lambda>ids. Ret (ID spec # ids)))"

definition GetNextPodLetter :: "('z app_scheme, (err + string) outcome) state" where
  "GetNextPodLetter = do {
     _ \<leftarrow> sys (UiC (Lock ScxMu));
     deferring (sys (UiC (Unlock ScxMu))) (do {
       s \<leftarrow> State_Monad.get;
       return (outcome_bind (specIDs (heap s) (containers s)) (\<lambda>ids. Ret (nextLetter ids)))
     })
   }"

definition GetNextContainerIndex :: "string \<Rightarrow> ('z app_scheme, int) state" where
  "GetNextContainerIndex letter = do {
     _ \<leftarrow> sys (UiC (Lock ScxMu));
     deferring (sys (UiC (Unlock ScxMu))) (do {
       s \<leftarrow> State_Monad.get;
       return (nextIndex letter (containers s))
     })
   }"

section \<open>Creators and joiners\<close>

definition creatorSpec :: "string \<Rightarrow> ExecutionMode \<Rightarrow> Profile \<Rightarrow> ContainerSpec" where
  "creatorSpec letter runMode runProfile = DefaultSpec\<lparr>ID := containerID letter 1, IsNetRoot := True,
     Workload := (Workload DefaultSpec)\<lparr>Mode := runMode\<rparr>, Seccomp := runProfile\<rparr>"

definition joinerSpec :: "string \<Rightarrow> string \<Rightarrow> ExecutionMode \<Rightarrow> Profile \<Rightarrow> ContainerSpec" where
  "joinerSpec rootID name runMode runProfile = DefaultSpec\<lparr>ID := name,
     Workload := (Workload DefaultSpec)\<lparr>Mode := runMode\<rparr>, Seccomp := runProfile,
     Namespaces := (Namespaces DefaultSpec)\<lparr>USER := False, MOUNT := True, NET := True, PIDNS := False\<rparr>,
     IsNetRoot := False,
     Shares := [\<lparr>ShareType = NSUser, FromContainer = rootID\<rparr>, \<lparr>ShareType = NSNet, FromContainer = rootID\<rparr>,
       \<lparr>ShareType = NSMnt, FromContainer = rootID\<rparr>]\<rparr>"

definition batchOf :: "string \<Rightarrow> ContainerSpec \<Rightarrow> ContainerSpec" where
  "batchOf cmd spec = spec\<lparr>Workload := (Workload spec)\<lparr>Args := [''sh'', ''-c'', cmd]\<rparr>\<rparr>"

definition spawnCapture :: "ContainerSpec \<Rightarrow> IPC \<Rightarrow> ('z app_scheme, unit) state" where
  "spawnCapture spec ipc = do {
     _ \<leftarrow> sys (UiC WgAdd);
     sys (UiC (Spawn ''CaptureLogs'' [ArgS (ID spec), ArgI (fst (Log2Sup ipc)), ArgI (snd (Log2Sup ipc))]))
   }"

text \<open>\<open>c.IPC = ipc\<close>, and the release of a container's keep-alive pipe.\<close>

definition setIPC :: "nat \<Rightarrow> IPC \<Rightarrow> ('z app_scheme, unit) state" where
  "setIPC a ipc = writeContainer a (\<lambda>c. c\<lparr>CIPC := Some ipc\<rparr>)"

definition closedKeepAlive :: "Container \<Rightarrow> Container" where
  "closedKeepAlive c = c\<lparr>CIPC := map_option (\<lambda>i. i\<lparr>KeepAlive := (fst (KeepAlive i), -1)\<rparr>) (CIPC c)\<rparr>"

definition freeKeepAlive :: "nat \<Rightarrow> ('z app_scheme, unit) state" where
  "freeKeepAlive a = do {
     c \<leftarrow> readContainer a;
     case CIPC c of None \<Rightarrow> return ()
     | Some ipc \<Rightarrow> do {
         _ \<leftarrow> FreeFd (snd (KeepAlive ipc));
         writeContainer a closedKeepAlive
       }
   }"

text \<open>
  A successful start has a non-nil IPC. \<open>NewIPC\<close> opens the files of the terminal or fails, so the
  code's tests for a nil \<open>PtyMaster\<close> or \<open>PtySlave\<close> are never met.
\<close>

definition StartCreator :: "string \<Rightarrow> ExecutionMode \<Rightarrow> Profile \<Rightarrow> IPC option \<Rightarrow>
    ('z app_scheme, (err + nat) outcome) state" where
  "StartCreator letter runMode runProfile ipcp = do {
     let spec = creatorSpec letter runMode runProfile;
     _ \<leftarrow> LogInfo ''Container %s=Creator'' [ArgS (ID spec)];
     obind (StartContainer spec ipcp) (\<lambda>r.
       case r of Inl e \<Rightarrow> return (Ret (Inl e))
       | Inr a \<Rightarrow> (case ipcp of None \<Rightarrow> return (Panic ''nil pointer dereference'') | Some ipc \<Rightarrow> do {
           _ \<leftarrow> setIPC a ipc;
           _ \<leftarrow> (if Mode (Workload spec) = ModeBatch then spawnCapture spec ipc
                else sys (FdC (Close (snd (Log2Sup ipc)))));
           _ \<leftarrow> sys (FdC (Close (PtySlave ipc)));
           c \<leftarrow> readContainer a;
           _ \<leftarrow> Register (ID spec) (PtyMaster ipc) (WorkloadPID c);
           return (Ret (Inr a))
         }))
   }"

definition StartCreatorBatch :: "string \<Rightarrow> string \<Rightarrow> IPC option \<Rightarrow> ('z app_scheme, (err + nat) outcome) state" where
  "StartCreatorBatch letter cmd ipcp = do {
     let spec = batchOf cmd (creatorSpec letter ModeBatch ProfileBatch);
     _ \<leftarrow> LogInfo ''[Batch] Container %s=Creator (Command: %s)'' [ArgS (ID spec), ArgS cmd];
     obind (StartContainer spec ipcp) (\<lambda>r.
       case r of Inl e \<Rightarrow> return (Ret (Inl e))
       | Inr a \<Rightarrow> (case ipcp of None \<Rightarrow> return (Panic ''nil pointer dereference'') | Some ipc \<Rightarrow> do {
           _ \<leftarrow> setIPC a ipc;
           _ \<leftarrow> spawnCapture spec ipc;
           _ \<leftarrow> sys (FdC (Close (PtySlave ipc)));
           c \<leftarrow> readContainer a;
           _ \<leftarrow> Register (ID spec) (PtyMaster ipc) (WorkloadPID c);
           _ \<leftarrow> freeKeepAlive a;
           return (Ret (Inr a))
         }))
   }"

text \<open>The joiners are started in goroutines of their own, from the root's object.\<close>

definition StartJoiner :: "nat \<Rightarrow> string \<Rightarrow> ExecutionMode \<Rightarrow> Profile \<Rightarrow> IPC option \<Rightarrow>
    ('z app_scheme, unit outcome) state" where
  "StartJoiner root name runMode runProfile ipcp = do {
     r \<leftarrow> readContainer root;
     case CSpec r of None \<Rightarrow> return (Panic ''nil pointer dereference'')
     | Some rspec \<Rightarrow> do {
         let spec = joinerSpec (ID rspec) name runMode runProfile;
         _ \<leftarrow> LogInfo ''Container %s=Joiner of: %s'' [ArgS (ID spec), ArgS (ID rspec)];
         obind (StartContainer spec ipcp) (\<lambda>r.
           case r of
             Inl e \<Rightarrow> do {
               _ \<leftarrow> LogError ''Start Joiner %s failed: %v'' [ArgS (ID spec), ArgE e];
               return (Ret ())
             }
           | Inr a \<Rightarrow> (case ipcp of None \<Rightarrow> return (Panic ''nil pointer dereference'') | Some ipc \<Rightarrow> do {
               _ \<leftarrow> setIPC a ipc;
               _ \<leftarrow> (if Mode (Workload spec) = ModeInteractive then sys (FdC (Close (snd (Log2Sup ipc))))
                    else spawnCapture spec ipc);
               c \<leftarrow> readContainer a;
               _ \<leftarrow> Register (ID spec) (PtyMaster ipc) (WorkloadPID c);
               _ \<leftarrow> sys (FdC (Close (PtySlave ipc)));
               _ \<leftarrow> freeKeepAlive a;
               return (Ret ())
             }))
       }
   }"

definition StartJoinerBatch :: "nat \<Rightarrow> string \<Rightarrow> string \<Rightarrow> IPC option \<Rightarrow> ('z app_scheme, unit outcome) state" where
  "StartJoinerBatch root name cmd ipcp = do {
     r \<leftarrow> readContainer root;
     case CSpec r of None \<Rightarrow> return (Panic ''nil pointer dereference'')
     | Some rspec \<Rightarrow> do {
         let spec = batchOf cmd (joinerSpec (ID rspec) name ModeBatch ProfileBatch);
         _ \<leftarrow> LogInfo ''[Batch] Container %s joining Pod %s: %s'' [ArgS (ID spec), ArgS (ID rspec), ArgS cmd];
         obind (StartContainer spec ipcp) (\<lambda>r.
           case r of
             Inl e \<Rightarrow> do {
               _ \<leftarrow> LogError ''Start Batch Joiner %s failed: %v'' [ArgS (ID spec), ArgE e];
               return (Ret ())
             }
           | Inr a \<Rightarrow> (case ipcp of None \<Rightarrow> return (Panic ''nil pointer dereference'') | Some ipc \<Rightarrow> do {
               _ \<leftarrow> setIPC a ipc;
               _ \<leftarrow> (if snd (Log2Sup ipc) \<noteq> -1 then spawnCapture spec ipc else return ());
               c \<leftarrow> readContainer a;
               _ \<leftarrow> Register (ID spec) (PtyMaster ipc) (WorkloadPID c);
               _ \<leftarrow> sys (FdC (Close (PtySlave ipc)));
               _ \<leftarrow> freeKeepAlive a;
               return (Ret ())
             }))
       }
   }"

end
