(* ===== verification/Reaper.thy ===== *)
theory Reaper
  imports Supervisor
begin

text \<open>
  What the supervisor does when a child exits or a signal arrives: \<open>OnContainerExit\<close> of
  \<open>sup/clean.go\<close> with its helpers, the events of \<open>sup/signal.go\<close>, the goroutine of
  \<open>sup/reaper.go\<close> that waits for children, and \<open>sup/helpers.go\<close>.
\<close>

section \<open>Events\<close>

datatype Event = EventChildExit int int | EventSignal signal

definition waitForAnyChild :: "('z os_scheme, err + int \<times> int) state" where
  "waitForAnyChild = sys_pair (PrC (Wait4 (-1)))"

text \<open>One round of the loop of \<open>StartReaper\<close>, with the event it sends, and \<open>n\<close> rounds of it.\<close>

definition reaperRound :: "('z os_scheme, Event option) state" where
  "reaperRound = do {
     r \<leftarrow> waitForAnyChild;
     case r of
       Inl e \<Rightarrow>
         (if e = Errno EINTR \<or> e = Errno ECHILD then return None
          else do {
            _ \<leftarrow> LogError (''Supervisor: Reaper fatal error: %v'' @ [CHR 0x0A]) [ArgE e];
            return None
          })
     | Inr (pid, status) \<Rightarrow> do {
         _ \<leftarrow> sys (UiC (ChanSend ''events''));
         return (Some (EventChildExit pid status))
       }
   }"

fun reaperLoop :: "nat \<Rightarrow> ('z os_scheme, Event list) state" where
  "reaperLoop 0 = return []"
| "reaperLoop (Suc n) = do {
     ev \<leftarrow> reaperRound;
     evs \<leftarrow> reaperLoop n;
     return (case ev of None \<Rightarrow> evs | Some ev \<Rightarrow> ev # evs)
   }"

text \<open>The goroutine of \<open>StartSignalHandler\<close>: the values received that are signals of \<open>unix\<close>.\<close>

definition signalEvents :: "signal option list \<Rightarrow> Event list" where
  "signalEvents sigs = map EventSignal (List.map_filter id sigs)"

section \<open>Helpers of the handler\<close>

fun findContainerByPID :: "(nat \<Rightarrow> Container) \<Rightarrow> (string, nat) gomap \<Rightarrow> int \<Rightarrow> nat option" where
  "findContainerByPID h [] pid = None"
| "findContainerByPID h ((_, a) # cs) pid =
     (if WorkloadPID (h a) = pid \<or> InitPID (h a) = pid then Some a else findContainerByPID h cs pid)"

definition keepAliveOpen :: "Container \<Rightarrow> bool" where
  "keepAliveOpen c \<longleftrightarrow> (case CIPC c of None \<Rightarrow> False | Some ipc \<Rightarrow> snd (KeepAlive ipc) \<ge> 0)"

definition isNetRoot :: "Container \<Rightarrow> bool" where
  "isNetRoot c \<longleftrightarrow> (case CSpec c of None \<Rightarrow> False | Some spec \<Rightarrow> IsNetRoot spec)"

text \<open>The loop of \<open>releaseLastNetRootKeepAlive\<close>: how many containers of the pod, and the last net root seen.\<close>

fun scanPod :: "string \<Rightarrow> (nat \<Rightarrow> Container) \<Rightarrow> (string, nat) gomap \<Rightarrow> nat \<Rightarrow> nat option \<Rightarrow> nat \<times> nat option" where
  "scanPod podName h [] n root = (n, root)"
| "scanPod podName h ((cid, a) # cs) n root =
     (case splitContainerID cid of
        None \<Rightarrow> scanPod podName h cs n root
      | Some (pID, _) \<Rightarrow>
          (if pID \<noteq> podName then scanPod podName h cs n root
           else scanPod podName h cs (n + 1) (if isNetRoot (h a) then Some a else root)))"

definition releaseLastNetRootKeepAlive :: "string \<Rightarrow> ('z app_scheme, unit) state" where
  "releaseLastNetRootKeepAlive podName = do {
     s \<leftarrow> State_Monad.get;
     case scanPod podName (heap s) (containers s) 0 None of
       (n, root) \<Rightarrow>
         (case root of None \<Rightarrow> return ()
          | Some a \<Rightarrow> if n = 1 \<and> keepAliveOpen (heap s a) then freeKeepAlive a else return ())
   }"

section \<open>The handler\<close>

text \<open>
  The references of a container's handles are counted down once, and those that come to
  zero closed; then the container's entry is dropped, with any handle left in it.
\<close>

definition dropHandles :: "string \<Rightarrow> ('z hstate_scheme, unit) state" where
  "dropHandles cid = do {
     s \<leftarrow> State_Monad.get;
     case map_get (Handles s) cid of None \<Rightarrow> return ()
     | Some owned \<Rightarrow> do {
         _ \<leftarrow> for_each owned (\<lambda>(ns, h). if Ref h - 1 = 0 then sys (FdC (Close (FD h))) else return ());
         State_Monad.update (\<lambda>s. s\<lparr>Handles := map_del cid (Handles s)\<rparr>)
       }
   }"

definition recordNet :: "string \<Rightarrow> NetResources option \<Rightarrow> ('z app_scheme, unit) state" where
  "recordNet podName net =
     (case net of None \<Rightarrow> return ()
      | Some res \<Rightarrow> State_Monad.update (\<lambda>s. s\<lparr>podNet := map_put podName res (podNet s)\<rparr>))"

definition cleanPod :: "string \<Rightarrow> ('z app_scheme, unit) state" where
  "cleanPod podName = do {
     _ \<leftarrow> CleanupForward podName;
     s \<leftarrow> State_Monad.get;
     _ \<leftarrow> (case map_get (podNet s) podName of None \<Rightarrow> return ()
       | Some netres \<Rightarrow> do {
           _ \<leftarrow> CleanupContainerNetworking (Some netres);
           _ \<leftarrow> State_Monad.update (\<lambda>s. s\<lparr>podNet := map_del podName (podNet s)\<rparr>);
           LogWarn ''Reaper: Network for %s cleaned up'' [ArgS podName]
         });
     LogWarn ''Reaper: Last container in %s exited. Closing forwards.'' [ArgS podName]
   }"

definition reapWorkload :: "nat \<Rightarrow> ContainerSpec \<Rightarrow> ('z app_scheme, unit) state" where
  "reapWorkload a spec = do {
     _ \<leftarrow> LogInfo ''Reaper: Workload for %s exited. Killing Init...'' [ArgS (ID spec)];
     c \<leftarrow> readContainer a;
     if IsNetRoot spec \<and> keepAliveOpen c then freeKeepAlive a else return ()
   }"

definition reapInit :: "nat \<Rightarrow> ContainerSpec \<Rightarrow> int \<Rightarrow> ('z app_scheme, unit) state" where
  "reapInit a spec pid = do {
     _ \<leftarrow> writeContainer a (\<lambda>c. c\<lparr>CState := ContainerExited\<rparr>);
     _ \<leftarrow> LogWarn ''Reaper: Container %s (PID %d) exited'' [ArgS (ID spec), ArgI pid];
     let pod = podOf (ID spec);
     let podName = (case pod of None \<Rightarrow> [] | Some p \<Rightarrow> p);
     c \<leftarrow> readContainer a;
     _ \<leftarrow> (if pod \<noteq> None then recordNet podName (CNet c) else return ());
     _ \<leftarrow> dropHandles (ID spec);
     _ \<leftarrow> deleteContainer (ID spec);
     _ \<leftarrow> releaseLastNetRootKeepAlive podName;
     s \<leftarrow> State_Monad.get;
     if pod \<noteq> None \<and> isPodEmpty podName (containers s) then cleanPod podName else return ()
   }"

text \<open>A container found by its pid has one, so it is no placeholder unless the pid is zero.\<close>

definition handleExit :: "int \<Rightarrow> ('z app_scheme, unit outcome) state" where
  "handleExit pid = do {
     _ \<leftarrow> sys (UiC (Lock ScxMu));
     s \<leftarrow> State_Monad.get;
     case findContainerByPID (heap s) (containers s) pid of
       None \<Rightarrow> do { _ \<leftarrow> sys (UiC (Unlock ScxMu)); return (Ret ()) }
     | Some a \<Rightarrow>
         (case CSpec (heap s a) of
            None \<Rightarrow> return (Panic ''nil pointer dereference'')
          | Some spec \<Rightarrow> do {
              _ \<leftarrow> (if pid = WorkloadPID (heap s a) then reapWorkload a spec else return ());
              _ \<leftarrow> (if pid = InitPID (heap s a) then reapInit a spec pid else return ());
              _ \<leftarrow> sys (UiC (Unlock ScxMu));
              return (Ret ())
            })
   }"

definition handleSignal :: "signal \<Rightarrow> ('z app_scheme, unit outcome) state" where
  "handleSignal sig = do {
     _ \<leftarrow> sys (UiC (Lock ScxMu));
     s \<leftarrow> State_Monad.get;
     _ \<leftarrow> for_each (containers s) (\<lambda>(cid, a).
       if InitPID (heap s a) > 0 then sys (PrC (Kill (InitPID (heap s a)) sig)) else return ());
     _ \<leftarrow> sys (UiC (Unlock ScxMu));
     return (Ret ())
   }"

fun handleEvent :: "Event \<Rightarrow> ('z app_scheme, unit outcome) state" where
  "handleEvent (EventSignal sig) = handleSignal sig"
| "handleEvent (EventChildExit pid status) = handleExit pid"

text \<open>The loop of \<open>OnContainerExit\<close> over the events received until the channel is closed.\<close>

fun handleEvents :: "Event list \<Rightarrow> ('z app_scheme, unit outcome) state" where
  "handleEvents [] = return (Ret ())"
| "handleEvents (ev # evs) = obind (handleEvent ev) (\<lambda>_. handleEvents evs)"

definition prompt :: string where
  "prompt = [CHR 0x0D, CHR 0x1B] @ ''[Kbctor '' @ [CHR 0xE2, CHR 0x9D, CHR 0xAF, CHR '' '']"

definition OnContainerExit :: "Event list \<Rightarrow> ('z app_scheme, unit outcome) state" where
  "OnContainerExit events = deferring (sys (UiC WgDone)) (do {
     _ \<leftarrow> LogInfo (''Bctor Supervisor is ready. Type '' @ [CHR 0x27] @ ''new'' @ [CHR 0x27] @ '' to create a Pod.'') [];
     _ \<leftarrow> sys (UiC (Print prompt));
     _ \<leftarrow> State_Monad.update (\<lambda>s. s\<lparr>podNet := []\<rparr>);
     handleEvents events
   })"

section \<open>States up to the calls made\<close>

text \<open>\<open>core s\<close> forgets which calls led to \<open>s\<close>; equations of cores say what a function does to the tables.\<close>

definition core :: "'z os_scheme \<Rightarrow> 'z os_scheme" where
  "core s = s\<lparr>trace := []\<rparr>"

lemma core_calls [simp]: "core (emit c s) = core s" "core (with_calls cs s) = core s"
  by (simp_all add: core_def emit_def with_calls_def)

lemma core_fields [simp]:
  "heap (core s) = heap s" "hnext (core s) = hnext s" "containers (core s) = containers s"
  "podNet (core s) = podNet s" "iface (core s) = iface s" "targets (core s) = targets s"
  "activeID (core s) = activeID s" "lineBuf (core s) = lineBuf s" "ParentNS (core s) = ParentNS s"
  "Handles (core t) = Handles t" "IPAlloc (core u) = IPAlloc u"
  "Subnet (core u) = Subnet u" "sessions (core v) = sessions v" "fnext (core v) = fnext v"
  by (simp_all add: core_def)

lemma app_fields_calls [simp]:
  "heap (with_calls cs s) = heap s" "hnext (with_calls cs s) = hnext s" "containers (with_calls cs s) = containers s"
  "podNet (with_calls cs s) = podNet s" "iface (with_calls cs s) = iface s" "targets (with_calls cs s) = targets s"
  "activeID (with_calls cs s) = activeID s" "lineBuf (with_calls cs s) = lineBuf s" "ParentNS (with_calls cs s) = ParentNS s"
  "Handles (with_calls cs t) = Handles t" "IPAlloc (with_calls cs u) = IPAlloc u"
  "Subnet (with_calls cs u) = Subnet u" "sessions (with_calls cs v) = sessions v" "fnext (with_calls cs v) = fnext v"
  by (simp_all add: with_calls_def)

lemma app_fields_emit [simp]:
  "heap (emit c s) = heap s" "hnext (emit c s) = hnext s" "containers (emit c s) = containers s"
  "podNet (emit c s) = podNet s" "iface (emit c s) = iface s" "targets (emit c s) = targets s"
  "activeID (emit c s) = activeID s" "lineBuf (emit c s) = lineBuf s" "ParentNS (emit c s) = ParentNS s"
  "Handles (emit c t) = Handles t" "IPAlloc (emit c u) = IPAlloc u"
  "Subnet (emit c u) = Subnet u" "sessions (emit c v) = sessions v" "fnext (emit c v) = fnext v"
  by (simp_all add: emit_def)

lemma core_eqD:
  assumes "core s = core t"
  shows "heap s = heap t" "hnext s = hnext t" "containers s = containers t" "podNet s = podNet t"
    "Handles s = Handles t" "IPAlloc s = IPAlloc t" "sessions s = sessions t" "targets s = targets t"
  using arg_cong [OF assms, of heap] arg_cong [OF assms, of hnext] arg_cong [OF assms, of containers]
    arg_cong [OF assms, of podNet] arg_cong [OF assms, of Handles] arg_cong [OF assms, of IPAlloc]
    arg_cong [OF assms, of sessions] arg_cong [OF assms, of targets] by simp_all

lemma core_update [simp]:
  "core (s\<lparr>heap := x1\<rparr>) = (core s)\<lparr>heap := x1\<rparr>" "core (s\<lparr>containers := x2\<rparr>) = (core s)\<lparr>containers := x2\<rparr>"
  "core (s\<lparr>podNet := x3\<rparr>) = (core s)\<lparr>podNet := x3\<rparr>" "core (t\<lparr>Handles := x4\<rparr>) = (core t)\<lparr>Handles := x4\<rparr>"
  "core (u\<lparr>IPAlloc := x5\<rparr>) = (core u)\<lparr>IPAlloc := x5\<rparr>" "core (v\<lparr>sessions := x6\<rparr>) = (core v)\<lparr>sessions := x6\<rparr>"
  "core (s\<lparr>hnext := x7\<rparr>) = (core s)\<lparr>hnext := x7\<rparr>"
  by (simp_all add: core_def)

lemma core_same [simp]:
  "(core s)\<lparr>heap := heap s\<rparr> = core s" "(core s)\<lparr>containers := containers s\<rparr> = core s"
  "(core s)\<lparr>podNet := podNet s\<rparr> = core s" "(core t)\<lparr>Handles := Handles t\<rparr> = core t"
  "(core u)\<lparr>IPAlloc := IPAlloc u\<rparr> = core u" "(core v)\<lparr>sessions := sessions v\<rparr> = core v"
  by (simp_all add: core_def)

definition after :: "('s, 'a) state \<Rightarrow> 's \<Rightarrow> 's" where
  "after m s = snd (run_state m s)"

lemma appends_core: "appends m \<Longrightarrow> core (after m s) = core s"
  by (simp add: appends_run after_def)

section \<open>What the handler does to the tables\<close>

lemma run_writeContainer [simp]:
  "run_state (writeContainer a f) s = ((), s\<lparr>heap := (heap s)(a := f (heap s a))\<rparr>)"
  by (simp add: writeContainer_def State_Monad.update_def)

lemma run_readContainer [simp]: "run_state (readContainer a) s = (heap s a, s)"
  by (simp add: readContainer_def)

lemma run_putContainer [simp]:
  "run_state (putContainer k a) s = ((), (emit (UiC (TableWrite k)) s)\<lparr>containers := map_put k a (containers s)\<rparr>)"
  by (simp add: putContainer_def State_Monad.update_def)

lemma run_deleteContainer [simp]:
  "run_state (deleteContainer k) s = ((), (emit (UiC (TableWrite k)) s)\<lparr>containers := map_del k (containers s)\<rparr>)"
  by (simp add: deleteContainer_def State_Monad.update_def)

lemma run_lookupContainer [simp]: "run_state (lookupContainer k) s = (map_get (containers s) k, s)"
  by (simp add: lookupContainer_def)

lemma run_newContainer [simp]:
  "run_state (newContainer c) s = (hnext s, s\<lparr>heap := (heap s)(hnext s := c), hnext := Suc (hnext s)\<rparr>)"
  by (simp add: newContainer_def State_Monad.update_def)

lemma run_locked [simp]:
  "run_state (locked m body) s =
     (case run_state body (emit (UiC (Lock m)) s) of (r, t) \<Rightarrow> (r, emit (UiC (Unlock m)) t))"
  by (simp add: locked_def split: prod.split)

lemma run_for_each_when:
  "run_state (for_each xs (\<lambda>x. if P x then sys (f x) else return ())) s =
     ((), with_calls (map f (filter P xs)) s)"
  by (induction xs arbitrary: s) auto

lemma closedKeepAlive_None: "CIPC c = None \<Longrightarrow> closedKeepAlive c = c"
  by (simp add: closedKeepAlive_def)

lemma freeKeepAlive_core:
  "core (after (freeKeepAlive a) s) = (core s)\<lparr>heap := (heap s)(a := closedKeepAlive (heap s a))\<rparr>"
  by (simp add: after_def freeKeepAlive_def fun_upd_idem closedKeepAlive_None split: option.split)

text \<open>Two objects that differ in their keep-alive pipe or their state only.\<close>

definition similar :: "Container \<Rightarrow> Container \<Rightarrow> bool" where
  "similar c d \<longleftrightarrow> CSpec c = CSpec d \<and> InitPID c = InitPID d \<and> WorkloadPID c = WorkloadPID d \<and> CNet c = CNet d"

lemma similar_refl [simp]: "similar c c"
  by (simp add: similar_def)

lemma similar_closed [simp]: "similar (closedKeepAlive c) d = similar c d" "similar d (closedKeepAlive c) = similar d c"
  by (simp_all add: similar_def closedKeepAlive_def)

lemma similar_state [simp]: "similar (c\<lparr>CState := x\<rparr>) d = similar c d" "similar (c\<lparr>CIPC := y\<rparr>) d = similar c d"
  by (simp_all add: similar_def)

lemma similar_trans: "similar c d \<Longrightarrow> similar d e \<Longrightarrow> similar c e"
  by (simp add: similar_def)

text \<open>An address with the network resources that hold it released.\<close>

definition releaseRes :: "NetResources option \<Rightarrow> IPAllocator \<Rightarrow> IPAllocator" where
  "releaseRes res a =
     (case res of None \<Rightarrow> a
      | Some r \<Rightarrow> (if ResIP r = [] then a else case ParseIP (ResIP r) of None \<Rightarrow> a | Some ip \<Rightarrow> release_ip ip a))"

lemma Cleanup_core:
  "core (after (CleanupContainerNetworking res) s) = (core s)\<lparr>IPAlloc := releaseRes res (IPAlloc s)\<rparr>"
  by (simp add: after_def CleanupContainerNetworking_def releaseRes_def Release_def State_Monad.update_def
      split: option.split sum.split)

lemma CleanupForward_core:
  "core (after (CleanupForward p) s) = (core s)\<lparr>sessions := map_del p (sessions s)\<rparr>"
  by (auto simp: after_def CleanupForward_def State_Monad.update_def run_for_each_sys delete_id
      map_of_eq_None_iff split: option.split)

lemma dropHandles_core:
  "core (after (dropHandles cid) s) = (core s)\<lparr>Handles := map_del cid (Handles s)\<rparr>"
  by (auto simp: after_def dropHandles_def State_Monad.update_def case_prod_unfold run_for_each_when
      delete_id map_of_eq_None_iff split: option.split)


text \<open>The pod whose network a container's exit may end, and what is recorded of it by then.\<close>

definition netAfter :: "Container \<Rightarrow> ContainerSpec \<Rightarrow> (string, NetResources) gomap \<Rightarrow> (string, NetResources) gomap" where
  "netAfter c spec m =
     (case podOf (ID spec) of None \<Rightarrow> m
      | Some p \<Rightarrow> (case CNet c of None \<Rightarrow> m | Some res \<Rightarrow> map_put p res m))"

text \<open>
  The tables after the exit of a container's init: its entries are gone; if it was the last of
  its pod, so are the pod's forwards and its network, whose address is released.
\<close>

definition reaped :: "Container \<Rightarrow> ContainerSpec \<Rightarrow> (nat \<Rightarrow> Container) \<Rightarrow> 'z app_scheme \<Rightarrow> 'z app_scheme" where
  "reaped c spec h s =
     (let cs = map_del (ID spec) (containers s);
          pn = netAfter c spec (podNet s);
          s1 = s\<lparr>heap := h, Handles := map_del (ID spec) (Handles s), containers := cs, podNet := pn\<rparr>
      in case podOf (ID spec) of None \<Rightarrow> s1
         | Some p \<Rightarrow>
             (if isPodEmpty p cs
              then s1\<lparr>podNet := map_del p pn, sessions := map_del p (sessions s),
                IPAlloc := releaseRes (map_get pn p) (IPAlloc s)\<rparr>
              else s1))"

lemma release_heap:
  "\<exists>h. core (after (releaseLastNetRootKeepAlive p) s) = (core s)\<lparr>heap := h\<rparr> \<and> (\<forall>b. similar (h b) (heap s b))"
proof -
  obtain n root where sp: "scanPod p (heap s) (containers s) 0 None = (n, root)" by fastforce
  show ?thesis
  proof (cases "root \<noteq> None \<and> n = 1 \<and> keepAliveOpen (heap s (the root))")
    case True
    then obtain a where "root = Some a" "n = 1" "keepAliveOpen (heap s a)" by auto
    then have "after (releaseLastNetRootKeepAlive p) s = after (freeKeepAlive a) s"
      using sp by (simp add: after_def releaseLastNetRootKeepAlive_def)
    then show ?thesis
      using freeKeepAlive_core [of a s] by (intro exI [of _ "(heap s)(a := closedKeepAlive (heap s a))"]) simp
  next
    case False
    then have "after (releaseLastNetRootKeepAlive p) s = s"
      using sp by (auto simp: after_def releaseLastNetRootKeepAlive_def split: option.split)
    then show ?thesis by (intro exI [of _ "heap s"]) simp
  qed
qed

lemma cleanPod_core:
  "core (after (cleanPod p) s) = (core s)\<lparr>sessions := map_del p (sessions s),
     IPAlloc := releaseRes (map_get (podNet s) p) (IPAlloc s), podNet := map_del p (podNet s)\<rparr>"
proof -
  let ?s1 = "after (CleanupForward p) s"
  have c1: "core ?s1 = (core s)\<lparr>sessions := map_del p (sessions s)\<rparr>" by (rule CleanupForward_core)
  have p1: "podNet ?s1 = podNet s" and i1: "IPAlloc ?s1 = IPAlloc s"
    using arg_cong [OF c1, of podNet] arg_cong [OF c1, of IPAlloc] by simp_all
  show ?thesis
  proof (cases "map_get (podNet s) p")
    case None
    then have "core (after (cleanPod p) s) = core ?s1"
      using p1 by (simp add: cleanPod_def after_def case_prod_unfold)
    moreover have "map_del p (podNet s) = podNet s"
      using None by (simp add: delete_id map_of_eq_None_iff)
    ultimately show ?thesis using None c1 by (simp add: releaseRes_def)
  next
    case (Some res)
    let ?s2 = "after (CleanupContainerNetworking (Some res)) ?s1"
    have c2: "core ?s2 = (core ?s1)\<lparr>IPAlloc := releaseRes (Some res) (IPAlloc ?s1)\<rparr>" by (rule Cleanup_core)
    have p2: "podNet ?s2 = podNet s" using arg_cong [OF c2, of podNet] p1 by simp
    have "core (after (cleanPod p) s) = (core ?s2)\<lparr>podNet := map_del p (podNet ?s2)\<rparr>"
      using Some p1 by (simp add: cleanPod_def after_def case_prod_unfold State_Monad.update_def)
    then show ?thesis using Some c1 c2 p1 p2 i1 by simp
  qed
qed

lemma run_recordNet:
  "run_state (if podOf (ID spec) \<noteq> None
      then recordNet (case podOf (ID spec) of None \<Rightarrow> [] | Some p \<Rightarrow> p) (CNet c) else return ()) s =
    ((), s\<lparr>podNet := netAfter c spec (podNet s)\<rparr>)"
  by (cases "podOf (ID spec)"; cases "CNet c") (simp_all add: recordNet_def netAfter_def State_Monad.update_def)

lemma netAfter_state [simp]: "netAfter (c\<lparr>CState := x\<rparr>) spec m = netAfter c spec m"
  by (cases "podOf (ID spec)") (simp_all add: netAfter_def)

lemma reapInit_core:
  assumes "CSpec (heap s a) = Some spec"
  shows "\<exists>h. core (after (reapInit a spec pid) s) = core (reaped (heap s a) spec h s) \<and>
    (\<forall>b. similar (h b) (heap s b))"
proof -
  define c where "c = heap s a"
  define podName where "podName = (case podOf (ID spec) of None \<Rightarrow> [] | Some p \<Rightarrow> p)"
  define h1 where "h1 = (heap s)(a := c\<lparr>CState := ContainerExited\<rparr>)"
  define s2 where "s2 = (emit (UiC (Log TypeWarn ''Reaper: Container %s (PID %d) exited'' [ArgS (ID spec), ArgI pid]))
      (s\<lparr>heap := h1\<rparr>))\<lparr>podNet := netAfter c spec (podNet s)\<rparr>"
  define s3 where "s3 = after (dropHandles (ID spec)) s2"
  define s4 where "s4 = (emit (UiC (TableWrite (ID spec))) s3)\<lparr>containers := map_del (ID spec) (containers s3)\<rparr>"
  define s5 where "s5 = after (releaseLastNetRootKeepAlive podName) s4"
  have c3: "core s3 = core (s\<lparr>heap := h1, podNet := netAfter c spec (podNet s), Handles := map_del (ID spec) (Handles s)\<rparr>)"
    using dropHandles_core [of "ID spec" s2] by (simp add: s3_def s2_def)
  note f3 = core_eqD [OF c3, simplified]
  obtain h where c5: "core s5 = (core s4)\<lparr>heap := h\<rparr>" and sim: "\<And>b. similar (h b) (heap s4 b)"
    using release_heap unfolding s5_def by blast
  have same: "similar (h b) (heap s b)" for b
    using sim [of b] by (auto simp: s4_def f3 h1_def c_def similar_def split: if_splits)
  have c5': "core s5 = core (s\<lparr>heap := h, Handles := map_del (ID spec) (Handles s),
      containers := map_del (ID spec) (containers s), podNet := netAfter c spec (podNet s)\<rparr>)"
    unfolding c5 by (simp add: s4_def c3 f3)
  note f5 = core_eqD [OF c5', simplified]
  have run: "after (reapInit a spec pid) s =
      (if podOf (ID spec) \<noteq> None \<and> isPodEmpty podName (containers s5) then after (cleanPod podName) s5 else s5)"
    unfolding s5_def s4_def s3_def s2_def h1_def podName_def c_def
    by (simp only: reapInit_def after_def case_prod_unfold Let_def run_recordNet run_state_bind
        run_writeContainer run_Log run_readContainer run_deleteContainer fst_conv snd_conv
        State_Monad.run_state_get) simp
  have "core (after (reapInit a spec pid) s) = core (reaped c spec h s)"
  proof (cases "podOf (ID spec)")
    case None
    then show ?thesis using c5' by (simp add: run reaped_def)
  next
    case (Some p)
    then show ?thesis
      using f5 c5' cleanPod_core [of p s5] by (simp add: run reaped_def podName_def Let_def)
  qed
  with same show ?thesis unfolding c_def by blast
qed

lemma reaped_similar: "similar c d \<Longrightarrow> reaped c spec h s = reaped d spec h s"
proof -
  assume "similar c d"
  then have "netAfter c = netAfter d" by (intro ext) (simp add: netAfter_def similar_def split: option.split)
  then show ?thesis by (simp add: reaped_def)
qed

lemma reaped_core: "core s = core t \<Longrightarrow> core (reaped c spec h s) = core (reaped c spec h t)"
proof -
  assume e: "core s = core t"
  note f = core_eqD [OF e]
  show ?thesis by (cases "podOf (ID spec)") (simp_all add: reaped_def Let_def f e)
qed

lemma reaped_heap [simp]: "reaped c spec h (s\<lparr>heap := g\<rparr>) = reaped c spec h s"
  by (cases "podOf (ID spec)") (simp_all add: reaped_def Let_def)

lemma reapWorkload_core:
  "\<exists>h. core (after (reapWorkload a spec) s) = core (s\<lparr>heap := h\<rparr>) \<and> (\<forall>b. similar (h b) (heap s b))"
proof (cases "IsNetRoot spec \<and> keepAliveOpen (heap s a)")
  case True
  then have "core (after (reapWorkload a spec) s) = core (s\<lparr>heap := (heap s)(a := closedKeepAlive (heap s a))\<rparr>)"
    using freeKeepAlive_core [of a "emit (UiC (Log TypeInfo ''Reaper: Workload for %s exited. Killing Init...'' [ArgS (ID spec)])) s"]
    by (simp add: reapWorkload_def after_def)
  then show ?thesis by (intro exI [of _ "(heap s)(a := closedKeepAlive (heap s a))"]) simp
next
  case False
  then show ?thesis by (intro exI [of _ "heap s"]) (auto simp: reapWorkload_def after_def)
qed

text \<open>The handler of an exit, on a container found by its pid.\<close>

lemma handleExit_core:
  assumes f: "findContainerByPID (heap s) (containers s) pid = Some a" and c: "CSpec (heap s a) = Some spec"
  shows "result (handleExit pid) s = Ret () \<and> (\<exists>h. (\<forall>b. similar (h b) (heap s b)) \<and>
    core (after (handleExit pid) s) =
      core (if pid = InitPID (heap s a) then reaped (heap s a) spec h s else s\<lparr>heap := h\<rparr>))"
proof -
  define s1 where "s1 = emit (UiC (Lock ScxMu)) s"
  define s2 where "s2 = (if pid = WorkloadPID (heap s a) then after (reapWorkload a spec) s1 else s1)"
  define s3 where "s3 = (if pid = InitPID (heap s a) then after (reapInit a spec pid) s2 else s2)"
  have run: "result (handleExit pid) s = Ret ()" "after (handleExit pid) s = emit (UiC (Unlock ScxMu)) s3"
    using f c by (simp_all add: s1_def s2_def s3_def handleExit_def result_def after_def case_prod_unfold)
  obtain h2 where c2: "core s2 = core (s\<lparr>heap := h2\<rparr>)" and sim2: "\<And>b. similar (h2 b) (heap s b)"
  proof (cases "pid = WorkloadPID (heap s a)")
    case True
    then show thesis using reapWorkload_core [of a spec s1] that unfolding s2_def s1_def by auto
  next
    case False
    then have "core s2 = core (s\<lparr>heap := heap s\<rparr>)" by (simp add: s2_def s1_def)
    then show thesis using that [of "heap s"] by simp
  qed
  note f2 = core_eqD [OF c2, simplified]
  show ?thesis
  proof (cases "pid = InitPID (heap s a)")
    case True
    have "CSpec (heap s2 a) = Some spec" using sim2 [of a] c by (simp add: f2 similar_def)
    from reapInit_core [OF this] obtain h where
      h: "core (after (reapInit a spec pid) s2) = core (reaped (heap s2 a) spec h s2)"
        "\<And>b. similar (h b) (heap s2 b)" by blast
    have "similar (h b) (heap s b)" for b using h(2) [of b] sim2 [of b] by (simp add: f2 similar_def)
    moreover have "core (after (handleExit pid) s) = core (after (reapInit a spec pid) s2)"
      unfolding run(2) s3_def using True by simp
    then have "core (after (handleExit pid) s) = core (reaped (heap s a) spec h s)"
      using h(1) reaped_core [OF c2, of "h2 a" spec h] reaped_similar [OF sim2 [of a], of spec h s]
      by (simp add: f2)
    ultimately show ?thesis using True run(1) by (intro conjI exI [of _ h]) simp_all
  next
    case False
    then show ?thesis using run c2 sim2 by (intro conjI exI [of _ h2]) (simp_all add: s3_def)
  qed
qed

lemma handleExit_unknown:
  "findContainerByPID (heap s) (containers s) pid = None \<Longrightarrow>
    result (handleExit pid) s = Ret () \<and> core (after (handleExit pid) s) = core s"
  by (simp add: handleExit_def result_def after_def)

lemma handleSignal_core: "result (handleSignal sig) s = Ret () \<and> core (after (handleSignal sig) s) = core s"
  by (simp add: handleSignal_def result_def after_def case_prod_unfold run_for_each_when)

end
