(* ===== verification/Logger.thy ===== *)
theory Logger
  imports Types GoStrconv
begin

text \<open>
  \<open>lib/logger.go\<close>: the messages the loggers print, the reader that cuts a container's output into
  lines, and the boxes the commands draw. Widths are counted in runes, so UTF-8 is decoded here
  the way Go's \<open>unicode/utf8\<close> does.
\<close>

section \<open>Colours\<close>

definition esc :: "string \<Rightarrow> string" where
  "esc s = CHR 0x1B # CHR ''['' # s"

definition Reset :: string where "Reset = esc ''0m''"
definition Red :: string where "Red = esc ''31m''"
definition Green :: string where "Green = esc ''32m''"
definition Yellow :: string where "Yellow = esc ''33m''"
definition Cyan :: string where "Cyan = esc ''36m''"
definition Gray :: string where "Gray = esc ''90m''"

definition CR :: string where "CR = [CHR 0x0D]"
definition LF :: string where "LF = [CHR 0x0A]"
definition CRLF :: string where "CRLF = CR @ LF"
definition clearLine :: string where "clearLine = CR @ esc ''K''"

section \<open>Runes\<close>

definition in_range :: "nat \<Rightarrow> nat \<Rightarrow> char \<Rightarrow> bool" where
  "in_range a b c \<longleftrightarrow> a \<le> of_char c \<and> of_char c \<le> b"

abbreviation cont :: "char \<Rightarrow> bool" where
  "cont \<equiv> in_range 0x80 0xBF"

text \<open>
  The length of the encoded rune a string starts with: the well-formed byte sequences of UTF-8;
  a byte that starts none is a rune of its own, read as \<open>RuneError\<close>.
\<close>

definition well_formed2 :: "char \<Rightarrow> char \<Rightarrow> bool" where
  "well_formed2 a b \<longleftrightarrow> in_range 0xC2 0xDF a \<and> cont b"

definition well_formed3 :: "char \<Rightarrow> char \<Rightarrow> char \<Rightarrow> bool" where
  "well_formed3 a b c \<longleftrightarrow> cont c \<and>
     (in_range 0xE0 0xE0 a \<and> in_range 0xA0 0xBF b \<or> in_range 0xE1 0xEC a \<and> cont b \<or>
      in_range 0xED 0xED a \<and> in_range 0x80 0x9F b \<or> in_range 0xEE 0xEF a \<and> cont b)"

definition well_formed4 :: "char \<Rightarrow> char \<Rightarrow> char \<Rightarrow> char \<Rightarrow> bool" where
  "well_formed4 a b c d \<longleftrightarrow> cont c \<and> cont d \<and>
     (in_range 0xF0 0xF0 a \<and> in_range 0x90 0xBF b \<or> in_range 0xF1 0xF3 a \<and> cont b \<or>
      in_range 0xF4 0xF4 a \<and> in_range 0x80 0x8F b)"

definition RuneError :: string where
  "RuneError = [CHR 0xEF, CHR 0xBF, CHR 0xBD]"

text \<open>\<open>[]rune(s)\<close>, each rune as its encoding.\<close>

function runes :: "string \<Rightarrow> string list" where
  "runes s =
     (case s of [] \<Rightarrow> []
      | a # s1 \<Rightarrow>
          if in_range 0 0x7F a then [a] # runes s1
          else (case s1 of [] \<Rightarrow> [RuneError]
            | b # s2 \<Rightarrow>
                if well_formed2 a b then [a, b] # runes s2
                else (case s2 of [] \<Rightarrow> RuneError # runes s1
                  | c # s3 \<Rightarrow>
                      if well_formed3 a b c then [a, b, c] # runes s3
                      else (case s3 of [] \<Rightarrow> RuneError # runes s1
                        | d # s4 \<Rightarrow>
                            if well_formed4 a b c d then [a, b, c, d] # runes s4
                            else RuneError # runes s1))))"
  by pat_completeness auto
termination
  by (relation "measure length") auto

declare runes.simps [simp del]

definition RuneCount :: "string \<Rightarrow> nat" where
  "RuneCount s = length (runes s)"

section \<open>Escape sequences\<close>

text \<open>\<open>ansi_len\<close>: the length of the match of \<open>\x1b\[[0-9;]*m\<close> a string starts with, if there is one.\<close>

definition param_byte :: "char \<Rightarrow> bool" where
  "param_byte c \<longleftrightarrow> is_decimal c \<or> c = CHR '';''"

definition ansi_len :: "string \<Rightarrow> nat" where
  "ansi_len s =
     (case s of a # b # r \<Rightarrow>
        (if a = CHR 0x1B \<and> b = CHR ''['' then
           (case dropWhile param_byte r of
              c # _ \<Rightarrow> if c = CHR ''m'' then 3 + length (takeWhile param_byte r) else 0
            | [] \<Rightarrow> 0)
         else 0)
      | _ \<Rightarrow> 0)"

function StripANSI :: "string \<Rightarrow> string" where
  "StripANSI s =
     (case s of [] \<Rightarrow> []
      | c # r \<Rightarrow> if ansi_len s = 0 then c # StripANSI r else StripANSI (drop (ansi_len s) s))"
  by pat_completeness auto
termination
  by (relation "measure length") auto

declare StripANSI.simps [simp del]

section \<open>Boxes\<close>

text \<open>\<open>%-*s\<close>: padded on the right to a width in runes.\<close>

definition padTo :: "nat \<Rightarrow> string \<Rightarrow> string" where
  "padTo w s = s @ Repeat '' '' (w - RuneCount s)"

definition innerWidth :: "string \<Rightarrow> string list \<Rightarrow> nat" where
  "innerWidth title ls =
     (let w = foldl (\<lambda>w l. let v = RuneCount (StripANSI l) in if v > w then v else w)
                (RuneCount (StripANSI title)) ls;
          w = (if w < 50 then 50 else w)
      in if w > 100 then 100 else w)"

definition hline_char :: string where "hline_char = [CHR 0xE2, CHR 0x94, CHR 0x80]"
definition vline :: string where "vline = [CHR 0xE2, CHR 0x94, CHR 0x82]"
definition corner_tl :: string where "corner_tl = [CHR 0xE2, CHR 0x94, CHR 0x8C]"
definition corner_tr :: string where "corner_tr = [CHR 0xE2, CHR 0x94, CHR 0x90]"
definition corner_bl :: string where "corner_bl = [CHR 0xE2, CHR 0x94, CHR 0x94]"
definition corner_br :: string where "corner_br = [CHR 0xE2, CHR 0x94, CHR 0x98]"
definition tee_l :: string where "tee_l = [CHR 0xE2, CHR 0x94, CHR 0x9C]"
definition tee_r :: string where "tee_r = [CHR 0xE2, CHR 0x94, CHR 0xA4]"

text \<open>What a line shows in a box of a width, and how wide that is.\<close>

definition cutLine :: "nat \<Rightarrow> string \<Rightarrow> string \<times> nat" where
  "cutLine w line =
     (let clean = RemoveByte line (CHR 0x0D);
          visible = StripANSI clean;
          visLen = RuneCount visible
      in if visLen > w then (concat (take (w - 3) (runes visible)) @ ''...'', w) else (clean, visLen))"

definition boxLine :: "nat \<Rightarrow> string \<Rightarrow> string" where
  "boxLine w line =
     (case cutLine w line of (display, visLen) \<Rightarrow>
        CR @ Cyan @ vline @ Reset @ '' '' @ display @ Repeat '' '' (w - visLen) @ '' '' @ Cyan @ vline @ Reset @ LF)"

definition boxText :: "nat \<Rightarrow> string \<Rightarrow> string" where
  "boxText w s = CR @ Cyan @ vline @ '' '' @ padTo w s @ '' '' @ vline @ Reset @ LF"

definition boxRule :: "string \<Rightarrow> nat \<Rightarrow> string \<Rightarrow> string" where
  "boxRule l w r = CR @ Cyan @ l @ Repeat hline_char (w + 2) @ r @ Reset @ LF"

definition boxRows :: "string \<Rightarrow> string list \<Rightarrow> string list" where
  "boxRows title ls =
     (let w = innerWidth title ls
      in [boxRule corner_tl w corner_tr, boxText w (StripANSI title), boxRule tee_l w tee_r] @
         (if ls = [] then [boxText w ''(no data)''] else map (boxLine w) ls) @
         [boxRule corner_bl w corner_br])"

definition DrawBox :: "string \<Rightarrow> string list \<Rightarrow> ('z os_scheme, unit) state" where
  "DrawBox title ls = do {
     _ \<leftarrow> sys (UiC (Print clearLine));
     for_each (boxRows title ls) (\<lambda>r. sys (UiC (Print r)))
   }"

section \<open>Capturing a container's output\<close>

definition logLine :: "string \<Rightarrow> string \<Rightarrow> LogMsg" where
  "logLine cid line = \<lparr>MsgContainer = cid, MsgData = line, MsgType = TypeContainer, IsHeader = False,
     IsFooter = False\<rparr>"

definition headerMsg :: "string \<Rightarrow> LogMsg" where
  "headerMsg cid = (logLine cid [])\<lparr>IsHeader := True\<rparr>"

definition footerMsg :: "string \<Rightarrow> LogMsg" where
  "footerMsg cid = (logLine cid [])\<lparr>IsFooter := True\<rparr>"

text \<open>
  The reading loop, for at most \<open>n\<close> reads: every line complete with the chunk just read is sent;
  what is after the last line feed is kept for the next. The result is that remainder, or nothing
  if the reads were used up.
\<close>

definition sendLines :: "string \<Rightarrow> string \<Rightarrow> ('z os_scheme, string) state" where
  "sendLines cid chunk = do {
     let ls = Split chunk (CHR 0x0A);
     _ \<leftarrow> for_each (butlast ls) (\<lambda>l. sys (UiC (SendLog (logLine cid (TrimRightByte l (CHR 0x0D))))));
     return (last ls)
   }"

fun readLogs :: "nat \<Rightarrow> string \<Rightarrow> int \<Rightarrow> string \<Rightarrow> ('z os_scheme, string option) state" where
  "readLogs 0 cid fd remainder = return None"
| "readLogs (Suc n) cid fd remainder = do {
     r \<leftarrow> sys_str (FdC (Read fd));
     case r of
       Inl _ \<Rightarrow> return (Some remainder)
     | Inr chunk \<Rightarrow> do {
         remainder \<leftarrow> (if length chunk > 0 then sendLines cid (remainder @ chunk) else return remainder);
         readLogs n cid fd remainder
       }
   }"

text \<open>The result says whether the function returned within \<open>n\<close> reads.\<close>

definition CaptureLogs :: "nat \<Rightarrow> string \<Rightarrow> int \<Rightarrow> int \<Rightarrow> ExecutionMode \<Rightarrow> ('z os_scheme, bool) state" where
  "CaptureLogs n cid readFd writeFd md = do {
     _ \<leftarrow> sys (FdC (Close writeFd));
     _ \<leftarrow> (if md = ModeBatch then sys (UiC (SendLog (headerMsg cid))) else return ());
     r \<leftarrow> readLogs n cid readFd [];
     case r of None \<Rightarrow> return False
     | Some remainder \<Rightarrow> do {
         _ \<leftarrow> (if TrimSpace remainder \<noteq> []
           then sys (UiC (SendLog (logLine cid (TrimRightByte remainder (CHR 0x0D))))) else return ());
         _ \<leftarrow> (if md = ModeBatch then sys (UiC (SendLog (footerMsg cid))) else return ());
         _ \<leftarrow> sys (FdC (Close readFd));
         _ \<leftarrow> sys (UiC WgDone);
         return True
       }
   }"

section \<open>The global logger\<close>

definition logPrefix :: "loglevel \<Rightarrow> string" where
  "logPrefix t = (case t of TypeSuccess \<Rightarrow> Green @ ''SUCCESS:'' @ Reset | TypeWarn \<Rightarrow> Yellow @ ''WARN:'' @ Reset
     | TypeError \<Rightarrow> Red @ ''ERROR:'' @ Reset | TypeInfo \<Rightarrow> Cyan @ ''INFO:'' @ Reset | TypeContainer \<Rightarrow> [])"

text \<open>
  One message of the loop of \<open>StartGlobalLogger\<close>; \<open>getActive\<close> and \<open>refresh\<close> are the methods of
  \<open>MuxLogger\<close>.
\<close>

definition showMsg :: "('z os_scheme, string) state \<Rightarrow> ('z os_scheme, unit) state \<Rightarrow> LogMsg \<Rightarrow>
    ('z os_scheme, unit) state" where
  "showMsg getActive refresh msg = do {
     act \<leftarrow> getActive;
     let isAttached = (act = MsgContainer msg);
     if MsgType msg = TypeContainer then
       (if IsHeader msg \<or> IsFooter msg then return ()
        else if isAttached then sys (UiC (Print (MsgData msg)))
        else do {
          _ \<leftarrow> sys (UiC (Print clearLine));
          _ \<leftarrow> sys (UiC (Print (esc ''0m'' @ '' '' @ esc ''36m'' @ esc ''1m'' @ vline @ esc ''0m'' @ '' '' @ MsgData msg @ CRLF)));
          act \<leftarrow> getActive;
          if act = [] then refresh else return ()
        })
     else do {
       _ \<leftarrow> sys (UiC (Print (clearLine @ logPrefix (MsgType msg) @ '' '' @ MsgData msg @ CRLF)));
       act \<leftarrow> getActive;
       if act = [] then refresh else return ()
     }
   }"

fun showMsgs :: "('z os_scheme, string) state \<Rightarrow> ('z os_scheme, unit) state \<Rightarrow> LogMsg list \<Rightarrow>
    ('z os_scheme, unit) state" where
  "showMsgs getActive refresh [] = return ()"
| "showMsgs getActive refresh (m # ms) = do {
     _ \<leftarrow> showMsg getActive refresh m;
     showMsgs getActive refresh ms
   }"

text \<open>The messages received until the channel is closed, then the signal that all were shown.\<close>

definition StartGlobalLogger :: "('z os_scheme, string) state \<Rightarrow> ('z os_scheme, unit) state \<Rightarrow>
    LogMsg list \<Rightarrow> ('z os_scheme, unit) state" where
  "StartGlobalLogger getActive refresh msgs = do {
     _ \<leftarrow> showMsgs getActive refresh msgs;
     sys (UiC (ChanSend ''done''))
   }"

section \<open>The lines captured\<close>

lemma Split_append:
  "Split (a @ b) sep = butlast (Split a sep) @ Split (last (Split a sep) @ b) sep"
proof (induction a)
  case (Cons c a)
  obtain p ps where s: "Split a sep = p # ps" by (cases "Split a sep") auto
  obtain q qs where t: "Split (a @ b) sep = q # qs" by (cases "Split (a @ b) sep") auto
  show ?case
  proof (cases "c = sep")
    case True
    then show ?thesis using Cons s by simp
  next
    case False
    show ?thesis
    proof (cases ps)
      case Nil
      then have "Split (a @ b) sep = Split (p @ b) sep" using Cons s by simp
      then show ?thesis using False s t Nil by simp
    next
      case (Cons p' ps')
      then have "q # qs = p # butlast ps @ Split (last ps @ b) sep" using Cons.IH s t by simp
      then show ?thesis using False s t Cons by simp
    qed
  qed
qed simp

text \<open>
  What a container's output as a whole is cut into: the lines ended by a line feed, and what
  is after the last one if it is not blank, each without the carriage returns at its end.
\<close>

definition outLines :: "string \<Rightarrow> string list" where
  "outLines out =
     (let ls = Split out (CHR 0x0A)
      in map (\<lambda>l. TrimRightByte l (CHR 0x0D)) (butlast ls @ (if TrimSpace (last ls) \<noteq> [] then [last ls] else [])))"

text \<open>A descriptor whose reads give the chunks one after the other, then an error.\<close>

definition feeds :: "int \<Rightarrow> string list \<Rightarrow> 'z os_scheme \<Rightarrow> bool" where
  "feeds fd chunks s \<longleftrightarrow> (\<forall>t. let i = count_list t (FdC (Read fd)) in
     if i < length chunks then o_str s (trace s @ t) (FdC (Read fd)) = Inr (chunks ! i)
     else isl (o_str s (trace s @ t) (FdC (Read fd))))"

lemma feeds_calls:
  assumes "feeds fd chunks s" and "\<forall>c \<in> set cs. c \<noteq> FdC (Read fd)"
  shows "feeds fd chunks (with_calls cs s)"
proof -
  have "count_list (cs @ t) (FdC (Read fd)) = count_list t (FdC (Read fd))" for t
    using assms(2) by (induction cs) auto
  then show ?thesis
    using assms(1) unfolding feeds_def by (metis append.assoc with_calls_simps(1,4))
qed

lemma feeds_Cons:
  assumes "feeds fd (c # chunks) s"
  shows "o_str s (trace s) (FdC (Read fd)) = Inr c" and "feeds fd chunks (emit (FdC (Read fd)) s)"
proof -
  show "o_str s (trace s) (FdC (Read fd)) = Inr c"
    using assms [unfolded feeds_def, rule_format, of "[]"] by simp
  show "feeds fd chunks (emit (FdC (Read fd)) s)"
    unfolding feeds_def
    using assms [unfolded feeds_def, rule_format, of "FdC (Read fd) # t" for t] by (simp add: Let_def)
qed

lemma feeds_Nil: "feeds fd [] s \<Longrightarrow> \<exists>e. o_str s (trace s) (FdC (Read fd)) = Inl e"
  unfolding feeds_def by (metis append_Nil2 isl_def less_nat_zero_code list.size(3))

fun is_msg :: "call \<Rightarrow> bool" where
  "is_msg (UiC (SendLog m)) = True"
| "is_msg _ = False"

definition sentLine :: "string \<Rightarrow> string \<Rightarrow> call" where
  "sentLine cid l = UiC (SendLog (logLine cid (TrimRightByte l (CHR 0x0D))))"

lemma run_sendLines:
  "run_state (sendLines cid chunk) s =
    (last (Split chunk (CHR 0x0A)), with_calls (map (sentLine cid) (butlast (Split chunk (CHR 0x0A)))) s)"
  by (simp add: sendLines_def Let_def run_for_each_sys sentLine_def [abs_def])

lemma readLogs_feeds:
  assumes "feeds fd chunks s" and "CHR 0x0A \<notin> set r"
  shows "\<exists>cs. run_state (readLogs n cid fd r) s =
      (if length chunks < n then Some (last (Split (r @ concat chunks) (CHR 0x0A))) else None, with_calls cs s) \<and>
    (length chunks < n \<longrightarrow> filter is_msg cs = map (sentLine cid) (butlast (Split (r @ concat chunks) (CHR 0x0A))))"
  using assms
proof (induction n arbitrary: chunks s r)
  case 0
  show ?case by (auto intro: exI [of _ "[]"])
next
  case (Suc n)
  let ?read = "FdC (Read fd)"
  show ?case
  proof (cases chunks)
    case Nil
    then obtain e where "o_str s (trace s) ?read = Inl e" using feeds_Nil Suc.prems(1) by blast
    then show ?thesis
      using Nil Suc.prems(2) by (auto simp: Split_no_sep emit_with_calls intro!: exI [of _ "[?read]"])
  next
    case (Cons c chunks')
    note f = feeds_Cons [OF Suc.prems(1) [unfolded Cons]]
    let ?ls = "Split (r @ c) (CHR 0x0A)"
    let ?sent = "map (sentLine cid) (butlast ?ls)"
    let ?s = "with_calls ?sent (emit ?read s)"
    have empty: "c = [] \<Longrightarrow> ?ls = [r]" using Suc.prems(2) by (simp add: Split_no_sep)
    have f': "feeds fd chunks' ?s" by (rule feeds_calls [OF f(2)]) (auto simp: sentLine_def)
    have "CHR 0x0A \<notin> set (last ?ls)" by (rule Split_pieces [of _ "r @ c"]) simp
    from Suc.IH [OF f' this] obtain cs where
      r: "run_state (readLogs n cid fd (last ?ls)) ?s =
        (if length chunks' < n then Some (last (Split (last ?ls @ concat chunks') (CHR 0x0A))) else None, with_calls cs ?s)"
      and m: "length chunks' < n \<longrightarrow>
        filter is_msg cs = map (sentLine cid) (butlast (Split (last ?ls @ concat chunks') (CHR 0x0A)))" by blast
    have step: "run_state (readLogs (Suc n) cid fd r) s = run_state (readLogs n cid fd (last ?ls)) ?s"
      using f(1) empty by (cases "c = []") (simp_all add: run_sendLines emit_with_calls)
    have sp: "Split (r @ concat chunks) (CHR 0x0A) = butlast ?ls @ Split (last ?ls @ concat chunks') (CHR 0x0A)"
      using Split_append [of "r @ c" "concat chunks'"] Cons by simp
    have "filter is_msg ?sent = ?sent" by (simp add: sentLine_def filter_id_conv)
    moreover have "length chunks = Suc (length chunks')" using Cons by simp
    ultimately show ?thesis
      using r m
      by (intro exI [of _ "?read # ?sent @ cs"]) (simp add: step sp butlast_append emit_with_calls del: readLogs.simps)
  qed
qed

text \<open>
  C13: what is captured of a container does not depend on how its output is cut into reads: the
  messages sent are the lines of the whole output, between a header and a footer in batch mode;
  then the reading end is closed and the capture is counted as done.
\<close>

theorem capture_lines:
  assumes "feeds readFd chunks s" and "length chunks < n"
  shows "filter is_msg (calls (CaptureLogs n cid readFd writeFd md) s) =
      map (\<lambda>m. UiC (SendLog m)) ((if md = ModeBatch then [headerMsg cid] else []) @
        map (logLine cid) (outLines (concat chunks)) @ (if md = ModeBatch then [footerMsg cid] else [])) \<and>
    (\<exists>cs. calls (CaptureLogs n cid readFd writeFd md) s = FdC (Close writeFd) # cs @ [FdC (Close readFd), UiC WgDone])"
proof -
  let ?hd = "if md = ModeBatch then [UiC (SendLog (headerMsg cid))] else []"
  let ?ft = "if md = ModeBatch then [UiC (SendLog (footerMsg cid))] else []"
  let ?ls = "Split (concat chunks) (CHR 0x0A)"
  let ?last = "if TrimSpace (last ?ls) \<noteq> [] then [sentLine cid (last ?ls)] else []"
  have f: "feeds readFd chunks (with_calls (FdC (Close writeFd) # ?hd) s)"
    by (rule feeds_calls [OF assms(1)]) auto
  from readLogs_feeds [OF f, of "[]" n cid] assms(2) obtain cs where
    r: "run_state (readLogs n cid readFd []) (with_calls (FdC (Close writeFd) # ?hd) s) =
      (Some (last ?ls), with_calls cs (with_calls (FdC (Close writeFd) # ?hd) s))"
    and m: "filter is_msg cs = map (sentLine cid) (butlast ?ls)" by auto
  have "run_state (CaptureLogs n cid readFd writeFd md) s =
      (True, with_calls (FdC (Close writeFd) # ?hd @ cs @ ?last @ ?ft @ [FdC (Close readFd), UiC WgDone]) s)"
    using r by (cases "md = ModeBatch") (simp_all add: CaptureLogs_def emit_with_calls sentLine_def)
  then have c: "calls (CaptureLogs n cid readFd writeFd md) s =
      FdC (Close writeFd) # ?hd @ cs @ ?last @ ?ft @ [FdC (Close readFd), UiC WgDone]"
    by (simp add: calls_def)
  show ?thesis
    unfolding c by (auto simp: m outLines_def Let_def sentLine_def)
qed

text \<open>
  C37: the capture of a container's output comes back exactly when the output ends: with fewer reads than
  the chunks before the end it is still reading, with more it has returned.
\<close>

theorem capture_returns:
  assumes "feeds readFd chunks s"
  shows "result (CaptureLogs n cid readFd writeFd md) s \<longleftrightarrow> length chunks < n"
proof -
  let ?hd = "if md = ModeBatch then [UiC (SendLog (headerMsg cid))] else []"
  have f: "feeds readFd chunks (with_calls (FdC (Close writeFd) # ?hd) s)"
    by (rule feeds_calls [OF assms]) auto
  obtain cs where r: "run_state (readLogs n cid readFd []) (with_calls (FdC (Close writeFd) # ?hd) s) =
      (if length chunks < n then Some (last (Split (concat chunks) (CHR 0x0A))) else None,
        with_calls cs (with_calls (FdC (Close writeFd) # ?hd) s))"
    using readLogs_feeds [OF f, of "[]" n cid] by auto
  then show ?thesis
    by (cases "md = ModeBatch") (simp_all add: CaptureLogs_def result_def emit_with_calls case_prod_unfold)
qed


text \<open>A container that writes \<open>hello\<close>, a line feed and \<open>x\<close>, in two pieces.\<close>

definition ex_chunks :: "string list" where
  "ex_chunks = [''hel'', ''lo'' @ [CHR 0x0D, CHR 0x0A] @ ''x'']"

definition ex_feed :: os where
  "ex_feed = quiet_os\<lparr>o_str := \<lambda>t c. let i = count_list t c in
     if i < length ex_chunks then Inr (ex_chunks ! i) else Inl (Errno ENOENT)\<rparr>"

lemma feeds_ex: "feeds 5 ex_chunks ex_feed"
  by (simp add: feeds_def ex_feed_def quiet_os_def Let_def)

lemma outLines_ex: "outLines (concat ex_chunks) = [''hello'', ''x'']"
  by code_simp

theorem capture_lines_witness:
  "filter is_msg (calls (CaptureLogs 3 ''bctor-a1'' 5 6 ModeBatch) ex_feed) = map (\<lambda>m. UiC (SendLog m))
     [headerMsg ''bctor-a1'', logLine ''bctor-a1'' ''hello'', logLine ''bctor-a1'' ''x'', footerMsg ''bctor-a1'']"
  using capture_lines [OF feeds_ex, of 3 "''bctor-a1''" 6 ModeBatch] by (simp add: outLines_ex) (simp add: ex_chunks_def)

theorem capture_returns_witness:
  "result (CaptureLogs 3 ''bctor-a1'' 5 6 ModeBatch) ex_feed \<and> \<not> result (CaptureLogs 2 ''bctor-a1'' 5 6 ModeBatch) ex_feed"
  using capture_returns [OF feeds_ex, of _ "''bctor-a1''" 6 ModeBatch] by (simp add: ex_chunks_def)

section \<open>Widths\<close>

text \<open>The encodings of single runes; each is read back whole, whatever follows it.\<close>

definition rune :: "string \<Rightarrow> bool" where
  "rune r \<longleftrightarrow> (\<exists>a. r = [a] \<and> in_range 0 0x7F a) \<or> (\<exists>a b. r = [a, b] \<and> well_formed2 a b) \<or>
     (\<exists>a b c. r = [a, b, c] \<and> well_formed3 a b c) \<or> (\<exists>a b c d. r = [a, b, c, d] \<and> well_formed4 a b c d)"

lemma rune_RuneError: "rune RuneError"
  by (simp add: rune_def RuneError_def well_formed3_def in_range_def)

lemma runes_rune: "r \<in> set (runes s) \<Longrightarrow> rune r"
proof (induction s rule: length_induct)
  case (1 s)
  then have IH: "length t < length s \<Longrightarrow> r \<in> set (runes t) \<Longrightarrow> rune r" for t by blast
  have r: "rune [a]" if "in_range 0 0x7F a" for a using that by (simp add: rune_def)
  show ?case
  proof (cases s)
    case (Cons a s1)
    with 1(2) IH [of s1] IH [of "tl s1"] IH [of "tl (tl s1)"] IH [of "tl (tl (tl s1))"] r rune_RuneError show ?thesis
      by (subst (asm) runes.simps) (auto simp: rune_def split: if_splits list.splits)
  qed (use 1(2) in \<open>simp add: runes.simps\<close>)
qed

lemma runes_append:
  assumes "rune r"
  shows "runes (r @ t) = r # runes t"
  using assms unfolding rune_def
  by (elim disjE exE conjE)
    (subst runes.simps; simp add: well_formed2_def well_formed3_def well_formed4_def in_range_def; linarith?)+


lemma runes_concat: "(\<And>r. r \<in> set rs \<Longrightarrow> rune r) \<Longrightarrow> runes (concat rs @ t) = rs @ runes t"
  by (induction rs) (simp_all add: runes_append)

lemma runes_dots: "runes ''...'' = [''.'', ''.'', ''.'']"
  by code_simp

lemma innerWidth_bounds: "50 \<le> innerWidth title ls" "innerWidth title ls \<le> 100"
  by (simp_all add: innerWidth_def Let_def)

lemma width_foldl:
  "w0 \<le> foldl (\<lambda>w l. let v = f l in if v > w then v else w) w0 ls \<and>
    (l \<in> set ls \<longrightarrow> f l \<le> foldl (\<lambda>w l. let v = f l in if v > w then v else w) (w0 :: nat) ls)"
proof (induction ls arbitrary: w0)
  case (Cons a ls)
  show ?case
  proof (cases "f a > w0")
    case True
    then show ?thesis using Cons.IH [of "f a"] by (auto simp: Let_def)
  next
    case False
    then show ?thesis using Cons.IH [of w0] by (auto simp: Let_def)
  qed
qed simp

lemma innerWidth_line:
  assumes "l \<in> set ls" and "RuneCount (StripANSI l) \<le> 100"
  shows "RuneCount (StripANSI l) \<le> innerWidth title ls"
  using assms width_foldl [of "RuneCount (StripANSI title)" "\<lambda>l. RuneCount (StripANSI l)" ls l]
  by (simp add: innerWidth_def Let_def)

lemma cutLine_cut:
  assumes "RuneCount (StripANSI (RemoveByte l (CHR 0x0D))) > w" and "3 \<le> w"
  shows "RuneCount (fst (cutLine w l)) = w \<and> snd (cutLine w l) = w"
proof -
  let ?v = "StripANSI (RemoveByte l (CHR 0x0D))"
  have "runes (concat (take (w - 3) (runes ?v)) @ ''...'') = take (w - 3) (runes ?v) @ runes ''...''"
    by (rule runes_concat) (auto dest: in_set_takeD intro: runes_rune)
  then have "RuneCount (concat (take (w - 3) (runes ?v)) @ ''...'') = w"
    using assms by (simp add: RuneCount_def runes_dots min_def) linarith
  then show ?thesis using assms(1) by (simp add: cutLine_def Let_def)
qed

text \<open>A byte that neither is part of an escape sequence nor of a rune of several bytes.\<close>

definition plain_byte :: "char \<Rightarrow> bool" where
  "plain_byte c \<longleftrightarrow> c = CHR '' '' \<or> c = CHR 0x0A"

lemma ansi_len_plain:
  assumes "plain_byte c" and "x \<noteq> []"
  shows "ansi_len (x @ c # y) = ansi_len x \<and> ansi_len x \<le> length x"
proof -
  have c: "\<not> param_byte c" "c \<noteq> CHR ''m''" "c \<noteq> CHR ''[''"
    using assms(1) by (auto simp: plain_byte_def param_byte_def is_decimal_def)
  have le: "length (takeWhile param_byte r) < length r" if "dropWhile param_byte r = a # l" for r a l
    using that by (induction r) (auto split: if_splits)
  show ?thesis
  proof (cases x rule: remdups_adj.cases)
    case (3 a b r)
    then show ?thesis
    proof (cases "dropWhile param_byte r")
      case Nil
      then have "\<forall>z \<in> set r. param_byte z" by simp
      then have "dropWhile param_byte (r @ c # y) = c # y" "takeWhile param_byte (r @ c # y) = r"
        using c by (simp_all add: dropWhile_append2 takeWhile_append2)
      then show ?thesis using 3 c Nil by (auto simp: ansi_len_def simp del: dropWhile_eq_Nil_conv)
    next
      case (Cons d l)
      then obtain z where z: "z \<in> set r" "\<not> param_byte z"
        by (metis dropWhile_eq_Nil_conv list.distinct(1))
      then have "dropWhile param_byte (r @ c # y) = dropWhile param_byte r @ c # y"
        "takeWhile param_byte (r @ c # y) = takeWhile param_byte r"
        by (simp_all add: dropWhile_append1 takeWhile_append1)
      then show ?thesis using 3 Cons le [OF Cons] by (simp add: ansi_len_def)
    qed
  qed (use assms c in \<open>simp_all add: ansi_len_def\<close>)
qed

lemma ansi_len_plain_hd: "plain_byte c \<Longrightarrow> ansi_len (c # y) = 0"
  by (auto simp: ansi_len_def plain_byte_def split: list.splits)

lemma StripANSI_plain: "plain_byte c \<Longrightarrow> StripANSI (x @ c # y) = StripANSI x @ c # StripANSI y"
proof (induction x rule: length_induct)
  case (1 x)
  show ?case
  proof (cases x)
    case Nil
    then show ?thesis using ansi_len_plain_hd [OF 1(2)]
      by (simp add: StripANSI.simps [of "[]"] StripANSI.simps [of "c # y"])
  next
    case (Cons a x1)
    have l: "ansi_len (x @ c # y) = ansi_len x" "ansi_len x \<le> length x"
      using ansi_len_plain [OF 1(2), of x y] Cons by auto
    show ?thesis
    proof (cases "ansi_len x = 0")
      case True
      then show ?thesis using 1 Cons l
        by (subst StripANSI.simps) (simp add: StripANSI.simps [of "a # x1"])
    next
      case False
      then have "length (drop (ansi_len x) x) < length x" using Cons by simp
      then have "StripANSI (drop (ansi_len x) x @ c # y) = StripANSI (drop (ansi_len x) x) @ c # StripANSI y"
        using 1 by blast
      moreover have "drop (ansi_len x) (x @ c # y) = drop (ansi_len x) x @ c # y" using l by simp
      ultimately show ?thesis using False l(1) Cons
        by (subst StripANSI.simps) (simp add: StripANSI.simps [of "a # x1"])
    qed
  qed
qed

lemma runes_plain: "plain_byte c \<Longrightarrow> runes (x @ c # y) = runes x @ [c] # runes y"
proof (induction x rule: length_induct)
  case (1 x)
  have c: "in_range 0 0x7F c" using 1(2) by (auto simp: plain_byte_def in_range_def)
  have n: "\<not> well_formed2 a c" "\<not> well_formed3 a c b" "\<not> well_formed3 a b c" "\<not> well_formed4 a c b d"
     "\<not> well_formed4 a b c d" "\<not> well_formed4 a b d c" for a b d
    using 1(2) by (auto simp: plain_byte_def well_formed2_def well_formed3_def well_formed4_def in_range_def)
  have IH: "length z < length x \<Longrightarrow> runes (z @ c # y) = runes z @ [c] # runes y" for z using 1 by blast
  show ?case
  proof (cases x)
    case Nil
    then show ?thesis using c by (simp add: runes.simps [of "[]"] runes.simps [of "c # y"])
  next
    case (Cons a x1)
    have 0: "runes (c # y) = [c] # runes y" using IH [of "[]"] Cons by (simp add: runes.simps [of "[]"])
    show ?thesis
    proof (cases x1)
      case Nil
      then show ?thesis using Cons 0 n
        by (subst runes.simps) (auto simp: runes.simps [of "[a]"] runes.simps [of "[]"] split: list.splits)
    next
      case (Cons b x2)
      note x1 = this
      have 1: "runes (b # x2 @ c # y) = runes (b # x2) @ [c] # runes y" "runes (x2 @ c # y) = runes x2 @ [c] # runes y"
        using IH [of x1] IH [of x2] \<open>x = a # x1\<close> x1 by auto
      show ?thesis
      proof (cases x2)
        case Nil
        then show ?thesis using \<open>x = a # x1\<close> x1 0 1 n
          by (subst runes.simps) (auto simp: runes.simps [of "[a, b]"] split: list.splits)
      next
        case (Cons d x3)
        have 2: "runes (x3 @ c # y) = runes x3 @ [c] # runes y" using IH [of x3] \<open>x = a # x1\<close> x1 Cons by auto
        show ?thesis
        proof (cases x3)
          case Nil
          then show ?thesis using \<open>x = a # x1\<close> x1 Cons 0 1 2 n
            by (subst runes.simps) (simp add: runes.simps [of "[a, b, d]"])
        next
          case (Cons e x4)
          then show ?thesis using \<open>x = a # x1\<close> x1 \<open>x2 = d # x3\<close> 1 2 IH [of x4]
            by (subst runes.simps) (simp add: runes.simps [of "a # b # d # e # x4"])
        qed
      qed
    qed
  qed
qed

text \<open>What is visible of a string, and how wide it is.\<close>

abbreviation shownWidth :: "string \<Rightarrow> nat" where
  "shownWidth s \<equiv> RuneCount (StripANSI s)"

lemma shownWidth_plain: "plain_byte c \<Longrightarrow> shownWidth (x @ c # y) = Suc (shownWidth x + shownWidth y)"
  by (simp add: StripANSI_plain runes_plain RuneCount_def)

lemma shownWidth_Nil [simp]: "shownWidth [] = 0"
  by (simp add: StripANSI.simps [of "[]"] RuneCount_def runes.simps [of "[]"])

lemma shownWidth_pad: "shownWidth (d @ Repeat '' '' n @ CHR '' '' # y) = shownWidth d + Suc n + shownWidth y"
proof (induction n arbitrary: d)
  case 0
  show ?case by (simp add: Repeat_def shownWidth_plain plain_byte_def)
next
  case (Suc n)
  have "shownWidth (d @ Repeat '' '' (Suc n) @ CHR '' '' # y) =
      Suc (shownWidth d + shownWidth ([] @ Repeat '' '' n @ CHR '' '' # y))"
    by (simp add: Repeat_def shownWidth_plain plain_byte_def)
  then show ?case by (simp only: Suc.IH) simp
qed

lemma StripANSI_no_esc: "CHR 0x1B \<notin> set z \<Longrightarrow> StripANSI (z @ y) = z @ StripANSI y"
proof (induction z)
  case (Cons a z)
  then have "ansi_len (a # z @ y) = 0" by (auto simp: ansi_len_def split: list.splits)
  with Cons show ?case by (simp add: StripANSI.simps [of "a # z @ y"])
qed simp

lemma StripANSI_no_esc_id: "CHR 0x1B \<notin> set z \<Longrightarrow> StripANSI z = z"
  using StripANSI_no_esc [of z "[]"] by (simp add: StripANSI.simps [of "[]"])

lemma shownWidth_marks:
  "shownWidth (CR @ Cyan @ vline @ Reset) = 2" "shownWidth (CR @ Cyan @ vline) = 2"
  "shownWidth (Cyan @ vline @ Reset @ LF) = 2" "shownWidth (vline @ Reset @ LF) = 2"
  by code_simp+

lemma ansi_colours: "StripANSI (CR @ Cyan @ z) = CR @ StripANSI z" "StripANSI (Reset @ LF) = LF"
proof -
  have "ansi_len (Cyan @ z) = 5" by (simp add: ansi_len_def Cyan_def esc_def param_byte_def is_decimal_def)
  then have "StripANSI (Cyan @ z) = StripANSI (drop 5 (Cyan @ z))"
    by (subst StripANSI.simps) (simp add: Cyan_def esc_def)
  then have "StripANSI (Cyan @ z) = StripANSI z" by (simp add: Cyan_def esc_def)
  then show "StripANSI (CR @ Cyan @ z) = CR @ StripANSI z"
    by (subst StripANSI_no_esc) (simp_all add: CR_def)
  show "StripANSI (Reset @ LF) = LF" by code_simp
qed

lemma boxRule_width:
  assumes "rune l" and "rune r" and "CHR 0x1B \<notin> set l" and "CHR 0x1B \<notin> set r"
  shows "shownWidth (boxRule l w r) = w + 6"
proof -
  have "StripANSI (boxRule l w r) = concat ([CR, l] @ replicate (w + 2) hline_char @ [r, LF])"
    using assms StripANSI_no_esc [of "l @ Repeat hline_char (w + 2) @ r" "Reset @ LF"]
    by (simp add: boxRule_def ansi_colours Repeat_def hline_char_def)
  also have "runes \<dots> = [CR, l] @ replicate (w + 2) hline_char @ [r, LF]"
  proof -
    have "rune x" if "x \<in> set ([CR, l] @ replicate (w + 2) hline_char @ [r, LF])" for x
      using that assms(1,2)
      by (auto simp: rune_def CR_def LF_def hline_char_def in_range_def well_formed3_def)
    from runes_concat [OF this, of "[CR, l] @ replicate (w + 2) hline_char @ [r, LF]" "[]"] show ?thesis
      by (simp add: runes.simps [of "[]"])
  qed
  finally show ?thesis by (simp add: RuneCount_def)
qed

lemma boxText_width:
  assumes "CHR 0x1B \<notin> set t" and "RuneCount t \<le> w"
  shows "shownWidth (boxText w t) = w + 6"
proof -
  have "shownWidth (boxText w t) = shownWidth ((CR @ Cyan @ vline) @ CHR '' '' #
      (t @ Repeat '' '' (w - RuneCount t) @ CHR '' '' # vline @ Reset @ LF))"
    by (simp add: boxText_def padTo_def)
  then show ?thesis
    using assms by (simp only: shownWidth_plain shownWidth_pad shownWidth_marks plain_byte_def simp_thms)
      (simp add: StripANSI_no_esc_id)
qed

text \<open>The text a line is shown as in a box of a width: as it is, or cut to the width.\<close>

definition lineText :: "nat \<Rightarrow> string \<Rightarrow> string" where
  "lineText w l =
     (let clean = RemoveByte l (CHR 0x0D) in
      if shownWidth clean \<le> w then clean else concat (take (w - 3) (runes (StripANSI clean))) @ ''...'')"

lemma boxLine_text:
  "boxLine w l = CR @ Cyan @ vline @ Reset @ '' '' @ lineText w l @
     Repeat '' '' (w - min w (shownWidth (RemoveByte l (CHR 0x0D)))) @ '' '' @ Cyan @ vline @ Reset @ LF"
  by (simp add: boxLine_def cutLine_def lineText_def Let_def)

lemma set_runes: "r \<in> set (runes s) \<Longrightarrow> c \<in> set r \<Longrightarrow> c \<in> set s \<union> set RuneError"
proof (induction s rule: length_induct)
  case (1 s)
  then have IH: "length t < length s \<Longrightarrow> r \<in> set (runes t) \<Longrightarrow> c \<in> set t \<union> set RuneError" for t by blast
  show ?case
  proof (cases s)
    case (Cons a s1)
    with 1(2,3) IH [of s1] IH [of "tl s1"] IH [of "tl (tl s1)"] IH [of "tl (tl (tl s1))"] show ?thesis
      by (subst (asm) runes.simps) (auto split: if_splits list.splits)
  qed (use 1(2) in \<open>simp add: runes.simps\<close>)
qed

lemma boxLine_width:
  assumes "CHR 0x1B \<notin> set (StripANSI (RemoveByte l (CHR 0x0D)))" and "3 \<le> w"
  shows "shownWidth (boxLine w l) = w + 6"
proof -
  let ?v = "StripANSI (RemoveByte l (CHR 0x0D))"
  have t: "shownWidth (lineText w l) = min w (RuneCount ?v)"
  proof (cases "RuneCount ?v \<le> w")
    case False
    have "CHR 0x1B \<notin> set (lineText w l)"
      using False assms(1) set_runes [of _ ?v "CHR 0x1B"]
      by (auto simp: lineText_def Let_def RuneError_def dest: in_set_takeD)
    then show ?thesis
      using False cutLine_cut [of w l] assms(2)
      by (simp add: StripANSI_no_esc_id) (simp add: lineText_def cutLine_def Let_def)
  qed (simp add: lineText_def Let_def)
  have "shownWidth (boxLine w l) = shownWidth ((CR @ Cyan @ vline @ Reset) @ CHR '' '' #
      (lineText w l @ Repeat '' '' (w - min w (RuneCount ?v)) @ CHR '' '' # Cyan @ vline @ Reset @ LF))"
    by (simp add: boxLine_text)
  then show ?thesis
    by (simp only: shownWidth_plain shownWidth_pad shownWidth_marks plain_byte_def simp_thms t)
qed

lemma calls_DrawBox:
  "calls (DrawBox title ls) s = UiC (Print clearLine) # map (\<lambda>r. UiC (Print r)) (boxRows title ls)"
  by (simp add: DrawBox_def calls_def run_for_each_sys)

lemma innerWidth_title: "shownWidth title \<le> 100 \<Longrightarrow> shownWidth title \<le> innerWidth title ls"
  using conjunct1 [OF width_foldl [of "shownWidth title" "\<lambda>l. shownWidth l" ls undefined]]
  by (simp add: innerWidth_def Let_def)

text \<open>
  C39: what \<open>DrawBox\<close> prints is a box. For a title of at most 100 visible runes, and when
  stripping leaves no escape byte in the title or a line, there is a width from 50 to 100 that no
  line of at most 100 visible runes exceeds, such that after clearing the line \<open>DrawBox\<close> prints the
  two rules, the title, and a row for each line (or the one row for no data), closed by a rule; every
  row printed is visibly as wide as the others, its border included, and the row of a line shows the
  line without carriage returns, colours kept, if it fits, and otherwise its visible runes cut to the
  width with three dots.
\<close>

theorem box_fits:
  assumes "shownWidth title \<le> 100" and "CHR 0x1B \<notin> set (StripANSI title)"
    and "\<forall>l \<in> set ls. CHR 0x1B \<notin> set (StripANSI (RemoveByte l (CHR 0x0D)))"
  shows "\<exists>w rows. 50 \<le> w \<and> w \<le> 100 \<and> (\<forall>l \<in> set ls. shownWidth l \<le> 100 \<longrightarrow> shownWidth l \<le> w) \<and>
    calls (DrawBox title ls) s = UiC (Print clearLine) # map (\<lambda>r. UiC (Print r)) rows \<and>
    length rows = 4 + max 1 (length ls) \<and> (\<forall>r \<in> set rows. shownWidth r = w + 6) \<and>
    (\<forall>i < length ls. \<exists>n. rows ! (3 + i) = CR @ Cyan @ vline @ Reset @ '' '' @ lineText w (ls ! i) @
       Repeat '' '' n @ '' '' @ Cyan @ vline @ Reset @ LF)"
proof (intro exI conjI)
  let ?w = "innerWidth title ls"
  show "50 \<le> ?w" "?w \<le> 100" by (rule innerWidth_bounds)+
  show "\<forall>l \<in> set ls. shownWidth l \<le> 100 \<longrightarrow> shownWidth l \<le> ?w" using innerWidth_line by blast
  show "calls (DrawBox title ls) s = UiC (Print clearLine) # map (\<lambda>r. UiC (Print r)) (boxRows title ls)"
    by (rule calls_DrawBox)
  show "length (boxRows title ls) = 4 + max 1 (length ls)"
    by (cases ls) (simp_all add: boxRows_def Let_def)
  have t: "shownWidth title \<le> ?w" using innerWidth_title [OF assms(1)] by simp
  have "shownWidth (boxRule l ?w r) = ?w + 6"
    if "(l, r) \<in> {(corner_tl, corner_tr), (tee_l, tee_r), (corner_bl, corner_br)}" for l r
    using that by (intro boxRule_width) (auto simp: rune_def well_formed3_def in_range_def corner_tl_def
        corner_tr_def tee_l_def tee_r_def corner_bl_def corner_br_def)
  moreover have "shownWidth (boxText ?w (StripANSI title)) = ?w + 6"
    using t assms(2) by (intro boxText_width)
  moreover have "RuneCount ''(no data)'' = 9" by code_simp
  then have "shownWidth (boxText ?w ''(no data)'') = ?w + 6"
    using innerWidth_bounds(1) [of title ls] by (intro boxText_width) auto
  moreover have "shownWidth (boxLine ?w l) = ?w + 6" if "l \<in> set ls" for l
    using that assms(3) innerWidth_bounds(1) [of title ls] by (intro boxLine_width) auto
  ultimately show "\<forall>r \<in> set (boxRows title ls). shownWidth r = ?w + 6"
    by (auto simp: boxRows_def Let_def)
  show "\<forall>i < length ls. \<exists>n. boxRows title ls ! (3 + i) = CR @ Cyan @ vline @ Reset @ '' '' @
      lineText ?w (ls ! i) @ Repeat '' '' n @ '' '' @ Cyan @ vline @ Reset @ LF"
    by (auto simp: boxRows_def Let_def nth_append boxLine_text simp del: append_Cons intro!: exI)
qed


definition ex_ok :: string where
  "ex_ok = Green @ ''ok'' @ Reset"

lemma ex_line: "shownWidth ex_ok = 2" "CHR 0x1B \<notin> set (StripANSI ex_ok)"
  "RemoveByte ex_ok (CHR 0x0D) = ex_ok" "CHR 0x1B \<notin> set (StripANSI ''T'')" "shownWidth ''T'' = 1"
  by code_simp+

theorem box_fits_witness:
  "\<exists>w n rows. 50 \<le> w \<and> calls (DrawBox ''T'' [ex_ok]) quiet_os =
      UiC (Print clearLine) # map (\<lambda>r. UiC (Print r)) rows \<and>
    length rows = 5 \<and> list_all (\<lambda>r. shownWidth r = w + 6) rows \<and>
    rows ! 3 = CR @ Cyan @ vline @ Reset @ '' '' @ ex_ok @ Repeat '' '' n @ '' '' @ Cyan @ vline @ Reset @ LF"
proof -
  have "shownWidth ''T'' \<le> 100" "CHR 0x1B \<notin> set (StripANSI ''T'')"
    "\<forall>l \<in> set [ex_ok]. CHR 0x1B \<notin> set (StripANSI (RemoveByte l (CHR 0x0D)))"
    by (simp_all add: ex_line)
  from box_fits [OF this, of quiet_os] obtain w rows where
    w: "50 \<le> w" and c: "calls (DrawBox ''T'' [ex_ok]) quiet_os = UiC (Print clearLine) # map (\<lambda>r. UiC (Print r)) rows"
    and l: "length rows = 5" and r: "\<forall>r \<in> set rows. shownWidth r = w + 6"
    and n: "\<exists>n. rows ! 3 = CR @ Cyan @ vline @ Reset @ '' '' @ lineText w ex_ok @
       Repeat '' '' n @ '' '' @ Cyan @ vline @ Reset @ LF"
    by auto
  have "lineText w ex_ok = ex_ok"
    using w by (simp add: lineText_def Let_def ex_line)
  with n obtain n where
    "rows ! 3 = CR @ Cyan @ vline @ Reset @ '' '' @ ex_ok @ Repeat '' '' n @ '' '' @ Cyan @ vline @ Reset @ LF"
    by auto
  with w c l r show ?thesis unfolding list_all_iff by blast
qed

section \<open>The interface of the logger\<close>

text \<open>What a series of calls writes to the terminal.\<close>

fun shownBy :: "call \<Rightarrow> string" where
  "shownBy (UiC (Print p)) = p"
| "shownBy _ = []"

definition shown :: "call list \<Rightarrow> string" where
  "shown cs = concat (map shownBy cs)"

lemma shown_simps [simp]: "shown [] = []" "shown (c # cs) = shownBy c @ shown cs" "shown (cs @ ds) = shown cs @ shown ds"
  by (simp_all add: shown_def)

text \<open>What one message shows when \<open>act\<close> is attached and \<open>redraw\<close> is the prompt.\<close>

definition msgText :: "string \<Rightarrow> string \<Rightarrow> LogMsg \<Rightarrow> string" where
  "msgText act redraw m =
     (if MsgType m = TypeContainer then
        (if IsHeader m \<or> IsFooter m then []
         else if act = MsgContainer m then MsgData m
         else clearLine @ esc ''0m'' @ '' '' @ esc ''36m'' @ esc ''1m'' @ vline @ esc ''0m'' @ '' '' @ MsgData m @ CRLF @
           (if act = [] then redraw else []))
      else clearLine @ logPrefix (MsgType m) @ '' '' @ MsgData m @ CRLF @ (if act = [] then redraw else []))"

text \<open>
  \<open>MuxLogger\<close>: \<open>getActive\<close> finds out which container is attached without writing anything, \<open>refresh\<close>
  writes the prompt, and neither changes what is attached or what the prompt is.
\<close>

locale mux_logger =
  fixes getActive :: "('z os_scheme, string) state"
    and refresh :: "('z os_scheme, unit) state"
    and act :: "'z os_scheme \<Rightarrow> string"
    and redraw :: "'z os_scheme \<Rightarrow> string"
  assumes active: "\<exists>cs. run_state getActive s = (act s, with_calls cs s) \<and> shown cs = []"
    and refreshed: "\<exists>cs. run_state refresh s = ((), with_calls cs s) \<and> shown cs = redraw s"
    and kept: "act (with_calls cs s) = act s" "redraw (with_calls cs s) = redraw s"
begin

lemma showMsg_text:
  "\<exists>cs. run_state (showMsg getActive refresh m) s = ((), with_calls cs s) \<and> shown cs = msgText (act s) (redraw s) m"
proof -
  obtain cs where 1: "run_state getActive s = (act s, with_calls cs s)" "shown cs = []"
    using active by blast
  have tail: "\<exists>ds. run_state (do { act \<leftarrow> getActive; if act = [] then refresh else return () }) t = ((), with_calls ds t) \<and>
      shown ds = (if act t = [] then redraw t else [])" for t
  proof -
    obtain ds where 2: "run_state getActive t = (act t, with_calls ds t)" "shown ds = []"
      using active by blast
    obtain es where 3: "run_state refresh (with_calls ds t) = ((), with_calls es (with_calls ds t))"
      "shown es = redraw t" using refreshed kept by metis
    show ?thesis
    proof (cases "act t = []")
      case True
      then show ?thesis using 2 3 by (intro exI [of _ "ds @ es"]) simp
    next
      case False
      then show ?thesis using 2 by (intro exI [of _ ds]) simp
    qed
  qed
  show ?thesis
  proof (cases "MsgType m = TypeContainer")
    case True
    show ?thesis
    proof (cases "IsHeader m \<or> IsFooter m \<or> act s = MsgContainer m")
      case h: True
      show ?thesis
      proof (cases "IsHeader m \<or> IsFooter m")
        case True
        with \<open>MsgType m = TypeContainer\<close> 1 show ?thesis
          by (intro exI [of _ cs]) (simp add: showMsg_def msgText_def Let_def)
      next
        case False
        with h \<open>MsgType m = TypeContainer\<close> 1 show ?thesis
          by (intro exI [of _ "cs @ [UiC (Print (MsgData m))]"]) (simp add: showMsg_def msgText_def Let_def)
      qed
    next
      case False
      define frame where "frame = esc ''0m'' @ '' '' @ esc ''36m'' @ esc ''1m'' @ vline @ esc ''0m'' @ '' '' @ MsgData m @ CRLF"
      let ?cs = "cs @ [UiC (Print clearLine), UiC (Print frame)]"
      from tail [of "with_calls ?cs s"] obtain ds where
        "run_state (do { act \<leftarrow> getActive; if act = [] then refresh else return () }) (with_calls ?cs s) =
          ((), with_calls ds (with_calls ?cs s))" "shown ds = (if act s = [] then redraw s else [])"
        unfolding kept by blast
      then show ?thesis
        using False True 1
        by (intro exI [of _ "?cs @ ds"]) (simp add: showMsg_def msgText_def Let_def frame_def)
    qed
  next
    case False
    define line where "line = clearLine @ logPrefix (MsgType m) @ '' '' @ MsgData m @ CRLF"
    let ?cs = "cs @ [UiC (Print line)]"
    from tail [of "with_calls ?cs s"] obtain ds where
      "run_state (do { act \<leftarrow> getActive; if act = [] then refresh else return () }) (with_calls ?cs s) =
        ((), with_calls ds (with_calls ?cs s))" "shown ds = (if act s = [] then redraw s else [])"
      unfolding kept by blast
    then show ?thesis
      using False 1
      by (intro exI [of _ "?cs @ ds"]) (simp add: showMsg_def msgText_def Let_def line_def)
  qed
qed

lemma showMsgs_text:
  "\<exists>cs. run_state (showMsgs getActive refresh ms) s = ((), with_calls cs s) \<and>
    shown cs = concat (map (msgText (act s) (redraw s)) ms)"
proof (induction ms arbitrary: s)
  case Nil
  show ?case by (auto intro: exI [of _ "[]"])
next
  case (Cons m ms)
  obtain cs where 1: "run_state (showMsg getActive refresh m) s = ((), with_calls cs s)"
    "shown cs = msgText (act s) (redraw s) m" using showMsg_text by blast
  obtain ds where "run_state (showMsgs getActive refresh ms) (with_calls cs s) = ((), with_calls ds (with_calls cs s))"
    "shown ds = concat (map (msgText (act s) (redraw s)) ms)" using Cons.IH [of "with_calls cs s"] unfolding kept by blast
  with 1 show ?case by (intro exI [of _ "cs @ ds"]) simp
qed

lemma logger_text:
  "\<exists>cs. run_state (StartGlobalLogger getActive refresh ms) s = ((), with_calls (cs @ [UiC (ChanSend ''done'')]) s) \<and>
    shown cs = concat (map (msgText (act s) (redraw s)) ms)"
  using showMsgs_text [of ms s] by (auto simp: StartGlobalLogger_def)

end

end
