(* ===== verification/Commands.thy ===== *)
theory Commands
  imports Reaper Logger "HOL-Library.Char_ord" "HOL-Library.List_Lexorder"
begin

text \<open>
  The supervisor's commands, \<open>sup/commands.go\<close>: \<open>Dispatch\<close> and the functions it calls. What a command
  prints in a box is computed to the byte; a message printed outside of one is kept as its
  format and arguments. The goroutines that commands start are named, with their arguments other
  than the IPC; their bodies are \<open>StartJoiner\<close> and \<open>StartJoinerBatch\<close>.
\<close>

section \<open>Prompt and formatting\<close>

definition RefreshPrompt :: "('z app_scheme, unit) state" where
  "RefreshPrompt = do { s \<leftarrow> State_Monad.get; sys (UiC (Print (prompt @ lineBuf s))) }"

definition printf :: "string \<Rightarrow> arg list \<Rightarrow> ('z os_scheme, unit) state" where
  "printf fmt args = sys (UiC (Printf fmt args))"

text \<open>\<open>%2d\<close>, \<open>%-6d\<close> and \<open>%-12s\<close>, and \<open>%v\<close> of a slice of numbers.\<close>

definition padLeft :: "nat \<Rightarrow> string \<Rightarrow> string" where
  "padLeft w s = Repeat '' '' (w - length s) @ s"

definition showInts :: "int list \<Rightarrow> string" where
  "showInts ns = ''['' @ Join (map Itoa ns) '' '' @ '']''"

text \<open>\<open>NewIPC\<close> with its error dropped: a nil pointer.\<close>

definition newIPC :: "('z os_scheme, IPC option) state" where
  "newIPC = do { r \<leftarrow> NewIPC; return (case r of Inl _ \<Rightarrow> None | Inr ipc \<Rightarrow> Some ipc) }"

section \<open>Forwarding a port\<close>

definition d_forward :: "string \<Rightarrow> ('z app_scheme, unit) state" where
  "d_forward input =
     (let parts = Fields input
      in if length parts \<noteq> 3 then printf (''Usage: forward <id> <port>'' @ CRLF) []
      else let cid = ''bctor-'' @ parts ! 1
      in case Atoi (parts ! 2) of
           Inl _ \<Rightarrow> printf (''Error: invalid port number %q'' @ CRLF) [ArgS (parts ! 2)]
         | Inr port \<Rightarrow>
             if port \<le> 0 \<or> port > 65535 then printf (''Error: invalid port number %q'' @ CRLF) [ArgS (parts ! 2)]
             else do {
               c \<leftarrow> locked ScxMu (lookupContainer cid);
               case c of
                 None \<Rightarrow> printf (''Error: container %s not found'' @ CRLF) [ArgS cid]
               | Some a \<Rightarrow>
                   (case podOf cid of
                      None \<Rightarrow> printf (''Error: invalid container id'' @ CRLF) []
                    | Some podName \<Rightarrow> do {
                        c \<leftarrow> readContainer a;
                        if WorkloadPID c \<le> 0
                        then printf (''Error: container %s workload PID is not ready yet'' @ CRLF) [ArgS cid]
                        else do {
                          e \<leftarrow> AddSession podName port port (WorkloadPID c);
                          case e of
                            Some e \<Rightarrow> printf (''Error starting forward: %v'' @ CRLF) [ArgE e]
                          | None \<Rightarrow> LogSuccess ''Forwarding localhost:%d -> %s:%d'' [ArgI port, ArgS cid, ArgI port]
                        }
                      })
             })"

section \<open>Starting pods and containers\<close>

text \<open>A container put into the table once more under its specification's id.\<close>

definition reenterContainer :: "nat \<Rightarrow> ('z app_scheme, unit outcome) state" where
  "reenterContainer a = do {
     _ \<leftarrow> sys (UiC (Lock ScxMu));
     c \<leftarrow> readContainer a;
     case CSpec c of
       None \<Rightarrow> return (Panic ''nil pointer dereference'')
     | Some spec \<Rightarrow> do {
         _ \<leftarrow> putContainer (ID spec) a;
         _ \<leftarrow> sys (UiC (Unlock ScxMu));
         return (Ret ())
       }
   }"

text \<open>The letter for a new pod, with the error dropped.\<close>

definition newLetter :: "('z app_scheme, string outcome) state" where
  "newLetter = obind GetNextPodLetter (\<lambda>r. return (Ret (case r of Inl _ \<Rightarrow> [] | Inr l \<Rightarrow> l)))"

definition isPodLetter :: "string \<Rightarrow> bool" where
  "isPodLetter s \<longleftrightarrow> length s = 1 \<and> is_lower (s ! 0)"

definition runBox :: "string \<Rightarrow> ('z os_scheme, unit outcome) state" where
  "runBox line = do { _ \<leftarrow> DrawBox ''BATCH RUN'' [line]; return (Ret ()) }"

definition runIn :: "string \<Rightarrow> bool \<Rightarrow> string list \<Rightarrow> ('z app_scheme, unit outcome) state" where
  "runIn letter isJoiner cmdParts =
     (if cmdParts = [] then runBox ''[-] Error: No command specified''
      else do {
        let fullCmd = Join cmdParts '' '';
        ipc \<leftarrow> newIPC;
        if isJoiner then do {
          root \<leftarrow> locked ScxMu (lookupContainer (containerID letter 1));
          case root of
            None \<Rightarrow> runBox (''[-] Error: Pod '' @ letter @ '' doesn'' @ [CHR 0x27] @ ''t exist'')
          | Some root \<Rightarrow> do {
              idx \<leftarrow> GetNextContainerIndex letter;
              let name = containerID letter idx;
              _ \<leftarrow> sys (UiC (Spawn ''StartJoinerBatch'' [ArgI (int root), ArgS name, ArgS fullCmd]));
              runBox (''[+] Running batch in '' @ letter @ '': '' @ fullCmd)
            }
        }
        else obind (StartCreatorBatch letter fullCmd ipc) (\<lambda>r.
          case r of
            Inl _ \<Rightarrow> runBox ''[-] Failed to start batch creator''
          | Inr a \<Rightarrow> obind (reenterContainer a) (\<lambda>_.
              runBox (''[+] '' @ Reset @ ''New Pod ['' @ letter @ ''] running: '' @ fullCmd)))
      })"

definition d_run :: "string \<Rightarrow> ('z app_scheme, unit outcome) state" where
  "d_run input =
     (let parts = Fields input
      in if length parts < 2 then runBox ''Usage: run <pod> <cmd>  OR  run <cmd>''
         else if isPodLetter (parts ! 1) then runIn (parts ! 1) True (drop 2 parts)
         else obind newLetter (\<lambda>letter. runIn letter False (drop 1 parts)))"

text \<open>The loop of \<open>d_new\<close> that starts joiners: a placeholder holds each one's name.\<close>

fun joinMany :: "nat \<Rightarrow> nat \<Rightarrow> string \<Rightarrow> ('z app_scheme, string list) state" where
  "joinMany 0 root letter = return []"
| "joinMany (Suc n) root letter = do {
     ipc \<leftarrow> newIPC;
     num \<leftarrow> GetNextContainerIndex letter;
     let name = containerID letter num;
     _ \<leftarrow> enterPlaceholder name;
     _ \<leftarrow> sys (UiC (Spawn ''StartJoiner'' [ArgI (int root), ArgS name]));
     ls \<leftarrow> joinMany n root letter;
     return ((''[+] Container ['' @ name @ ''] joining Pod ['' @ letter @ '']'') # ls)
   }"

definition joinCount :: "string list \<Rightarrow> nat \<times> string list" where
  "joinCount parts =
     (if length parts = 3 then
        (case Atoi (parts ! 2) of
           Inr val \<Rightarrow> if val > 0 then (nat val, []) else (1, [''[-] Invalid count, defaulting to 1''])
         | Inl _ \<Rightarrow> (1, [''[-] Invalid count, defaulting to 1'']))
      else (1, []))"

definition newCreator :: "('z app_scheme, string list outcome) state" where
  "newCreator = do {
     ipc \<leftarrow> newIPC;
     obind newLetter (\<lambda>letter.
     obind (StartCreator letter ModeInteractive ProfileDebugShell ipc) (\<lambda>r.
       case r of
         Inl _ \<Rightarrow> return (Ret [''[-] Start Creator failed''])
       | Inr a \<Rightarrow> obind (reenterContainer a) (\<lambda>_.
           return (Ret [''[+] Created Pod ['' @ letter @ '']'']))))
   }"

definition newJoiners :: "string list \<Rightarrow> ('z app_scheme, string list outcome) state" where
  "newJoiners parts = do {
     let letter = parts ! 1;
     let c = joinCount parts;
     root \<leftarrow> locked ScxMu (lookupContainer (containerID letter 1));
     case root of
       None \<Rightarrow> return (Ret (snd c @ [''[-] Error: Pod '' @ letter @ '' does not exist'']))
     | Some root \<Rightarrow> do { ls \<leftarrow> joinMany (fst c) root letter; return (Ret (snd c @ ls)) }
   }"

definition d_new :: "string \<Rightarrow> ('z app_scheme, unit outcome) state" where
  "d_new input =
     (let parts = Fields input
      in obind (if length parts = 1 then newCreator
                else if length parts \<ge> 2 then newJoiners parts else return (Ret [])) (\<lambda>ls. do {
           _ \<leftarrow> DrawBox ''POD MANAGEMENT'' ls;
           return (Ret ())
         }))"

section \<open>Killing\<close>

text \<open>What one attempt does under the mutex; nothing is said yet if there is no pid to kill.\<close>

definition killSection :: "string \<Rightarrow> ('z app_scheme, string option) state" where
  "killSection targetID = do {
     s \<leftarrow> State_Monad.get;
     case map_get (containers s) targetID of
       None \<Rightarrow> return (Some (''[-] Skipped '' @ targetID @ '': not found''))
     | Some a \<Rightarrow>
         (let c = heap s a
          in if WorkloadPID c > 0 then do {
               _ \<leftarrow> sys (PrC (Kill (WorkloadPID c) SIGKILL));
               _ \<leftarrow> (case podOf targetID of None \<Rightarrow> return ()
                 | Some podName \<Rightarrow>
                     (if isNetRoot c \<and> keepAliveOpen c \<and>
                         podWouldBeEmptyAfterRemoving podName targetID (containers s)
                      then freeKeepAlive a else return ()));
               return (Some (''[+] Killed '' @ targetID @ '' (PID '' @ Itoa (WorkloadPID c) @ '')''))
             }
             else if InitPID c > 0 then do {
               _ \<leftarrow> sys (PrC (Kill (InitPID c) SIGKILL));
               return (Some (''[+] Killed '' @ targetID @ '' init (PID '' @ Itoa (InitPID c) @ '')''))
             }
             else return None)
   }"

fun killAttempts :: "nat \<Rightarrow> string \<Rightarrow> ('z app_scheme, string) state" where
  "killAttempts 0 targetID = return (''[-] Skipped '' @ targetID @ '': no valid PID yet'')"
| "killAttempts (Suc k) targetID = do {
     r \<leftarrow> locked ScxMu (killSection targetID);
     case r of Some msg \<Rightarrow> return msg
     | None \<Rightarrow> do {
         _ \<leftarrow> (if k > 0 then sys (PrC (SleepMs 40)) else return ());
         killAttempts k targetID
       }
   }"

definition killOneWithRetry :: "string \<Rightarrow> ('z app_scheme, string) state" where
  "killOneWithRetry targetID = killAttempts 4 targetID"

fun killAll :: "string list \<Rightarrow> ('z app_scheme, string list) state" where
  "killAll [] = return []"
| "killAll (cid # cids) = do {
     l \<leftarrow> killOneWithRetry cid;
     ls \<leftarrow> killAll cids;
     return (l # ls)
   }"

text \<open>
  The rounds of \<open>d_kill\<close> over a pod; \<open>k\<close> are left after this one. Each round takes the table as it then is, in
  the order of the list, where the code's order may differ from round to round. The code holds
  no mutex between the rounds; here, as in every computation, what other goroutines do in between is not
  part of the run, and \<open>sup_step\<close> has their interleavings.
\<close>

fun killRounds :: "nat \<Rightarrow> string \<Rightarrow> ('z app_scheme, string list) state" where
  "killRounds 0 podLetter = return []"
| "killRounds (Suc k) podLetter = do {
     ids \<leftarrow> locked ScxMu (do {
       s \<leftarrow> State_Monad.get;
       return (filter (\<lambda>cid. HasPrefix cid (''bctor-'' @ podLetter)) (map_keys (containers s)))
     });
     if ids = [] then return []
     else do {
       ls \<leftarrow> killAll ids;
       _ \<leftarrow> (if k > 0 then sys (PrC (SleepMs 80)) else return ());
       more \<leftarrow> killRounds k podLetter;
       return (ls @ more)
     }
   }"

definition killContainer :: "string \<Rightarrow> ('z app_scheme, string list) state" where
  "killContainer targetID = do {
     c \<leftarrow> locked ScxMu (lookupContainer targetID);
     case c of None \<Rightarrow> return []
     | Some _ \<Rightarrow> do { l \<leftarrow> killOneWithRetry targetID; return [l] }
   }"

definition d_kill :: "string \<Rightarrow> ('z app_scheme, unit) state" where
  "d_kill input =
     (let parts = Fields input
      in if length parts < 2 \<or> length parts > 3
         then DrawBox ''KILL STATUS'' [''Usage: kill <pod_letter> | kill <pod_letter> <index>'']
         else do {
           let podLetter = parts ! 1;
           ls \<leftarrow> (if length parts = 3 then killContainer (''bctor-'' @ podLetter @ parts ! 2)
                 else killRounds 3 podLetter);
           let ls = (if ls = [] then [''[-] No active containers found for Pod ['' @ podLetter @ '']''] else ls);
           DrawBox (''KILL POD ['' @ ToUpper podLetter @ '']'') ls
         })"

end
