(* ===== verification/Console.thy ===== *)
theory Console
  imports Commands
begin

text \<open>
  The rest of \<open>sup/commands.go\<close> (listing, help, attaching, running a command in containers, leaving,
  and \<open>Dispatch\<close>) and \<open>sup/multiplexer.go\<close>: the terminals of the containers, and the line editor that
  feeds \<open>Dispatch\<close>.
\<close>

section \<open>Listing\<close>

definition bump :: "string \<Rightarrow> (string, nat) gomap \<Rightarrow> (string, nat) gomap" where
  "bump k m = map_put k ((case map_get m k of None \<Rightarrow> 0 | Some n \<Rightarrow> n) + 1) m"

definition alive :: "int \<Rightarrow> ('z os_scheme, bool) state" where
  "alive pid = do { e \<leftarrow> sys_err (PrC (Kill pid SIGNONE)); return (e = None) }"

text \<open>The loop that counts a pod's containers and those of them that are alive.\<close>

fun countPods :: "(string, Target) gomap \<Rightarrow> (string, nat) gomap \<Rightarrow> (string, nat) gomap \<Rightarrow>
    ('z os_scheme, (string, nat) gomap \<times> (string, nat) gomap) state" where
  "countPods [] counts living = return (counts, living)"
| "countPods ((cid, t) # ts) counts living =
     (case podOf cid of
        None \<Rightarrow> countPods ts counts living
      | Some pod \<Rightarrow> do {
          up \<leftarrow> alive (TPID t);
          countPods ts (bump pod counts) (if up then bump pod living else living)
        })"

definition countOf :: "string \<Rightarrow> (string, nat) gomap \<Rightarrow> nat" where
  "countOf k m = (case map_get m k of None \<Rightarrow> 0 | Some n \<Rightarrow> n)"

definition fullDot :: string where "fullDot = [CHR 0xE2, CHR 0x97, CHR 0x8F]"
definition emptyDot :: string where "emptyDot = [CHR 0xE2, CHR 0x97, CHR 0x8B]"
definition arrow :: string where "arrow = [CHR 0xE2, CHR 0x9E, CHR 0x9C]"

definition healthBar :: "nat \<Rightarrow> nat \<Rightarrow> string" where
  "healthBar up dead = Repeat (Green @ fullDot) up @ Repeat (Red @ emptyDot) dead @ Reset"

definition podColor :: "nat \<Rightarrow> nat \<Rightarrow> string" where
  "podColor up tot =
     (if up = 0 \<and> tot > 0 then Red else if tot - up > 0 then Yellow else Green)"

text \<open>\<open>total - alive\<close> is not negative: only counted containers are counted as alive.\<close>

definition podLine :: "string \<Rightarrow> nat \<Rightarrow> nat \<Rightarrow> int list \<Rightarrow> string" where
  "podLine pod tot up ports =
     (let dead = tot - up;
          bar = healthBar up dead;
          visualLen = RuneCount (StripANSI bar);
          forwardStr = (if ports \<noteq> [] then ''  '' @ esc ''90m'' @ arrow @ '' '' @ showInts ports @ esc ''0m'' else []);
          spacer = Repeat '' '' (10 - visualLen)
      in podColor up tot @ ''Pod ['' @ pod @ '']'' @ Reset @ ''  '' @ esc ''2m'' @ bar @ spacer @ esc ''0m'' @
         ''  Total:'' @ padLeft 2 (Itoa (int tot)) @ ''  Alive:'' @ Cyan @ padLeft 2 (Itoa (int up)) @ Reset @
         ''  Dead:'' @ Red @ padLeft 2 (Itoa (int dead)) @ Reset @ forwardStr)"

fun podLines :: "string list \<Rightarrow> (string, nat) gomap \<Rightarrow> (string, nat) gomap \<Rightarrow> ('z app_scheme, string list) state" where
  "podLines [] counts living = return []"
| "podLines (pod # pods) counts living = do {
     ports \<leftarrow> ListPorts pod;
     ls \<leftarrow> podLines pods counts living;
     return (podLine pod (countOf pod counts) (countOf pod living) ports # ls)
   }"

fun targetLines :: "string \<Rightarrow> string list \<Rightarrow> (string, Target) gomap \<Rightarrow> ('z os_scheme, string list) state" where
  "targetLines pod [] ts = return []"
| "targetLines pod (cid # cids) ts =
     (case map_get ts cid of None \<Rightarrow> targetLines pod cids ts
      | Some t \<Rightarrow>
          (if podOf cid \<noteq> Some pod then targetLines pod cids ts
           else do {
             up \<leftarrow> alive (TPID t);
             ls \<leftarrow> targetLines pod cids ts;
             return ((Reset @ padTo 12 cid @ '' PID:'' @ padTo 6 (Itoa (TPID t)) @ '' ['' @
               (if up then Green @ ''ALIVE'' else Red @ ''DEAD'') @ Reset @ '']'') # ls)
           }))"

text \<open>Only the branch with pods draws a box.\<close>

definition listPods :: "(string, Target) gomap \<Rightarrow> ('z app_scheme, unit) state" where
  "listPods ts = do {
     c \<leftarrow> countPods ts [] [];
     if fst c = [] then return ()
     else do {
       ls \<leftarrow> podLines (sort (map_keys (fst c))) (fst c) (snd c);
       DrawBox ''POD STATUS'' ls
     }
   }"

definition listPod :: "string \<Rightarrow> (string, Target) gomap \<Rightarrow> ('z app_scheme, unit) state" where
  "listPod pod ts = do {
     ls \<leftarrow> targetLines pod (sort (map_keys ts)) ts;
     DrawBox (''POD ['' @ pod @ ''] STATUS'')
       (if ls = [] then [''[-] Error: Pod '' @ pod @ '' does not exist''] else ls)
   }"

definition d_list :: "string \<Rightarrow> ('z app_scheme, unit) state" where
  "d_list input = do {
     let parts = Fields input;
     ts \<leftarrow> locked MuxMu (do { s \<leftarrow> State_Monad.get; return (targets s) });
     _ \<leftarrow> (if length parts = 1 then listPods ts
          else if length parts = 2 then listPod (parts ! 1) ts
          else DrawBox ''POD STATUS'' [''Usage: list | list <pod>'']);
     s \<leftarrow> State_Monad.get;
     if activeID s = [] then sys (UiC (Print (CR @ ''bctor '' @ [CHR 0xE2, CHR 0x9D, CHR 0xAF, CHR '' ''])))
     else return ()
   }"

section \<open>Help and clearing\<close>

definition helpLines :: "string list" where
  "helpLines = [
     ''POD MANAGEMENT'',
     ''  new | n           Create a new Pod (interactive)'',
     ''  new <pod> <n>     Create/Join <n> containers to Pod.'',
     ''  list | l          List all Pods, health, and forwards'',
     ''  list <pod>        List details for a specific Pod'',
     ''  kill | k <id>     Kill a specific container'',
     ''  kill | k <pod>    Kill a Pod and all containers inside of it'',
     [],
     ''INTERACTION'',
     ''  attach | a <id>   Connect TTY to container (e.g., a a1)'',
     ''  Ctrl+X            Detach from current container'',
     ''  run | r           Run batch commands from HOST to container'',
     ''  <id> <command>    - Id is optional: (r a1 ls | r ls)'',
     ''  clear | c         Clear the terminal screen'',
     [],
     ''NETWORKING'',
     ''  forward | f <id> <port>  Map host port to Pod port'',
     ''  (e.g., f a1 3000)        '' @ arrow @ '' localhost:3000 -> Pod A:3000'',
     [],
     ''EXECUTION'',
     ''  :<id> <cmd>       Run command in container (e.g., :a1 id)'',
     ''  :* <cmd>          Broadcast command to ALL containers'',
     ''  :!<id> <cmd>      Broadcast to all EXCEPT <id>'',
     [],
     ''SYSTEM'',
     ''  help | h          Show this menu'',
     ''  exit | bye        Shutdown all pods and exit supervisor'']"

definition d_help :: "('z os_scheme, unit) state" where
  "d_help = DrawBox ''BCTOR COMMAND REFERENCE'' helpLines"

definition d_clear :: "('z os_scheme, unit) state" where
  "d_clear = do {
     _ \<leftarrow> sys (UiC (Print (esc ''H'' @ esc ''2J'')));
     sys (UiC (Print (Cyan @ ''Bctor Supervisor Ready'' @ Reset @ CRLF)))
   }"

section \<open>Attaching\<close>

definition fullID :: "string \<Rightarrow> string" where
  "fullID t = (if HasPrefix t ''bctor-'' then t else ''bctor-'' @ t)"

text \<open>What is done under the multiplexer's mutex: the terminal becomes the active one if there is one.\<close>

definition attachSection :: "string \<Rightarrow> ('z app_scheme, bool) state" where
  "attachSection targetID = do {
     s \<leftarrow> State_Monad.get;
     if map_get (targets s) targetID \<noteq> None then do {
       _ \<leftarrow> State_Monad.update (\<lambda>s. s\<lparr>activeID := targetID, lineBuf := []\<rparr>);
       return True
     } else return False
   }"

definition d_attach :: "string \<Rightarrow> ('z app_scheme, unit) state" where
  "d_attach input =
     (let parts = Fields input
      in if length parts < 2 then do {
           _ \<leftarrow> printf (CRLF @ ''[-] Usage: attach <id> (e.g., attach a1)'' @ LF) [];
           RefreshPrompt
         }
         else do {
           let targetID = fullID (parts ! 1);
           c \<leftarrow> locked ScxMu (lookupContainer targetID);
           case c of
             None \<Rightarrow> do {
               _ \<leftarrow> printf (CRLF @ ''[-] Error: Container %s does not exist.'' @ CRLF) [ArgS targetID];
               RefreshPrompt
             }
           | Some a \<Rightarrow> do {
               c \<leftarrow> readContainer a;
               if CState c = ContainerExited \<or> CState c = ContainerStopped then do {
                 _ \<leftarrow> printf (CRLF @ ''[-] Error: Cannot attach to %s (Status: %v).'' @ CRLF) [ArgS targetID, ArgI (stateCode (CState c))];
                 RefreshPrompt
               }
               else do {
                 hasTarget \<leftarrow> locked MuxMu (attachSection targetID);
                 if hasTarget then do {
                   _ \<leftarrow> sys (UiC (Print clearLine));
                   printf (''[!] Attached to %s. (Ctrl+X to detach)'' @ CRLF) [ArgS targetID]
                 }
                 else do {
                   _ \<leftarrow> printf (CRLF @ ''[-] Error: Container %s is alive but PTY is missing.'' @ CRLF) [ArgS targetID];
                   RefreshPrompt
                 }
               }
             }
         })"

section \<open>Commands in containers\<close>

text \<open>\<open>CombinedOutput\<close> with its error dropped: an error without output reads as none.\<close>

definition outputLines :: "string \<Rightarrow> string list" where
  "outputLines out =
     filter (\<lambda>l. l \<noteq> []) (map (\<lambda>l. TrimSpace (RemoveByte l (CHR 0x0D))) (Split out (CHR 0x0A)))"

definition execOne :: "string \<Rightarrow> Target \<Rightarrow> string \<Rightarrow> ('z os_scheme, unit) state" where
  "execOne targetID t cmd = do {
     out \<leftarrow> sys_str (PrC (Command ''nsenter''
       [''-t'', Itoa (TPID t), ''-m'', ''-u'', ''-i'', ''-n'', ''-p'', ''sh'', ''-c'', cmd]));
     DrawBox (''EXEC: '' @ targetID @ '' (PID: '' @ Itoa (TPID t) @ '')'')
       (outputLines (case out of Inl _ \<Rightarrow> [] | Inr out \<Rightarrow> out))
   }"

text \<open>The targets a command names: all, all but one, or one.\<close>

definition execTargets :: "string \<Rightarrow> (string, Target) gomap \<Rightarrow> (string, Target) gomap option" where
  "execTargets targetID ts =
     (if targetID = ''*'' then Some ts
      else if HasPrefix targetID ''!'' then
        Some (filter (\<lambda>(cid, _). cid \<noteq> ''bctor-'' @ TrimPrefix targetID ''!'') ts)
      else map_option (\<lambda>t. [(fullID targetID, t)]) (map_get ts (fullID targetID)))"

text \<open>
  The checks under the supervisor's mutex; a container whose workload is gone is marked as
  exited. The result is whether to run the command, and whether to complain that it is not running.
\<close>

datatype exec_check = RunIt | NotRunning | Dead

definition execSection :: "string \<Rightarrow> ('z app_scheme, exec_check) state" where
  "execSection cid = do {
     s \<leftarrow> State_Monad.get;
     case map_get (containers s) cid of
       None \<Rightarrow> return NotRunning
     | Some a \<Rightarrow>
         (if CState (heap s a) = ContainerExited then return NotRunning
          else if WorkloadPID (heap s a) \<le> 0 then do {
            _ \<leftarrow> writeContainer a (\<lambda>c. c\<lparr>CState := ContainerExited\<rparr>);
            return Dead
          }
          else do {
            up \<leftarrow> alive (WorkloadPID (heap s a));
            if up then return RunIt
            else do {
              _ \<leftarrow> writeContainer a (\<lambda>c. c\<lparr>CState := ContainerExited\<rparr>);
              return Dead
            }
          })
   }"

definition d_exec :: "string \<Rightarrow> ('z app_scheme, unit) state" where
  "d_exec input =
     (let parts = SplitN (drop 1 input) (CHR '' '') 2
      in if length parts \<noteq> 2 then printf (CRLF @ ''[-] Usage: :<id> <command>'' @ CRLF) []
         else do {
           let targetID = parts ! 0;
           let cmd = TrimSpace (parts ! 1);
           _ \<leftarrow> sys (UiC (Lock MuxMu));
           s \<leftarrow> State_Monad.get;
           case execTargets targetID (targets s) of
             None \<Rightarrow> do {
               _ \<leftarrow> printf (CRLF @ ''[-] Unknown container: %s'' @ CRLF) [ArgS (fullID targetID)];
               sys (UiC (Unlock MuxMu))
             }
           | Some pending \<Rightarrow> do {
               _ \<leftarrow> sys (UiC (Unlock MuxMu));
               _ \<leftarrow> for_each pending (\<lambda>(cid, t). do {
                 r \<leftarrow> locked ScxMu (execSection cid);
                 case r of
                   RunIt \<Rightarrow> execOne cid t cmd
                 | Dead \<Rightarrow> return ()
                 | NotRunning \<Rightarrow>
                     (if length pending = 1 then printf (CRLF @ ''[-] Cannot exec: %s is not running.'' @ CRLF) [ArgS cid]
                      else return ())
               });
               RefreshPrompt
             }
         })"

section \<open>Leaving\<close>

definition killForExit :: "Container \<Rightarrow> ('z os_scheme, unit) state" where
  "killForExit c =
     (if WorkloadPID c > 0 then sys (PrC (Kill (WorkloadPID c) SIGKILL))
      else if InitPID c > 0 then sys (PrC (Kill (InitPID c) SIGKILL))
      else return ())"

definition d_exit :: "('z app_scheme, unit outcome) state" where
  "d_exit = do {
     _ \<leftarrow> LogInfo ''Supervisor shutting down. Cleaning up global network...'' [];
     _ \<leftarrow> sys (UiC (Lock ScxMu));
     s \<leftarrow> State_Monad.get;
     _ \<leftarrow> for_each (containers s) (\<lambda>(cid, a). do {
       _ \<leftarrow> killForExit (heap s a);
       deleteContainer cid
     });
     _ \<leftarrow> sys (UiC (Unlock ScxMu));
     _ \<leftarrow> RemoveNATRule ''10.0.0.0/24'' (iface s);
     _ \<leftarrow> DeleteBridge ''bctor0'';
     _ \<leftarrow> LogSuccess ''Global cleanup complete. Goodbye!'' [];
     return (Exit 0)
   }"

section \<open>Dispatch\<close>

datatype command = CmdNone | CmdList | CmdExec | CmdAttach | CmdNew | CmdRun | CmdKill | CmdForward
  | CmdClear | CmdExit | CmdHelp | CmdUnknown

text \<open>The cases of the \<open>switch\<close>, tried in order on the trimmed input.\<close>

definition classify :: "string \<Rightarrow> command" where
  "classify input =
     (if input = [] then CmdNone
      else if input = ''list'' \<or> input = ''ls'' \<or> input = ''l'' \<or> HasPrefix input ''list '' \<or>
        HasPrefix input ''ls '' \<or> HasPrefix input ''l '' then CmdList
      else if HasPrefix input '':'' then CmdExec
      else if HasPrefix input ''attach '' \<or> HasPrefix input ''a '' then CmdAttach
      else if input = ''new'' \<or> input = ''n'' \<or> HasPrefix input ''new '' \<or> HasPrefix input ''n '' then CmdNew
      else if HasPrefix input ''run '' \<or> HasPrefix input ''r '' then CmdRun
      else if HasPrefix input ''kill '' \<or> HasPrefix input ''k '' then CmdKill
      else if HasPrefix input ''forward '' \<or> HasPrefix input ''f '' then CmdForward
      else if input = ''clear'' \<or> input = ''cls'' \<or> input = ''c'' then CmdClear
      else if input = ''exit'' \<or> input = ''bye'' then CmdExit
      else if input = ''help'' \<or> input = ''h'' then CmdHelp
      else CmdUnknown)"

text \<open>A command that always comes back.\<close>

definition ret :: "('s, unit) state \<Rightarrow> ('s, unit outcome) state" where
  "ret m = do { _ \<leftarrow> m; return (Ret ()) }"

definition Dispatch :: "string \<Rightarrow> ('z app_scheme, unit outcome) state" where
  "Dispatch line =
     (let input = TrimSpace line
      in case classify input of
           CmdNone \<Rightarrow> return (Ret ())
         | CmdList \<Rightarrow> ret (d_list input)
         | CmdExec \<Rightarrow> ret (d_exec input)
         | CmdAttach \<Rightarrow> ret (d_attach input)
         | CmdNew \<Rightarrow> d_new input
         | CmdRun \<Rightarrow> d_run input
         | CmdKill \<Rightarrow> ret (d_kill input)
         | CmdForward \<Rightarrow> ret (d_forward input)
         | CmdClear \<Rightarrow> ret d_clear
         | CmdExit \<Rightarrow> d_exit
         | CmdHelp \<Rightarrow> ret d_help
         | CmdUnknown \<Rightarrow> ret (do {
             _ \<leftarrow> printf (CRLF @ ''[-] Unknown command: %s'' @ CRLF) [ArgS input];
             RefreshPrompt
           }))"

section \<open>The multiplexer\<close>

definition GetActiveID :: "('z app_scheme, string) state" where
  "GetActiveID = do {
     _ \<leftarrow> sys (UiC (Lock MuxMu));
     deferring (sys (UiC (Unlock MuxMu))) (do { s \<leftarrow> State_Monad.get; return (activeID s) })
   }"

text \<open>Carriage returns become line feeds on their way to a container.\<close>

definition normalize :: "string \<Rightarrow> string" where
  "normalize data = map (\<lambda>b. if b = CHR 0x0D then CHR 0x0A else b) data"

definition muxWrite :: "string \<Rightarrow> string \<Rightarrow> ('z app_scheme, unit) state" where
  "muxWrite cid data = do {
     t \<leftarrow> locked MuxMu (do { s \<leftarrow> State_Monad.get; return (map_get (targets s) cid) });
     case Option.bind t PTY of
       None \<Rightarrow> return ()
     | Some pty \<Rightarrow> do {
         let normalized = normalize data;
         n \<leftarrow> sys_int (FdC (Write pty normalized));
         case n of
           Inl e \<Rightarrow> printf (CRLF @ ''[!] Write Error [%s]: %v'' @ CRLF) [ArgS cid, ArgE e]
         | Inr n \<Rightarrow>
             (if n \<noteq> int (length normalized)
              then printf (CRLF @ ''[!] Partial Write [%s]: wrote=%d expected=%d'' @ CRLF)
                [ArgS cid, ArgI n, ArgI (int (length normalized))]
              else return ())
       }
   }"

text \<open>The goroutine that copies a terminal's output while it is the active one, for \<open>n\<close> reads.\<close>

fun pipeLoop :: "nat \<Rightarrow> string \<Rightarrow> int \<Rightarrow> ('z app_scheme, bool) state" where
  "pipeLoop 0 cid pty = return False"
| "pipeLoop (Suc n) cid pty = do {
     r \<leftarrow> sys_str (FdC (Read pty));
     case r of
       Inl _ \<Rightarrow> return True
     | Inr buf \<Rightarrow> do {
         act \<leftarrow> locked MuxMu (do { s \<leftarrow> State_Monad.get; return (activeID s = cid) });
         _ \<leftarrow> (if act then sys (UiC (Print buf)) else return ());
         pipeLoop n cid pty
       }
   }"

definition pipeOutput :: "nat \<Rightarrow> string \<Rightarrow> ('z app_scheme, bool) state" where
  "pipeOutput n cid = do {
     t \<leftarrow> locked MuxMu (do { s \<leftarrow> State_Monad.get; return (map_get (targets s) cid) });
     case Option.bind t PTY of None \<Rightarrow> return True | Some pty \<Rightarrow> pipeLoop n cid pty
   }"

definition setLineBuf :: "string \<Rightarrow> ('z app_scheme, unit) state" where
  "setLineBuf b = State_Monad.update (\<lambda>s. s\<lparr>lineBuf := b\<rparr>)"

text \<open>The end of a line: the command is run, and what follows in the chunk is dropped.\<close>

definition enterLine :: "('z app_scheme, unit outcome) state" where
  "enterLine = do {
     s \<leftarrow> State_Monad.get;
     let line = TrimSpace (lineBuf s);
     _ \<leftarrow> setLineBuf [];
     _ \<leftarrow> sys (UiC (Print CRLF));
     obind (if line \<noteq> [] then Dispatch line else return (Ret ())) (\<lambda>_. do {
       act \<leftarrow> locked MuxMu (do { s \<leftarrow> State_Monad.get; return (activeID s) });
       if act = [] then ret RefreshPrompt else ret (muxWrite act CR)
     })
   }"

fun handleSupervisorInput :: "string \<Rightarrow> ('z app_scheme, unit outcome) state" where
  "handleSupervisorInput [] = return (Ret ())"
| "handleSupervisorInput (b # bs) =
     (if b = CHR 0x03 then do {
        _ \<leftarrow> sys (UiC (Print (''^C'' @ CRLF)));
        handleSupervisorInput bs
      }
      else if b = CHR 0x0D \<or> b = CHR 0x0A then enterLine
      else if b = CHR 0x7F \<or> b = CHR 0x08 then do {
        s \<leftarrow> State_Monad.get;
        _ \<leftarrow> (if lineBuf s \<noteq> [] then do {
            _ \<leftarrow> setLineBuf (butlast (lineBuf s));
            sys (UiC (Print [CHR 0x08, CHR '' '', CHR 0x08]))
          } else return ());
        handleSupervisorInput bs
      }
      else do {
        s \<leftarrow> State_Monad.get;
        _ \<leftarrow> setLineBuf (lineBuf s @ [b]);
        _ \<leftarrow> printf ''%c'' [ArgI (of_char b)];
        handleSupervisorInput bs
      })"

definition detach :: "('z app_scheme, unit) state" where
  "detach = do {
     _ \<leftarrow> locked MuxMu (State_Monad.update (\<lambda>s. s\<lparr>activeID := []\<rparr>));
     _ \<leftarrow> printf (clearLine @ CRLF @ ''[!] Detached. Back to Supervisor.'' @ CRLF) [];
     RefreshPrompt
   }"

text \<open>One chunk of input: to the attached container, or to the line editor; Ctrl+X alone detaches.\<close>

definition handleInput :: "string \<Rightarrow> ('z app_scheme, unit outcome) state" where
  "handleInput buf = do {
     act \<leftarrow> locked MuxMu (do { s \<leftarrow> State_Monad.get; return (activeID s) });
     if act \<noteq> [] then ret (if buf = [CHR 0x18] then detach else muxWrite act buf)
     else handleSupervisorInput buf
   }"

text \<open>
  \<open>RunLoop\<close>, for at most \<open>n\<close> reads of the standard input; the terminal's mode is restored when
  reading fails. The result says whether the loop ended.
\<close>

fun inputLoop :: "nat \<Rightarrow> ('z app_scheme, bool outcome) state" where
  "inputLoop 0 = return (Ret False)"
| "inputLoop (Suc n) = do {
     r \<leftarrow> sys_str (FdC (Read 0));
     case r of
       Inl _ \<Rightarrow> return (Ret True)
     | Inr buf \<Rightarrow> obind (handleInput buf) (\<lambda>_. inputLoop n)
   }"

definition RunLoop :: "nat \<Rightarrow> ('z app_scheme, bool outcome) state" where
  "RunLoop n = do {
     e \<leftarrow> sys_err (FdC (MakeRaw 0));
     case e of
       Some e \<Rightarrow> do { _ \<leftarrow> printf (''Error setting raw mode:'' @ LF) [ArgE e]; return (Ret True) }
     | None \<Rightarrow> obind (inputLoop n) (\<lambda>ended. do {
         _ \<leftarrow> (if ended then sys (FdC (Restore 0)) else return ());
         return (Ret ended)
       })
   }"

section \<open>Setting up\<close>

text \<open>\<open>Setup\<close> and \<open>main\<close>: the supervisor's start; the goroutines it starts are named.\<close>

definition emptyApp :: "'z app_scheme \<Rightarrow> 'z app_scheme" where
  "emptyApp s = s\<lparr>Handles := [], sessions := NewPortForwarder, containers := [], targets := [],
     activeID := [], lineBuf := []\<rparr>"

definition Setup :: "('z app_scheme, err option outcome) state" where
  "Setup = do {
     _ \<leftarrow> State_Monad.update emptyApp;
     _ \<leftarrow> sys (UiC (Spawn ''StartReaper'' []));
     _ \<leftarrow> sys (UiC (Spawn ''StartSignalHandler'' []));
     _ \<leftarrow> sys (UiC (Spawn ''RunLoop'' []));
     _ \<leftarrow> sys (UiC (Spawn ''StartGlobalLogger'' []));
     _ \<leftarrow> EnableIPForwarding;
     r \<leftarrow> DefaultRouteInterface;
     let ifc = (case r of Inl _ \<Rightarrow> [] | Inr i \<Rightarrow> i);
     _ \<leftarrow> State_Monad.update (\<lambda>s. s\<lparr>iface := ifc\<rparr>);
     _ \<leftarrow> AddNATRule ''10.0.0.0/24'' ifc;
     e \<leftarrow> EnsureBridge ''bctor0'' ''10.0.0.1/24'';
     case e of
       Some e \<Rightarrow> return (Ret (Some e))
     | None \<Rightarrow>
         (case NewIPAlloc ''10.0.0.0/24'' of
            Inl _ \<Rightarrow> return (Panic ''nil pointer dereference'')
          | Inr alloc \<Rightarrow> do {
              _ \<leftarrow> State_Monad.update (\<lambda>s. s\<lparr>IPAlloc := alloc, Subnet := Some (AllocSubnet alloc)\<rparr>);
              pid \<leftarrow> sys_int (PrC Getpid);
              ns \<leftarrow> ReadNamespaces (case pid of Inl _ \<Rightarrow> 0 | Inr n \<Rightarrow> n);
              _ \<leftarrow> State_Monad.update (\<lambda>s. s\<lparr>ParentNS := Some ns\<rparr>);
              _ \<leftarrow> sys (UiC WgAdd);
              _ \<leftarrow> sys (UiC (Spawn ''OnContainerExit'' []));
              return (Ret None)
            })
   }"

definition main :: "('z app_scheme, unit outcome) state" where
  "main = obind Setup (\<lambda>e.
     case e of
       Some e \<Rightarrow> do { _ \<leftarrow> LogError ''setup failed: %v'' [ArgE e]; return (Ret ()) }
     | None \<Rightarrow> do {
         _ \<leftarrow> sys (UiC WgWait);
         _ \<leftarrow> sys (UiC (ChanClose ''LogChan''));
         _ \<leftarrow> sys (UiC (ChanRecv ''LoggerDone''));
         return (Ret ())
       })"

end
