(* ===== verification/Quiet.thy ===== *)
theory Quiet
  imports Console
begin

text \<open>
  Computations that neither take a mutex nor touch a table: all of the init's code, and the parts
  of the supervisor that only deal with the kernel. \<open>quiet\<close> follows the structure of the code, one
  rule per construct; a quiet computation is a single step of the supervisor and may run under
  any mutex.
\<close>

section \<open>Rules\<close>

definition lockless :: "call list \<Rightarrow> bool" where
  "lockless cs \<longleftrightarrow> (\<forall>c \<in> set cs. \<not> is_lock c)"

definition quiet :: "('z os_scheme, 'a) state \<Rightarrow> bool" where
  "quiet m \<longleftrightarrow> yields m (\<lambda>_ cs. lockless cs)"

named_theorems quiet_rules \<open>computations without locks and changes of tables\<close>

lemma lockless_simps [simp]:
  "lockless []" "lockless (c # cs) \<longleftrightarrow> \<not> is_lock c \<and> lockless cs" "lockless (cs @ ds) \<longleftrightarrow> lockless cs \<and> lockless ds"
  by (auto simp: lockless_def)

lemma quiet_return [quiet_rules]: "quiet (return x)"
  by (simp add: quiet_def yield_rules)

lemma quiet_prims [quiet_rules]:
  assumes "\<not> is_lock c"
  shows "quiet (sys_err c)" "quiet (sys_int c)" "quiet (sys_str c)" "quiet (sys_dir c)" "quiet (sys_pair c)"
    "quiet (sys_msg c)" "quiet (sys_caps c)" "quiet (sys_routes c)" "quiet (sys c)"
  unfolding quiet_def by (rule yield_rules, simp add: assms)+

lemma quiet_Log [quiet_rules]:
  "quiet (LogError fmt args)" "quiet (LogInfo fmt args)" "quiet (LogWarn fmt args)" "quiet (LogSuccess fmt args)"
  "quiet (WaitFd fd)" "quiet (FreeFd fd)"
  unfolding quiet_def by (rule yield_rules, simp)+

lemma quiet_bind [quiet_rules]: "quiet m \<Longrightarrow> (\<And>x. quiet (f x)) \<Longrightarrow> quiet (m \<bind> f)"
  unfolding quiet_def by (rule yields_bind_rule, assumption, rule yields_mono) auto

lemma quiet_obind [quiet_rules]: "quiet m \<Longrightarrow> (\<And>x. quiet (f x)) \<Longrightarrow> quiet (obind m f)"
  unfolding quiet_def by (rule yields_obind_rule, assumption, rule yields_mono) auto

lemma quiet_split [quiet_rules]:
  "(b \<Longrightarrow> quiet m) \<Longrightarrow> (\<not> b \<Longrightarrow> quiet n) \<Longrightarrow> quiet (if b then m else n)"
  "quiet m \<Longrightarrow> (\<And>x. quiet (f x)) \<Longrightarrow> quiet (case v of None \<Rightarrow> m | Some x \<Rightarrow> f x)"
  "(\<And>e. quiet (k e)) \<Longrightarrow> (\<And>x. quiet (g x)) \<Longrightarrow> quiet (case r of Inl e \<Rightarrow> k e | Inr x \<Rightarrow> g x)"
  "(\<And>x y. quiet (l x y)) \<Longrightarrow> quiet (case p of (x, y) \<Rightarrow> l x y)"
  "quiet m \<Longrightarrow> (\<And>x xs. quiet (q x xs)) \<Longrightarrow> quiet (case ls of [] \<Rightarrow> m | x # xs \<Rightarrow> q x xs)"
  "(\<And>x. quiet (f x)) \<Longrightarrow> quiet (let x = w in f x)"
  "\<lbrakk> \<And>x. quiet (f x); \<And>n. quiet (ge n); \<And>p. quiet (h p); quiet m \<rbrakk> \<Longrightarrow>
     quiet (case r' of Ret x \<Rightarrow> f x | Exit n \<Rightarrow> ge n | Panic p \<Rightarrow> h p | Replaced \<Rightarrow> m)"
  by (simp_all add: Let_def split: option.split sum.split prod.split list.split outcome.split)

lemma quiet_deferring [quiet_rules]: "quiet d \<Longrightarrow> quiet m \<Longrightarrow> quiet (deferring d m)"
  unfolding deferring_def by (intro quiet_rules)

lemma quiet_loops [quiet_rules]:
  "(\<And>x. quiet (f x)) \<Longrightarrow> quiet (for_each xs f)"
  "(\<And>x. quiet (g x)) \<Longrightarrow> quiet (for_each_err xs g)"
  "(\<And>x. quiet (h x)) \<Longrightarrow> quiet (for_each_out xs h)"
  by (induction xs) (auto intro!: quiet_rules)

lemma quiet_appends: "quiet m \<Longrightarrow> appends m"
  unfolding quiet_def by (rule yields_appends)

lemma held_lockless: "lockless cs \<Longrightarrow> held h cs = Some h"
  by (induction cs) (simp_all add: held_skip)

lemma locks_quiet: "quiet m \<Longrightarrow> locks h m h"
  unfolding quiet_def yields_def locks_def by (metis with_calls_simps(1) held_lockless)

lemma olocks_quiet: "quiet m \<Longrightarrow> olocks h m h"
  by (rule olocks_of_locks, rule locks_quiet)

section \<open>The init's code\<close>

lemma quiet_types [quiet_rules]:
  "quiet NewIPC" "quiet NewFork" "quiet (nsTypeToCloneFlag t)" "quiet (nsTypeToProcPath t)"
  subgoal unfolding NewIPC_def by (rule quiet_rules | simp)+
  subgoal unfolding NewFork_def by (rule quiet_rules | simp)+
  subgoal by (cases t; simp add: quiet_rules)
  subgoal by (cases t; simp add: quiet_rules)
  done

lemma quiet_collect: "quiet (collect_loop spec nss fds)"
  by (induction nss arbitrary: fds) (auto intro!: quiet_rules)

lemma quiet_fds [quiet_rules]:
  "quiet (SendCreatedNamespaceFDs ipc m)" "quiet (RecvCreatedNamespaceFDs ipc)" "quiet (RecvNamespaceFDs ipc)"
  "quiet (SendWorkloadPID ipc n)" "quiet (RecvWorkloadPID ipc)" "quiet (CollectCreatedNamespaceFDs spec)"
  unfolding SendCreatedNamespaceFDs_def RecvCreatedNamespaceFDs_def RecvNamespaceFDs_def SendWorkloadPID_def
    RecvWorkloadPID_def CollectCreatedNamespaceFDs_def
  by (rule quiet_rules quiet_collect | simp)+

lemma quiet_caps1 [quiet_rules]:
  "quiet (DropCapability c)" "quiet ClearAmbient" "quiet (DropAllExcept cs)" "quiet (SetCapabilities cs)"
  "quiet (RaiseAmbient c)" "quiet (capSet f)"
  unfolding DropCapability_def ClearAmbient_def DropAllExcept_def SetCapabilities_def RaiseAmbient_def capSet_def
  by (rule quiet_rules | simp)+

lemma quiet_caps2 [quiet_rules]:
  "quiet (AddPermitted c)" "quiet (AddEffective c)" "quiet (AddInheritable c)" "quiet (PrepareForAmbient c)"
  "quiet (EnableAmbient c)" "quiet (SetupCapabilities cfg)"
  unfolding AddPermitted_def AddEffective_def AddInheritable_def PrepareForAmbient_def EnableAmbient_def
    SetupCapabilities_def
  by (rule quiet_rules | simp)+

lemma quiet_fs1 [quiet_rules]:
  "quiet (denySetgroups p)" "quiet (writeUIDMap p)" "quiet (writeGIDMap p)" "quiet (fail_with fmt e)"
  "quiet (installBusybox p)" "quiet (bindDevice p d)" "quiet (mountWritable p)"
  unfolding denySetgroups_def writeUIDMap_def writeGIDMap_def fail_with_def installBusybox_def bindDevice_def
    mountWritable_def
  by (rule quiet_rules | simp)+

lemma quiet_fs2 [quiet_rules]: "quiet (PrepareRoot cfg)" "quiet (PivotRoot p)" "quiet (MountVirtualFS cfg)"
  unfolding PrepareRoot_def PivotRoot_def MountVirtualFS_def by (rule quiet_rules | simp)+

lemma quiet_host [quiet_rules]:
  "quiet getHostMemoryLimit" "quiet getHostCPUQuota" "quiet getHostPIDLimit" "quiet (ioStat p)" "quiet (parseIOMax p)"
  "quiet (hostValue p f d)"
  unfolding getHostMemoryLimit_def getHostCPUQuota_def getHostPIDLimit_def ioStat_def parseIOMax_def hostValue_def
  by (rule quiet_rules | simp)+

lemma quiet_snapshot: "quiet (snapshot_loop p fs m)"
  by (induction fs arbitrary: m) (auto intro!: quiet_rules)

lemma quiet_cgroups [quiet_rules]: "quiet (SetupCgroups cg cfg)"
  unfolding SetupCgroups_def CheckCgroupV2_def EnableControllers_def SnapshotCgroup_def DiffCgroup_def fatal_def
    ApplyCgroups_def writeLimit_def
  by (rule quiet_rules quiet_snapshot | simp)+

lemma quiet_joinShared: "quiet (joinShared fds)"
  by (induction fds rule: joinShared.induct) (auto intro!: quiet_rules)

lemma quiet_unshareFlags: "quiet (unshareFlags spec shared nss flags)"
  by (induction nss arbitrary: flags) (auto intro!: quiet_rules)

lemma quiet_ApplyNamespaces [quiet_rules]: "quiet (ApplyNamespaces spec ipc)"
  unfolding ApplyNamespaces_def enterNamespaces_def enterUserNS_def flagsChecks_def
  by (rule quiet_rules quiet_joinShared quiet_unshareFlags | simp)+

lemma quiet_io_modes [quiet_rules]: "quiet (setupBatchIO ipc)" "quiet (setupInteractiveIO ipc)"
  unfolding setupBatchIO_def setupInteractiveIO_def by (rule quiet_rules | simp)+

lemma quiet_io [quiet_rules]: "quiet (setupIO spec ipc)"
  by (simp add: setupIO_def quiet_rules split: ExecutionMode.split)

lemma quiet_workload [quiet_rules]:
  "quiet (setupRoot spec)" "quiet (runWorkload spec)" "quiet (initWorkloadHandling spec pid ipc)"
  "quiet (quit_with fmt)"
  unfolding setupRoot_def runWorkload_def initWorkloadHandling_def quit_with_def
  by (rule quiet_rules | simp)+

lemma quiet_spawn [quiet_rules]: "quiet (SetupRootAndSpawnWorkload spec pid ipc)"
  unfolding SetupRootAndSpawnWorkload_def by (rule quiet_rules | simp)+

lemma quiet_RunContainerInit [quiet_rules]: "quiet (RunContainerInit spec ipc)"
  unfolding RunContainerInit_def by (rule quiet_rules | simp)+

section \<open>The supervisor's calls to the kernel\<close>

lemma quiet_default_route: "quiet (default_route rs)"
  by (induction rs rule: default_route.induct) (auto intro!: quiet_rules)

lemma quiet_find_link: "quiet (find_link k name e)"
  by (induction k arbitrary: e) (auto intro!: quiet_rules)

lemma quiet_readNs: "quiet (readNs pid nss ids)"
  by (induction nss arbitrary: ids) (auto intro!: quiet_rules)

lemma quiet_net [quiet_rules]:
  "quiet (EnsureBridge b c)" "quiet EnableIPForwarding" "quiet DefaultRouteInterface" "quiet (AddNATRule n i)"
  "quiet (RemoveNATRule n i)" "quiet (DeleteBridge b)" "quiet (or_del v fmt e)" "quiet (randomSuffix k)"
  unfolding EnsureBridge_def EnableIPForwarding_def DefaultRouteInterface_def AddNATRule_def RemoveNATRule_def
    DeleteBridge_def or_del_def randomSuffix_def nat_rule_def
  by (rule quiet_rules quiet_default_route | simp)+

lemma quiet_veth [quiet_rules]:
  "quiet (SetupContainerVeth b fd ip)" "quiet (ConfigureContainerInterface fd peer ip gw net)" "quiet (PortForward p h c stop)"
  unfolding SetupContainerVeth_def ConfigureContainerInterface_def PortForward_def
  by (rule quiet_rules quiet_find_link | simp)+

lemma quiet_sup [quiet_rules]:
  "quiet (SetupUserNSAndContinue pid ipc)" "quiet (spawnCapture spec ipc)" "quiet newIPC" "quiet (printf fmt args)"
  "quiet (alive pid)" "quiet (DrawBox title ls)" "quiet (nilInit spec)" "quiet (ReadNamespaces pid)"
  "quiet (killForExit c)"
  unfolding SetupUserNSAndContinue_def spawnCapture_def newIPC_def printf_def alive_def DrawBox_def nilInit_def
    ReadNamespaces_def killForExit_def
  by (rule quiet_rules quiet_readNs | simp)+

lemma quiet_countPods: "quiet (countPods ts counts living)"
  by (induction ts counts living rule: countPods.induct) (auto intro!: quiet_rules split: option.split)

lemma quiet_targetLines: "quiet (targetLines pod ids ts)"
  by (induction pod ids ts rule: targetLines.induct) (auto intro!: quiet_rules split: option.split)

lemma quiet_commands [quiet_rules]:
  "quiet d_help" "quiet d_clear" "quiet (execOne cid t cmd)" "quiet (runBox line)" "quiet (listPod pod ts)"
  "quiet (countPods ts counts living)"
  unfolding d_help_def d_clear_def execOne_def runBox_def listPod_def
  by (rule quiet_rules quiet_countPods quiet_targetLines | simp)+

end
