(* ===== verification/Steps.thy ===== *)
theory Steps
  imports Quiet
begin

text \<open>
  The supervisor as a system of goroutines that share its tables. \<open>sup_step\<close> says what one of them
  may do at once: anything that leaves the tables alone, a change of an object or of a table of its
  own, or, as one step, a critical section: a stretch of calls that begins by locking the supervisor's
  mutex and ends by unlocking it, with no other use of that mutex in between. The table of containers is
  changed by such stretches only. The rules are about the states and the calls, not about the
  code: that every goroutine is a sequence of these steps is what is proved of the code, and its runs
  include every interleaving. The invariant of the tables is kept by every step.
\<close>

section \<open>The invariant\<close>

text \<open>
  The containers' table is a map into the objects allocated, and an object with a specification is
  entered under its id. Resources are recorded for a pod that still has a container only, unless
  \<open>exit\<close> has begun to empty the table: it leaves the record of the resources as it is.
\<close>

definition sup_inv :: "'z app_scheme \<Rightarrow> bool" where
  "sup_inv s \<longleftrightarrow> gomap_ok (containers s) \<and> gomap_ok (podNet s) \<and>
     (\<forall>a. hnext s \<le> a \<longrightarrow> CSpec (heap s a) = None) \<and>
     (\<forall>a. CSpec (heap s a) = None \<longrightarrow> InitPID (heap s a) = 0 \<and> WorkloadPID (heap s a) = 0) \<and>
     (\<forall>(cid, a) \<in> set (containers s). a < hnext s \<and> (\<forall>spec. CSpec (heap s a) = Some spec \<longrightarrow> ID spec = cid))"

definition shutdown :: call where
  "shutdown = UiC (Log TypeInfo ''Supervisor shutting down. Cleaning up global network...'' [])"

definition exiting :: "'z app_scheme \<Rightarrow> bool" where
  "exiting s \<longleftrightarrow> shutdown \<in> set (trace s)"

definition pods_inv :: "'z app_scheme \<Rightarrow> bool" where
  "pods_inv s \<longleftrightarrow> exiting s \<or> (\<forall>p \<in> fst ` set (podNet s). \<not> isPodEmpty p (containers s))"

lemma sup_invI:
  "\<lbrakk> gomap_ok (containers s); gomap_ok (podNet s); \<And>a. hnext s \<le> a \<Longrightarrow> CSpec (heap s a) = None;
     \<And>a. CSpec (heap s a) = None \<Longrightarrow> InitPID (heap s a) = 0 \<and> WorkloadPID (heap s a) = 0;
     \<And>cid a. (cid, a) \<in> set (containers s) \<Longrightarrow> a < hnext s;
     \<And>cid a spec. (cid, a) \<in> set (containers s) \<Longrightarrow> CSpec (heap s a) = Some spec \<Longrightarrow> ID spec = cid \<rbrakk> \<Longrightarrow> sup_inv s"
  unfolding sup_inv_def by blast

lemma sup_invD:
  assumes "sup_inv s"
  shows "gomap_ok (containers s)" "gomap_ok (podNet s)" "\<And>a. hnext s \<le> a \<Longrightarrow> CSpec (heap s a) = None"
    "\<And>a. CSpec (heap s a) = None \<Longrightarrow> InitPID (heap s a) = 0 \<and> WorkloadPID (heap s a) = 0"
    "\<And>cid a. (cid, a) \<in> set (containers s) \<Longrightarrow> a < hnext s"
    "\<And>cid a spec. (cid, a) \<in> set (containers s) \<Longrightarrow> CSpec (heap s a) = Some spec \<Longrightarrow> ID spec = cid"
  using assms unfolding sup_inv_def by blast+

lemma sup_inv_cong:
  assumes "containers s = containers t" "podNet s = podNet t" "hnext s = hnext t"
    and "\<And>a. similar (heap s a) (heap t a)"
  shows "sup_inv s = sup_inv t"
  using assms by (simp add: sup_inv_def similar_def)

lemma sup_inv_core:
  assumes e: "core s = core t"
  shows "sup_inv s = sup_inv t"
proof -
  note f = core_eqD [OF e]
  show ?thesis by (rule sup_inv_cong) (simp_all add: f)
qed

lemma isPodEmpty_mono:
  "fst ` set m \<subseteq> fst ` set m' \<Longrightarrow> isPodEmpty p m' \<Longrightarrow> isPodEmpty p m"
  unfolding isPodEmpty_iff by (meson fst_eqD image_eqI subsetD imageE)

lemma sup_inv_put:
  assumes i: "sup_inv s" and a: "a < hnext s" and spec: "\<And>spec. CSpec (heap s a) = Some spec \<Longrightarrow> ID spec = cid"
  shows "sup_inv (s\<lparr>containers := map_put cid a (containers s)\<rparr>)"
proof (rule sup_invI)
  note d = sup_invD [OF i]
  have p: "set (map_put cid a (containers s)) = insert (cid, a) {(k, b) \<in> set (containers s). k \<noteq> cid}"
    by (rule set_map_put [OF d(1)])
  show "gomap_ok (containers (s\<lparr>containers := map_put cid a (containers s)\<rparr>))" using d(1) by simp
  show "gomap_ok (podNet (s\<lparr>containers := map_put cid a (containers s)\<rparr>))" using d(2) by simp
  show "CSpec (heap (s\<lparr>containers := map_put cid a (containers s)\<rparr>) b) = None"
    if "hnext (s\<lparr>containers := map_put cid a (containers s)\<rparr>) \<le> b" for b using d(3) that by simp
  show "InitPID (heap (s\<lparr>containers := map_put cid a (containers s)\<rparr>) b) = 0 \<and>
      WorkloadPID (heap (s\<lparr>containers := map_put cid a (containers s)\<rparr>) b) = 0"
    if "CSpec (heap (s\<lparr>containers := map_put cid a (containers s)\<rparr>) b) = None" for b using d(4) that by simp
  fix k b assume kb: "(k, b) \<in> set (containers (s\<lparr>containers := map_put cid a (containers s)\<rparr>))"
  then have kb: "(k, b) = (cid, a) \<or> (k, b) \<in> set (containers s)" using p by auto
  then show "b < hnext (s\<lparr>containers := map_put cid a (containers s)\<rparr>)" using a d(5) by auto
  show "ID sp = k" if "CSpec (heap (s\<lparr>containers := map_put cid a (containers s)\<rparr>) b) = Some sp" for sp
    using kb that spec d(6) by auto
qed

lemma sup_inv_new:
  assumes "sup_inv s" and c: "CSpec c = None \<Longrightarrow> InitPID c = 0 \<and> WorkloadPID c = 0"
  shows "sup_inv (s\<lparr>heap := (heap s)(hnext s := c), hnext := Suc (hnext s)\<rparr>)"
proof (rule sup_invI)
  note d = sup_invD [OF assms(1)]
  let ?t = "s\<lparr>heap := (heap s)(hnext s := c), hnext := Suc (hnext s)\<rparr>"
  show "gomap_ok (containers ?t)" "gomap_ok (podNet ?t)" using d(1,2) by simp_all
  show "CSpec (heap ?t a) = None" if "hnext ?t \<le> a" for a using that d(3) by simp
  show "InitPID (heap ?t a) = 0 \<and> WorkloadPID (heap ?t a) = 0" if "CSpec (heap ?t a) = None" for a
    using that d(4) c by (simp split: if_splits)
  fix k a assume "(k, a) \<in> set (containers ?t)"
  then have "(k, a) \<in> set (containers s)" and "a < hnext s" using d(5) by simp_all
  then show "a < hnext ?t" and "CSpec (heap ?t a) = Some spec \<Longrightarrow> ID spec = k" for spec
    using d(6) by simp_all
qed

lemma podNet_reaped:
  "podNet (reaped c spec h s) = (case podOf (ID spec) of None \<Rightarrow> netAfter c spec (podNet s)
     | Some p \<Rightarrow> if isPodEmpty p (map_del (ID spec) (containers s)) then map_del p (netAfter c spec (podNet s))
         else netAfter c spec (podNet s))"
  by (cases "podOf (ID spec)") (simp_all add: reaped_def Let_def)

lemma netAfter_keys: "fst ` set (netAfter c spec m) \<subseteq> fst ` set m \<union> {p. podOf (ID spec) = Some p}"
  by (auto simp: netAfter_def fst_set_map_put split: option.splits)

lemma sup_inv_reaped:
  assumes i: "sup_inv s" and h: "\<And>b. similar (h b) (heap s b)"
  shows "sup_inv (reaped c spec h s)"
proof -
  note d = sup_invD [OF i]
  let ?t = "reaped c spec h s"
  have cs: "containers ?t = map_del (ID spec) (containers s)" and hn: "hnext ?t = hnext s" and hp: "heap ?t = h"
    by (cases "podOf (ID spec)"; simp add: reaped_def Let_def)+
  have sub: "(k, b) \<in> set (containers s)" if "(k, b) \<in> set (containers ?t)" for k b
    using that set_map_del [OF d(1), of "ID spec"] by (auto simp: cs)
  have "gomap_ok (netAfter c spec (podNet s))" using d(2) by (simp add: netAfter_def split: option.split)
  then have ok: "gomap_ok (podNet ?t)" by (simp add: podNet_reaped split: option.split)
  show ?thesis
  proof (rule sup_invI)
    show "gomap_ok (containers ?t)" using d(1) cs by simp
    show "CSpec (heap ?t a) = None" if "hnext ?t \<le> a" for a using that d(3) h by (simp add: hn hp similar_def)
    show "InitPID (heap ?t a) = 0 \<and> WorkloadPID (heap ?t a) = 0" if "CSpec (heap ?t a) = None" for a
      using that d(4) h [of a] by (simp add: hn hp similar_def)
    fix k a assume "(k, a) \<in> set (containers ?t)"
    then have "(k, a) \<in> set (containers s)" by (rule sub)
    then show "a < hnext ?t" and "CSpec (heap ?t a) = Some sp \<Longrightarrow> ID sp = k" for sp
      using d(5,6) h by (simp_all add: hn hp similar_def)
  qed (rule ok)
qed

lemma reaped_pods:
  assumes "p \<in> fst ` set (podNet (reaped c spec h s))"
  shows "p \<in> fst ` set (podNet s) \<and> podOf (ID spec) \<noteq> Some p \<or>
    podOf (ID spec) = Some p \<and> \<not> isPodEmpty p (containers (reaped c spec h s))"
proof -
  have cs: "containers (reaped c spec h s) = map_del (ID spec) (containers s)"
    by (cases "podOf (ID spec)"; simp add: reaped_def Let_def)
  have "p \<in> fst ` set (netAfter c spec (podNet s))"
    and "podOf (ID spec) = Some p \<Longrightarrow> \<not> isPodEmpty p (map_del (ID spec) (containers s))"
    using assms by (auto simp only: podNet_reaped fst_set_map_del Diff_iff split: option.splits if_splits)
  then show ?thesis using netAfter_keys [of c spec "podNet s"] by (auto simp: cs)
qed

lemma isPodEmpty_del_other: "podOf k \<noteq> Some p \<Longrightarrow> isPodEmpty p (map_del k m) = isPodEmpty p m"
  by (auto simp: isPodEmpty_iff fst_set_map_del)

section \<open>Steps\<close>

text \<open>
  The tables in question; the others (handles, addresses, forwards, terminals) have no part in the
  invariant. A read of the tables is no step: what it found may be out of date by the time it is used,
  and the rules make no use of it.
\<close>

definition tables :: "'z app_scheme \<Rightarrow> (nat \<Rightarrow> Container) \<times> nat \<times> (string, nat) gomap \<times> (string, NetResources) gomap" where
  "tables s = (heap s, hnext s, containers s, podNet s)"

fun writes_table :: "call \<Rightarrow> bool" where
  "writes_table (UiC (TableWrite _)) = True"
| "writes_table _ = False"

fun uses_scx :: "call \<Rightarrow> bool" where
  "uses_scx (UiC (Lock m)) = (m = ScxMu)"
| "uses_scx (UiC (Unlock m)) = (m = ScxMu)"
| "uses_scx _ = False"

definition outside :: "'z app_scheme \<Rightarrow> 'z app_scheme \<Rightarrow> bool" where
  "outside s t \<longleftrightarrow> (\<exists>cs. trace t = trace s @ cs \<and> (\<forall>c \<in> set cs. \<not> writes_table c))"

definition in_section :: "'z app_scheme \<Rightarrow> 'z app_scheme \<Rightarrow> bool" where
  "in_section s t \<longleftrightarrow>
     (\<exists>cs. trace t = trace s @ UiC (Lock ScxMu) # cs @ [UiC (Unlock ScxMu)] \<and> (\<forall>c \<in> set cs. \<not> uses_scx c))"

text \<open>
  \<open>other\<close>: anything without a table. \<open>start\<close>: the goroutine of the exits makes its map of resources.
  \<open>new\<close> and \<open>changed\<close>: an object is allocated, or gets another state or pipe. The sections: a new or
  an old object is entered, the container whose init exited is reaped, and the table is emptied once
  \<open>exit\<close> has begun.
\<close>

inductive sup_step :: "'z app_scheme \<Rightarrow> 'z app_scheme \<Rightarrow> bool" where
  other: "\<lbrakk> outside s t; tables t = tables s \<rbrakk> \<Longrightarrow> sup_step s t"
| start: "\<lbrakk> outside s t; tables t = tables (s\<lparr>podNet := []\<rparr>) \<rbrakk> \<Longrightarrow> sup_step s t"
| new: "\<lbrakk> outside s t; CSpec c = None \<Longrightarrow> InitPID c = 0 \<and> WorkloadPID c = 0;
    tables t = tables (s\<lparr>heap := (heap s)(hnext s := c), hnext := Suc (hnext s)\<rparr>) \<rbrakk> \<Longrightarrow> sup_step s t"
| changed: "\<lbrakk> outside s t; \<And>a. similar (h a) (heap s a); tables t = tables (s\<lparr>heap := h\<rparr>) \<rbrakk> \<Longrightarrow> sup_step s t"
| created: "\<lbrakk> in_section s t; CSpec c = None \<Longrightarrow> InitPID c = 0 \<and> WorkloadPID c = 0;
    \<And>spec. CSpec c = Some spec \<Longrightarrow> ID spec = cid;
    tables t = tables (s\<lparr>heap := (heap s)(hnext s := c), hnext := Suc (hnext s),
      containers := map_put cid (hnext s) (containers s)\<rparr>) \<rbrakk> \<Longrightarrow> sup_step s t"
| entered: "\<lbrakk> in_section s t; CSpec (heap s a) = Some spec;
    tables t = tables (s\<lparr>containers := map_put (ID spec) a (containers s)\<rparr>) \<rbrakk> \<Longrightarrow> sup_step s t"
| exited: "\<lbrakk> in_section s t; findContainerByPID (heap s) (containers s) (InitPID (heap s a)) = Some a;
    CSpec (heap s a) = Some spec; \<And>b. similar (h b) (heap s b);
    tables t = tables (reaped (heap s a) spec h s) \<rbrakk> \<Longrightarrow> sup_step s t"
| emptied: "\<lbrakk> in_section s t; exiting s; tables t = tables (s\<lparr>containers := []\<rparr>) \<rbrakk> \<Longrightarrow> sup_step s t"

inductive reachable :: "'z app_scheme \<Rightarrow> bool" where
  initial: "\<lbrakk> heap s = (\<lambda>_. blankContainer); containers s = []; podNet s = [] \<rbrakk> \<Longrightarrow> reachable s"
| step: "reachable s \<Longrightarrow> sup_step s t \<Longrightarrow> reachable t"

lemma sup_inv_tables: "tables t = tables s \<Longrightarrow> sup_inv t = sup_inv s"
  by (rule sup_inv_cong) (simp_all add: tables_def)

lemma tablesD:
  assumes "tables t = tables s"
  shows "heap t = heap s" "hnext t = hnext s" "containers t = containers s" "podNet t = podNet s"
  using assms by (simp_all add: tables_def)

text \<open>A container allocated and entered under a name.\<close>

lemma sup_inv_enter:
  assumes "sup_inv s" and "CSpec c = None \<Longrightarrow> InitPID c = 0 \<and> WorkloadPID c = 0"
    and "\<And>spec. CSpec c = Some spec \<Longrightarrow> ID spec = name"
  shows "sup_inv (s\<lparr>heap := (heap s)(hnext s := c), hnext := Suc (hnext s),
    containers := map_put name (hnext s) (containers s)\<rparr>)"
  using sup_inv_put [OF sup_inv_new [OF assms(1,2)], of "hnext s" name] assms(3) by simp

text \<open>An event leaves the invariant, found or not.\<close>

lemma sup_inv_handleExit: "sup_inv s \<Longrightarrow> sup_inv (after (handleExit pid) s)"
proof -
  assume i: "sup_inv s"
  show ?thesis
  proof (cases "findContainerByPID (heap s) (containers s) pid")
    case None
    then show ?thesis using i handleExit_unknown [OF None] sup_inv_core by blast
  next
    case (Some a)
    show ?thesis
    proof (cases "CSpec (heap s a)")
      case None
      then have "core (after (handleExit pid) s) = core s" using Some by (simp add: handleExit_def after_def)
      then show ?thesis using i sup_inv_core by blast
    next
      case spec: (Some spec)
      from handleExit_core [OF Some spec] obtain h where sim: "\<And>b. similar (h b) (heap s b)" and
        c: "core (after (handleExit pid) s) =
          core (if pid = InitPID (heap s a) then reaped (heap s a) spec h s else s\<lparr>heap := h\<rparr>)" by blast
      have "sup_inv (s\<lparr>heap := h\<rparr>)" using i sim sup_inv_cong [of "s\<lparr>heap := h\<rparr>" s] by simp
      then have "sup_inv (if pid = InitPID (heap s a) then reaped (heap s a) spec h s else s\<lparr>heap := h\<rparr>)"
        using sup_inv_reaped [OF i sim] by simp
      then show ?thesis using sup_inv_core [OF c] by blast
    qed
  qed
qed

lemma sup_step_inv:
  assumes "sup_step s t" and i: "sup_inv s"
  shows "sup_inv t"
  using assms(1)
proof cases
  case other
  then show ?thesis using i sup_inv_tables [OF other(2)] by simp
next
  case start
  moreover have "sup_inv (s\<lparr>podNet := []\<rparr>)" using i by (simp add: sup_inv_def)
  ultimately show ?thesis using sup_inv_tables [OF start(2)] by simp
next
  case (new c)
  show ?thesis using sup_inv_new [OF i new(2)] sup_inv_tables [OF new(3)] by simp
next
  case (changed h)
  have "sup_inv (s\<lparr>heap := h\<rparr>)" using i changed(2) sup_inv_cong [of "s\<lparr>heap := h\<rparr>" s] by simp
  then show ?thesis using sup_inv_tables [OF changed(3)] by simp
next
  case (created c cid)
  show ?thesis using sup_inv_enter [OF i created(2,3)] sup_inv_tables [OF created(4)] by simp
next
  case (entered a spec)
  have "a < hnext s" using sup_invD(3) [OF i, of a] entered(2) by (cases "a < hnext s") auto
  then have "sup_inv (s\<lparr>containers := map_put (ID spec) a (containers s)\<rparr>)"
    using sup_inv_put [OF i, of a "ID spec"] entered(2) by simp
  then show ?thesis using sup_inv_tables [OF entered(3)] by simp
next
  case (exited a spec h)
  show ?thesis using sup_inv_reaped [OF i exited(4)] sup_inv_tables [OF exited(5)] by simp
next
  case emptied
  have "sup_inv (s\<lparr>containers := []\<rparr>)" using i by (simp add: sup_inv_def)
  then show ?thesis using sup_inv_tables [OF emptied(3)] by simp
qed

lemma step_trace: "sup_step s t \<Longrightarrow> \<exists>cs. trace t = trace s @ cs"
  by (cases rule: sup_step.cases, assumption) (auto simp: outside_def in_section_def)

lemma exiting_step: "sup_step s t \<Longrightarrow> exiting s \<Longrightarrow> exiting t"
  using step_trace by (fastforce simp: exiting_def)

lemma pods_inv_step:
  assumes st: "sup_step s t" and p: "pods_inv s"
  shows "pods_inv t"
proof (cases "exiting s")
  case True
  then show ?thesis using exiting_step [OF st] by (simp add: pods_inv_def)
next
  case False
  with p have ne: "\<not> isPodEmpty q (containers s)" if "q \<in> fst ` set (podNet s)" for q
    using that unfolding pods_inv_def by blast
  have mono: "\<not> isPodEmpty q (map_put k b (containers s))" if "q \<in> fst ` set (podNet s)" for q k b
    using ne [OF that] isPodEmpty_mono [of "containers s" "map_put k b (containers s)" q]
    by (auto simp: fst_set_map_put)
  have "\<not> isPodEmpty q (containers t)" if q: "q \<in> fst ` set (podNet t)" for q
    using st
  proof cases
    case (created c cid)
    then show ?thesis using q mono tablesD(3,4) [OF created(4)] by simp
  next
    case (entered a spec)
    then show ?thesis using q mono tablesD(3,4) [OF entered(3)] by simp
  next
    case (exited a spec h)
    have c: "containers t = containers (reaped (heap s a) spec h s)" and n: "podNet t = podNet (reaped (heap s a) spec h s)"
      using tablesD(3,4) [OF exited(5)] by simp_all
    have cs: "containers (reaped (heap s a) spec h s) = map_del (ID spec) (containers s)"
      by (cases "podOf (ID spec)"; simp add: reaped_def Let_def)
    from reaped_pods q n have "q \<in> fst ` set (podNet s) \<and> podOf (ID spec) \<noteq> Some q \<or>
        \<not> isPodEmpty q (containers (reaped (heap s a) spec h s))" by metis
    then show ?thesis using ne isPodEmpty_del_other [of "ID spec" q "containers s"] by (auto simp: c cs)
  qed (use q ne False tablesD(3,4) in \<open>auto simp: tables_def\<close>)
  then show ?thesis by (simp add: pods_inv_def)
qed

lemma reachable_inv: "reachable s \<Longrightarrow> sup_inv s"
proof (induction rule: reachable.induct)
  case (initial s)
  then show ?case by (simp add: sup_inv_def blankContainer_def)
qed (rule sup_step_inv)

lemma reachable_steps: "sup_step\<^sup>*\<^sup>* s t \<Longrightarrow> reachable s \<Longrightarrow> reachable t"
  by (induction rule: rtranclp_induct) (auto intro: reachable.step)

lemma reachable_pods: "reachable s \<Longrightarrow> pods_inv s"
proof (induction rule: reachable.induct)
  case (initial s)
  then show ?case by (simp add: pods_inv_def)
qed (rule pods_inv_step)

section \<open>The calls a computation makes\<close>

text \<open>\<open>emits P m\<close>: all calls of \<open>m\<close> have the property \<open>P\<close>.\<close>

definition emits :: "(call \<Rightarrow> bool) \<Rightarrow> ('z os_scheme, 'a) state \<Rightarrow> bool" where
  "emits P m \<longleftrightarrow> (\<forall>s. \<exists>cs. trace (after m s) = trace s @ cs \<and> (\<forall>c \<in> set cs. P c))"

named_theorems emit_rules \<open>computations all of whose calls have a property\<close>

lemma after_bind: "after (m \<bind> f) s = after (f (result m s)) (after m s)"
  by (simp add: after_def result_def case_prod_unfold)

lemma emits_bind [emit_rules]:
  assumes "emits P m" and "\<And>x. emits P (f x)"
  shows "emits P (m \<bind> f)"
  unfolding emits_def after_bind
proof
  fix s
  obtain cs where 1: "trace (after m s) = trace s @ cs" "\<forall>c \<in> set cs. P c"
    using assms(1) unfolding emits_def by blast
  obtain ds where 2: "trace (after (f (result m s)) (after m s)) = trace (after m s) @ ds" "\<forall>c \<in> set ds. P c"
    using assms(2) unfolding emits_def by blast
  show "\<exists>cs. trace (after (f (result m s)) (after m s)) = trace s @ cs \<and> (\<forall>c \<in> set cs. P c)"
    by (intro exI [of _ "cs @ ds"]) (use 1 2 in auto)
qed

lemma emits_none: "(\<And>s. trace (after m s) = trace s) \<Longrightarrow> emits P m"
  unfolding emits_def by (intro allI exI [of _ "[]"]) simp

lemma emits_one: "(\<And>s. trace (after m s) = trace s @ [c]) \<Longrightarrow> P c \<Longrightarrow> emits P m"
  unfolding emits_def by (intro allI exI [of _ "[c]"]) simp

lemma emits_prims [emit_rules]:
  "emits P (return x)" "emits P State_Monad.get" "P c \<Longrightarrow> emits P (sys c)" "P c \<Longrightarrow> emits P (sys_err c)"
  "(\<And>s. trace (f s) = trace s) \<Longrightarrow> emits P (State_Monad.update f)"
  by (rule emits_none, simp add: after_def; fail)+
    (rule emits_one, simp add: after_def, assumption, rule emits_one, simp add: after_def, assumption,
      rule emits_none, simp add: after_def State_Monad.update_def)

lemma emits_objects [emit_rules]: "emits P (readContainer a)" "emits P (writeContainer a f)"
  by (rule emits_none; simp add: after_def)+

lemma emits_Log [emit_rules]:
  "P (UiC (Log TypeInfo fmt args)) \<Longrightarrow> emits P (LogInfo fmt args)"
  "P (UiC (Log TypeWarn fmt args)) \<Longrightarrow> emits P (LogWarn fmt args)"
  "P (FdC (Write fd [CHR 0x01])) \<Longrightarrow> P (FdC (Close fd)) \<Longrightarrow> emits P (FreeFd fd)"
  unfolding LogInfo_def LogWarn_def FreeFd_def by (rule emit_rules | assumption)+

lemma emits_split [emit_rules]:
  "emits P m \<Longrightarrow> emits P n \<Longrightarrow> emits P (if b then m else n)"
  "emits P m \<Longrightarrow> (\<And>x. emits P (f x)) \<Longrightarrow> emits P (case v of None \<Rightarrow> m | Some x \<Rightarrow> f x)"
  "(\<And>e. emits P (k e)) \<Longrightarrow> (\<And>x. emits P (g x)) \<Longrightarrow> emits P (case r of Inl e \<Rightarrow> k e | Inr x \<Rightarrow> g x)"
  "(\<And>x y. emits P (l x y)) \<Longrightarrow> emits P (case p of (x, y) \<Rightarrow> l x y)"
  "(\<And>x. emits P (f x)) \<Longrightarrow> emits P (let x = w in f x)"
  by (simp_all add: Let_def split: option.split sum.split prod.split)

lemma emits_deferring [emit_rules]: "emits P d \<Longrightarrow> emits P m \<Longrightarrow> emits P (deferring d m)"
  unfolding deferring_def by (rule emit_rules | assumption)+

lemma emits_for_each [emit_rules]: "(\<And>x. emits P (f x)) \<Longrightarrow> emits P (for_each xs f)"
  by (induction xs) (auto intro!: emit_rules)

lemma emits_quiet:
  assumes "quiet m" and "\<And>c. \<not> is_lock c \<Longrightarrow> P c"
  shows "emits P m"
  using assms unfolding quiet_def yields_def emits_def lockless_def after_def
  by (metis with_calls_simps(1))

lemma lockless_call: "\<not> is_lock c \<Longrightarrow> \<not> writes_table c" "\<not> is_lock c \<Longrightarrow> \<not> uses_scx c"
  by (cases c rule: is_lock.cases; simp)+

text \<open>What the handler of an exit calls while it holds the mutex.\<close>

abbreviation scx_free :: "('z os_scheme, 'a) state \<Rightarrow> bool" where
  "scx_free m \<equiv> emits (\<lambda>c. \<not> uses_scx c) m"

lemma scx_free_parts [emit_rules]:
  "scx_free (freeKeepAlive a)" "scx_free (deleteContainer k)" "scx_free (recordNet pod net)" "scx_free (dropHandles cid)"
  "scx_free (Allocate)" "scx_free (Release ip)" "scx_free (CleanupForward pod)"
  unfolding freeKeepAlive_def deleteContainer_def recordNet_def dropHandles_def Allocate_def Release_def CleanupForward_def
  by (rule emit_rules | (simp; fail))+

lemma scx_free_cleanup [emit_rules]: "scx_free (CleanupContainerNetworking res)"
  unfolding CleanupContainerNetworking_def by (rule emit_rules | rule emits_quiet [OF _ lockless_call(2)], rule quiet_rules | (simp; fail))+

lemma scx_free_reap [emit_rules]: "scx_free (reapWorkload a spec)" "scx_free (reapInit a spec pid)"
  unfolding reapWorkload_def reapInit_def releaseLastNetRootKeepAlive_def cleanPod_def Let_def
  by (rule emit_rules | (simp; fail))+

lemma reapWorkload_writes [emit_rules]: "emits (\<lambda>c. \<not> writes_table c) (reapWorkload a spec)"
  unfolding reapWorkload_def freeKeepAlive_def by (rule emit_rules | (simp; fail))+

lemma scx_free_kill [emit_rules]: "scx_free (killForExit c)"
  by (rule emits_quiet [OF _ lockless_call(2)], rule quiet_rules)

section \<open>The program's operations as sequences of steps\<close>

text \<open>\<open>steps m\<close>: running \<open>m\<close>, from any state and whether it returns, panics or exits, is a sequence of steps.\<close>

definition steps :: "('z app_scheme, 'a) state \<Rightarrow> bool" where
  "steps m \<longleftrightarrow> (\<forall>s. sup_step\<^sup>*\<^sup>* s (after m s))"

lemma stepsD: "steps m \<Longrightarrow> sup_step\<^sup>*\<^sup>* s (after m s)"
  by (simp add: steps_def)

named_theorems step_rules \<open>computations that are sequences of steps\<close>

lemma steps_bind [step_rules]: "steps m \<Longrightarrow> (\<And>x. steps (f x)) \<Longrightarrow> steps (m \<bind> f)"
  unfolding steps_def after_bind by (meson rtranclp_trans)

lemma steps_obind [step_rules]: "steps m \<Longrightarrow> (\<And>x. steps (f x)) \<Longrightarrow> steps (obind m f)"
proof -
  assume m: "steps m" and f: "\<And>x. steps (f x)"
  have "steps (case r of Ret x \<Rightarrow> f x | Exit n \<Rightarrow> return (Exit n) | Panic p \<Rightarrow> return (Panic p) | Replaced \<Rightarrow> return Replaced)"
    for r by (cases r) (use f in \<open>auto simp: steps_def after_def\<close>)
  then show "steps (obind m f)" unfolding obind_def by (rule steps_bind [OF m])
qed

lemma steps_one: "(\<And>s. sup_step s (after m s)) \<Longrightarrow> steps m"
  by (simp add: steps_def r_into_rtranclp)

lemma steps_same: "(\<And>s. tables (after m s) = tables s) \<Longrightarrow> emits (\<lambda>c. \<not> writes_table c) m \<Longrightarrow> steps m"
  by (rule steps_one, rule sup_step.other) (auto simp: emits_def outside_def)

lemma steps_quiet: "quiet m \<Longrightarrow> steps m"
proof (rule steps_same)
  assume q: "quiet m"
  then show "emits (\<lambda>c. \<not> writes_table c) m" by (rule emits_quiet) (rule lockless_call)
  show "tables (after m s) = tables s" for s
    by (simp add: after_def appends_run [OF quiet_appends [OF q]] tables_def)
qed

lemma steps_reads [step_rules]: "steps (return x)" "steps State_Monad.get"
  by (rule steps_same, simp add: after_def, rule emit_rules)+

lemma steps_prims [step_rules]:
  assumes "\<not> writes_table c"
  shows "steps (sys c)" "steps (sys_err c)" "steps (sys_int c)" "steps (sys_str c)" "steps (sys_routes c)" "steps (sys_pair c)"
  by (rule steps_same, simp add: after_def tables_def,
      rule emits_one [where P = "\<lambda>c. \<not> writes_table c", OF _ assms], simp add: after_def)+

lemma steps_update: "(\<And>s. tables (f s) = tables s) \<Longrightarrow> (\<And>s. trace (f s) = trace s) \<Longrightarrow> steps (State_Monad.update f)"
  by (rule steps_same, simp add: after_def State_Monad.update_def, rule emit_rules)

lemma steps_split [step_rules]:
  "steps m \<Longrightarrow> steps n \<Longrightarrow> steps (if b then m else n)"
  "steps m \<Longrightarrow> (\<And>x. steps (f x)) \<Longrightarrow> steps (case v of None \<Rightarrow> m | Some x \<Rightarrow> f x)"
  "(\<And>e. steps (k e)) \<Longrightarrow> (\<And>x. steps (g x)) \<Longrightarrow> steps (case r of Inl e \<Rightarrow> k e | Inr x \<Rightarrow> g x)"
  "(\<And>x y. steps (l x y)) \<Longrightarrow> steps (case p of (x, y) \<Rightarrow> l x y)"
  "(\<And>x. steps (f x)) \<Longrightarrow> steps (let x = w in f x)"
  by (simp_all add: Let_def split: option.split sum.split prod.split)

lemma steps_structure [step_rules]:
  "steps m \<Longrightarrow> steps (locked k m)" "steps m \<Longrightarrow> steps d \<Longrightarrow> steps (deferring d m)"
  "(\<And>x. steps (f x)) \<Longrightarrow> steps (for_each xs f)" "steps m' \<Longrightarrow> steps (ret m')"
proof -
  show "steps m \<Longrightarrow> steps (locked k m)" unfolding locked_def by (rule step_rules | simp)+
  show "steps m \<Longrightarrow> steps d \<Longrightarrow> steps (deferring d m)" unfolding deferring_def by (intro step_rules)
  show "(\<And>x. steps (f x)) \<Longrightarrow> steps (for_each xs f)" by (induction xs) (auto intro!: step_rules)
  show "steps m' \<Longrightarrow> steps (ret m')" unfolding ret_def by (intro step_rules)
qed

section \<open>The critical sections\<close>

lemma after_locked: "after (locked k m) s = emit (UiC (Unlock k)) (after m (emit (UiC (Lock k)) s))"
  by (simp add: after_def case_prod_unfold)

text \<open>A section with one write of the table.\<close>

lemma in_sectionI:
  "trace t = trace s @ UiC (Lock ScxMu) # cs @ [UiC (Unlock ScxMu)] \<Longrightarrow> \<forall>c \<in> set cs. \<not> uses_scx c \<Longrightarrow> in_section s t"
  unfolding in_section_def by blast

lemma steps_enterCreated [step_rules]: "steps (enterCreated spec pid)"
proof (rule steps_one)
  fix s :: "'z app_scheme"
  let ?c = "blankContainer\<lparr>CSpec := Some spec, InitPID := pid, CState := ContainerCreated\<rparr>"
  show "sup_step s (after (enterCreated spec pid) s)"
    by (rule sup_step.created [where c = ?c and cid = "ID spec"], rule in_sectionI [where cs = "[UiC (TableWrite (ID spec))]"])
      (simp_all add: enterCreated_def after_def tables_def)
qed

lemma steps_enterPlaceholder [step_rules]: "steps (enterPlaceholder name)"
proof (rule steps_one)
  fix s :: "'z app_scheme"
  let ?c = "blankContainer\<lparr>CState := ContainerInitializing\<rparr>"
  show "sup_step s (after (enterPlaceholder name) s)"
    by (rule sup_step.created [where c = ?c and cid = name], rule in_sectionI [where cs = "[UiC (TableWrite name)]"])
      (simp_all add: enterPlaceholder_def after_def tables_def blankContainer_def)
qed

lemma steps_enterRunning [step_rules]:
  assumes c: "CSpec c = Some spec" shows "steps (enterRunning c spec)"
  unfolding steps_def
proof
  fix s :: "'z app_scheme"
  let ?s = "s\<lparr>heap := (heap s)(hnext s := c), hnext := Suc (hnext s)\<rparr>"
  have "sup_step s ?s"
    by (rule sup_step.new [where c = c]) (simp_all add: outside_def c)
  moreover have "sup_step ?s (after (enterRunning c spec) s)"
    by (rule sup_step.entered [where a = "hnext s" and spec = spec],
        rule in_sectionI [where cs = "[UiC (TableWrite (ID spec))]"])
      (simp_all add: enterRunning_def after_def tables_def c)
  ultimately show "sup_step\<^sup>*\<^sup>* s (after (enterRunning c spec) s)" by (meson r_into_rtranclp rtranclp_trans)
qed

lemma steps_reenter [step_rules]: "steps (reenterContainer a)"
proof (rule steps_one)
  fix s :: "'z app_scheme"
  show "sup_step s (after (reenterContainer a) s)"
  proof (cases "CSpec (heap s a)")
    case None
    then show ?thesis
      by (intro sup_step.other) (auto simp: reenterContainer_def after_def tables_def outside_def)
  next
    case (Some spec)
    then show ?thesis
      by (intro sup_step.entered [where a = a and spec = spec] in_sectionI [where cs = "[UiC (TableWrite (ID spec))]"])
        (simp_all add: reenterContainer_def after_def tables_def)
  qed
qed

lemma steps_newContainer: "(CSpec c = None \<Longrightarrow> InitPID c = 0 \<and> WorkloadPID c = 0) \<Longrightarrow> steps (newContainer c)"
  by (rule steps_one, rule sup_step.new [where c = c]) (simp_all add: after_def outside_def)

lemma steps_writeContainer [step_rules]: "(\<And>c. similar (f c) c) \<Longrightarrow> steps (writeContainer a f)"
proof (rule steps_one)
  fix s :: "'z app_scheme"
  assume "\<And>c. similar (f c) c"
  then show "sup_step s (after (writeContainer a f) s)"
    by (intro sup_step.changed [where h = "(heap s)(a := f (heap s a))"]) (auto simp: after_def outside_def tables_def)
qed

lemma core_tables: "core t = core s \<Longrightarrow> tables t = tables s"
  using core_eqD [of t s] by (simp add: tables_def)

lemma steps_handleExit: "steps (handleExit pid)"
proof (rule steps_one)
  fix s :: "'z app_scheme"
  let ?l = "emit (UiC (Lock ScxMu)) s"
  show "sup_step s (after (handleExit pid) s)"
  proof (cases "findContainerByPID (heap s) (containers s) pid")
    case None
    then show ?thesis
      by (intro sup_step.other) (auto simp: handleExit_def after_def tables_def outside_def)
  next
    case (Some a)
    show ?thesis
    proof (cases "CSpec (heap s a)")
      case None
      then show ?thesis using Some
        by (intro sup_step.other) (auto simp: handleExit_def after_def tables_def outside_def)
    next
      case spec: (Some spec)
      let ?w = "if pid = WorkloadPID (heap s a) then reapWorkload a spec else return ()"
      let ?i = "if pid = InitPID (heap s a) then reapInit a spec pid else return ()"
      have run: "after (handleExit pid) s = emit (UiC (Unlock ScxMu)) (after ?i (after ?w ?l))"
        using Some spec by (simp add: handleExit_def after_def case_prod_unfold)
      from handleExit_core [OF Some spec] obtain h where sim: "\<And>b. similar (h b) (heap s b)" and
        c: "core (after (handleExit pid) s) =
          core (if pid = InitPID (heap s a) then reaped (heap s a) spec h s else s\<lparr>heap := h\<rparr>)" by blast
      show ?thesis
      proof (cases "pid = InitPID (heap s a)")
        case True
        have "scx_free ?w" "scx_free ?i" by (rule emit_rules)+
        then obtain ws cs where "trace (after ?w ?l) = trace ?l @ ws" "trace (after ?i (after ?w ?l)) = trace (after ?w ?l) @ cs"
          "\<forall>c \<in> set (ws @ cs). \<not> uses_scx c"
          unfolding emits_def set_append by (metis Un_iff)
        then have "in_section s (after (handleExit pid) s)"
          by (intro in_sectionI [where cs = "ws @ cs"]) (simp_all add: run)
        then show ?thesis
          using True Some spec sim core_tables [OF c]
          by (intro sup_step.exited [where a = a and spec = spec and h = h]) simp_all
      next
        case False
        have "emits (\<lambda>c. \<not> writes_table c) ?w" by (rule emit_rules)+
        then obtain ws where "trace (after ?w ?l) = trace ?l @ ws" "\<forall>c \<in> set ws. \<not> writes_table c"
          unfolding emits_def by blast
        then have "outside s (after (handleExit pid) s)"
          using False unfolding outside_def run
          by (intro exI [of _ "UiC (Lock ScxMu) # ws @ [UiC (Unlock ScxMu)]"]) (auto simp: after_def)
        then show ?thesis
          using False sim core_tables [OF c] by (intro sup_step.changed [where h = h]) simp_all
      qed
    qed
  qed
qed

lemma steps_handleEvent [step_rules]: "steps (handleEvent ev)"
proof (cases ev)
  case (EventSignal sig)
  have "steps (handleSignal sig)"
    unfolding handleSignal_def by (rule step_rules | simp)+
  then show ?thesis using EventSignal by simp
qed (simp add: steps_handleExit)

text \<open>The section of \<open>exit\<close>: every entry is deleted.\<close>

definition exitSection :: "('z app_scheme, unit) state" where
  "exitSection = do {
     _ \<leftarrow> sys (UiC (Lock ScxMu));
     s \<leftarrow> State_Monad.get;
     _ \<leftarrow> for_each (containers s) (\<lambda>(cid, a). do { _ \<leftarrow> killForExit (heap s a); deleteContainer cid });
     sys (UiC (Unlock ScxMu))
   }"

lemma del_all: "foldl (\<lambda>m k. map_del k m) m ks = filter (\<lambda>(k, v). k \<notin> set ks) m"
  by (induction ks arbitrary: m) (auto simp: AList.delete_eq intro: filter_cong)

lemma exit_loop_core:
  "core (after (for_each xs (\<lambda>(cid, a). do { _ \<leftarrow> killForExit (h a); deleteContainer cid })) s) =
    (core s)\<lparr>containers := foldl (\<lambda>m k. map_del k m) (containers s) (map fst xs)\<rparr>"
proof (induction xs arbitrary: s)
  case Nil
  show ?case by (simp add: after_def)
next
  case (Cons x xs)
  obtain cid a where x: "x = (cid, a)" by (cases x)
  let ?s = "after (do { _ \<leftarrow> killForExit (h a); deleteContainer cid }) s"
  have k: "core (after (killForExit (h a)) s) = core s"
    by (rule appends_core, rule quiet_appends, rule quiet_rules)
  then have "core ?s = (core s)\<lparr>containers := map_del cid (containers s)\<rparr>"
    using core_eqD(3) [OF k] by (simp add: after_bind) (simp add: after_def)
  moreover from this have "containers ?s = map_del cid (containers s)"
    by (metis core_fields(3) app.select_convs(3) app.surjective app.update_convs(3))
  ultimately show ?case using Cons.IH [of ?s] by (simp add: x after_bind)
qed

lemma exitSection_step: "exiting s \<Longrightarrow> sup_step s (after exitSection s)"
proof -
  assume e: "exiting s"
  let ?l = "emit (UiC (Lock ScxMu)) s"
  let ?loop = "for_each (containers s) (\<lambda>(cid, a). do { _ \<leftarrow> killForExit (heap s a); deleteContainer cid })"
  have run: "after exitSection s = emit (UiC (Unlock ScxMu)) (after ?loop ?l)"
    by (simp add: exitSection_def after_def case_prod_unfold)
  have "scx_free ?loop" by (rule emit_rules)+
  then obtain cs where "trace (after ?loop ?l) = trace ?l @ cs" "\<forall>c \<in> set cs. \<not> uses_scx c"
    unfolding emits_def by blast
  then have "in_section s (after exitSection s)" by (intro in_sectionI [where cs = cs]) (simp_all add: run)
  moreover have "foldl (\<lambda>m k. map_del k m) (containers s) (map fst (containers s)) = []"
    unfolding del_all by (force simp: filter_empty_conv)
  then have "core (after exitSection s) = core (s\<lparr>containers := []\<rparr>)"
    using exit_loop_core [of "containers s" "heap s" ?l] by (simp add: run)
  ultimately show ?thesis using e core_tables by (intro sup_step.emptied) blast+
qed

definition exitRest :: "string \<Rightarrow> ('z app_scheme, unit outcome) state" where
  "exitRest ifc = do {
     _ \<leftarrow> RemoveNATRule ''10.0.0.0/24'' ifc;
     _ \<leftarrow> DeleteBridge ''bctor0'';
     _ \<leftarrow> LogSuccess ''Global cleanup complete. Goodbye!'' [];
     return (Exit 0)
   }"

lemma after_d_exit: "after d_exit s = after (exitRest (iface s)) (after exitSection (emit shutdown s))"
  by (simp add: d_exit_def exitSection_def exitRest_def shutdown_def after_def case_prod_unfold)

lemma steps_d_exit [step_rules]: "steps d_exit"
  unfolding steps_def
proof
  fix s :: "'z app_scheme"
  have "sup_step s (emit shutdown s)"
    by (rule sup_step.other) (auto simp: outside_def tables_def shutdown_def)
  moreover have "sup_step (emit shutdown s) (after exitSection (emit shutdown s))"
    by (rule exitSection_step) (simp add: exiting_def)
  moreover have "steps (exitRest ifc :: ('z app_scheme, _) state)" for ifc
    unfolding exitRest_def by (rule steps_quiet) (rule quiet_rules)+
  ultimately show "sup_step\<^sup>*\<^sup>* s (after d_exit s)"
    unfolding after_d_exit steps_def by (meson r_into_rtranclp rtranclp_trans)
qed

lemma steps_readers [step_rules]: "steps (readContainer a)" "steps (lookupContainer cid)"
  unfolding readContainer_def lookupContainer_def by (intro step_rules)+

lemma steps_objects [step_rules]: "steps (setIPC a ipc)" "steps (freeKeepAlive a)"
proof -
  show "steps (setIPC a ipc)" unfolding setIPC_def by (intro step_rules) (simp add: similar_def)
  show "steps (freeKeepAlive a)" unfolding freeKeepAlive_def FreeFd_def by (rule step_rules | simp)+
qed

section \<open>Starting\<close>

lemma steps_Register [step_rules]: "steps (Register cid pty pid)"
  unfolding Register_def by (rule step_rules steps_update | simp add: tables_def)+

lemma steps_handles [step_rules]: "steps (RegisterNamespaceHandles cid fds)" "steps (SendNamespaceFDs ipc shares)"
proof -
  show "steps (RegisterNamespaceHandles cid fds)"
    by (rule steps_one, rule sup_step.other)
      (auto simp: RegisterNamespaceHandles_def after_def tables_def outside_def Let_def)
  show "steps (SendNamespaceFDs ipc shares)"
    by (rule steps_one, rule sup_step.other)
      (auto simp: SendNamespaceFDs_def after_def tables_def outside_def split: list.split option.split
        prod.split sum.split)
qed

lemma steps_network [step_rules]: "steps (NetworkConfig fd spec)" "steps (CleanupContainerNetworking res)"
  unfolding NetworkConfig_def CleanupContainerNetworking_def Allocate_def Release_def
  by (rule step_rules steps_update | rule steps_quiet, rule quiet_rules | simp add: tables_def)+

lemma steps_forward [step_rules]: "steps (AddSession pod h c pid)" "steps (ListPorts pod)"
  unfolding AddSession_def ListPorts_def
  by (rule step_rules steps_update | rule steps_quiet, rule quiet_rules | simp add: tables_def)+

lemma steps_start_parts [step_rules]:
  "steps (recvCreated spec ipc)" "steps (setupNet spec ipc created)" "steps (handshakeWithInit spec pid ipc)"
  unfolding recvCreated_def setupNet_def handshakeWithInit_def
  by (rule step_rules | rule steps_quiet, rule quiet_rules | simp)+

lemma steps_FinalizeContainer [step_rules]: "steps (FinalizeContainer pid spec ipc)"
  unfolding FinalizeContainer_def
  by (rule steps_quiet [OF quiet_fds(5)] step_rules | rule steps_quiet, rule quiet_rules | simp)+

lemma steps_StartContainer [step_rules]: "steps (StartContainer spec ipcp)"
  unfolding StartContainer_def
  by (rule steps_quiet [OF quiet_RunContainerInit] steps_quiet [OF quiet_sup(7)] step_rules
      | rule steps_quiet, rule quiet_rules | simp)+

lemma steps_creators [step_rules]:
  "steps (StartCreator letter md prof ipcp)" "steps (StartCreatorBatch letter cmd ipcp)"
  unfolding StartCreator_def StartCreatorBatch_def Let_def
  by (rule step_rules | rule steps_quiet, rule quiet_rules | simp)+

lemma steps_joiners [step_rules]:
  "steps (StartJoiner root name md prof ipcp)" "steps (StartJoinerBatch root name cmd ipcp)"
  unfolding StartJoiner_def StartJoinerBatch_def Let_def
  by (rule step_rules | rule steps_quiet, rule quiet_rules | simp)+

section \<open>The commands\<close>

lemma steps_RefreshPrompt [step_rules]: "steps RefreshPrompt"
  unfolding RefreshPrompt_def by (rule step_rules | simp)+

lemma steps_d_forward [step_rules]: "steps (d_forward input)"
  unfolding d_forward_def by (rule step_rules | rule steps_quiet, rule quiet_rules | simp)+

lemma steps_names [step_rules]: "steps GetNextPodLetter" "steps (GetNextContainerIndex letter)"
proof -
  show "steps GetNextPodLetter" unfolding GetNextPodLetter_def by (rule step_rules | simp)+
  show "steps (GetNextContainerIndex letter)" unfolding GetNextContainerIndex_def by (rule step_rules | simp)+
qed

lemma steps_runIn [step_rules]: "steps (runIn letter joiner parts)"
  unfolding runIn_def Let_def
  by (rule steps_quiet [OF quiet_commands(4)] step_rules | rule steps_quiet, rule quiet_rules | simp)+

lemma steps_d_run [step_rules]: "steps (d_run input)"
  unfolding d_run_def newLetter_def Let_def
  by (rule steps_quiet [OF quiet_commands(4)] step_rules | simp)+

lemma steps_joinMany [step_rules]: "steps (joinMany n root letter)"
  by (induction n) (auto simp: Let_def intro!: step_rules steps_quiet [OF quiet_sup(3)])

lemma steps_d_new [step_rules]: "steps (d_new input)"
  unfolding d_new_def newCreator_def newJoiners_def newLetter_def Let_def
  by (rule step_rules | rule steps_quiet, rule quiet_rules | simp)+

lemma steps_killSection [step_rules]: "steps (killSection targetID)"
  unfolding killSection_def Let_def by (rule step_rules | simp)+

lemma steps_killAttempts [step_rules]: "steps (killAttempts k targetID)"
  by (induction k) (auto intro!: step_rules)

lemma steps_killAll [step_rules]: "steps (killAll ids)"
  unfolding killOneWithRetry_def by (induction ids) (auto simp: killOneWithRetry_def intro!: step_rules)

lemma steps_killRounds [step_rules]: "steps (killRounds k letter)"
  by (induction k) (auto intro!: step_rules)

lemma steps_d_kill [step_rules]: "steps (d_kill input)"
  unfolding d_kill_def killContainer_def killOneWithRetry_def Let_def
  by (rule step_rules | rule steps_quiet, rule quiet_rules | simp)+

lemma steps_podLines [step_rules]: "steps (podLines pods counts living)"
  by (induction pods) (auto intro!: step_rules)

lemma steps_d_list [step_rules]: "steps (d_list input)"
  unfolding d_list_def listPods_def Let_def
  by (rule step_rules | rule steps_quiet, rule quiet_rules | simp)+

lemma steps_d_attach [step_rules]: "steps (d_attach input)"
  unfolding d_attach_def attachSection_def Let_def
  by (rule step_rules steps_update | rule steps_quiet, rule quiet_rules | simp add: tables_def)+

lemma steps_execSection [step_rules]: "steps (execSection cid)"
  unfolding execSection_def by (rule step_rules | rule steps_quiet, rule quiet_rules | simp)+

lemma steps_case_exec [step_rules]:
  "steps m \<Longrightarrow> steps n \<Longrightarrow> steps d \<Longrightarrow> steps (case r of RunIt \<Rightarrow> m | NotRunning \<Rightarrow> n | Dead \<Rightarrow> d)"
  by (simp split: exec_check.split)

lemma steps_d_exec [step_rules]: "steps (d_exec input)"
  unfolding d_exec_def Let_def by (rule step_rules | rule steps_quiet, rule quiet_rules | simp)+

lemma steps_Dispatch [step_rules]: "steps (Dispatch line)"
proof -
  have c1: "steps (d_clear :: ('a app_scheme, _) state)" and h1: "steps (d_help :: ('a app_scheme, _) state)"
    by (rule steps_quiet, rule quiet_rules)+
  have unknown: "steps (printf fmt args :: ('a app_scheme, _) state)" for fmt args by (rule steps_quiet, rule quiet_rules)
  show "steps (Dispatch line :: ('a app_scheme, _) state)"
    unfolding Dispatch_def Let_def
    by (cases "classify (TrimSpace line)") (simp_all add: step_rules c1 h1 unknown)
qed

section \<open>Input\<close>

lemma steps_mux [step_rules]: "steps GetActiveID" "steps (muxWrite cid data)" "steps (setLineBuf b)" "steps detach"
  unfolding GetActiveID_def muxWrite_def setLineBuf_def detach_def Let_def
  by (rule step_rules steps_update | rule steps_quiet, rule quiet_rules | simp add: tables_def)+

lemma steps_pipeLoop: "steps (pipeLoop n cid pty)"
  by (induction n) (auto intro!: step_rules)

lemma steps_pipeOutput [step_rules]: "steps (pipeOutput n cid)"
  unfolding pipeOutput_def by (rule step_rules steps_pipeLoop)+

lemma steps_enterLine [step_rules]: "steps enterLine"
  unfolding enterLine_def Let_def by (rule step_rules | simp)+

lemma steps_handleSupervisorInput [step_rules]: "steps (handleSupervisorInput bs)"
  by (induction bs) (auto intro!: step_rules steps_quiet [OF quiet_sup(4)])

lemma steps_handleInput [step_rules]: "steps (handleInput buf)"
  unfolding handleInput_def by (rule step_rules | simp)+

lemma steps_handleEvents [step_rules]: "steps (handleEvents evs)"
  by (induction evs) (auto intro!: step_rules)

section \<open>The other goroutines\<close>

lemma steps_inputLoop [step_rules]: "steps (inputLoop n)"
  by (induction n) (auto intro!: step_rules)

lemma steps_RunLoop [step_rules]: "steps (RunLoop n)"
  unfolding RunLoop_def by (rule step_rules | rule steps_quiet, rule quiet_rules | (simp; fail))+

lemma steps_startNet: "steps (State_Monad.update (\<lambda>s. s\<lparr>podNet := []\<rparr>))"
  by (rule steps_one, rule sup_step.start) (simp_all add: after_def State_Monad.update_def outside_def)

lemma steps_OnContainerExit [step_rules]: "steps (OnContainerExit evs)"
  unfolding OnContainerExit_def
  by (rule steps_startNet step_rules | rule steps_quiet, rule quiet_rules | (simp; fail))+

lemma steps_showMsgs [step_rules]: "steps (showMsgs GetActiveID RefreshPrompt msgs)"
  by (induction msgs) (auto simp: showMsg_def Let_def intro!: step_rules)

lemma steps_logger [step_rules]: "steps (StartGlobalLogger GetActiveID RefreshPrompt msgs)"
  unfolding StartGlobalLogger_def by (rule step_rules | (simp; fail))+

lemma quiet_sendLines: "quiet (sendLines cid buf)"
  unfolding sendLines_def Let_def by (rule quiet_rules | (simp; fail))+

lemma quiet_readLogs: "quiet (readLogs n cid rfd buf)"
  by (induction n arbitrary: buf) (auto intro!: quiet_rules quiet_sendLines)

lemma quiet_reaperRound: "quiet reaperRound"
  unfolding reaperRound_def waitForAnyChild_def by (rule quiet_rules | (simp; fail))+

lemma quiet_accept_conns: "quiet (accept_conns n pid l port)"
  by (induction n) (auto intro!: quiet_rules)

lemma quiet_goroutines [quiet_rules]:
  "quiet (CaptureLogs n cid rfd wfd md)" "quiet (reaperLoop n)" "quiet (stopListener l)" "quiet (acceptLoop n pid l port)"
  "quiet (handleForwardConn pid conn port)"
  subgoal unfolding CaptureLogs_def Let_def by (rule quiet_rules quiet_readLogs | (simp; fail))+
  subgoal by (induction n) (auto intro!: quiet_rules quiet_reaperRound)
  subgoal unfolding stopListener_def by (rule quiet_rules | (simp; fail))+
  subgoal unfolding acceptLoop_def by (rule quiet_rules quiet_accept_conns | (simp; fail))+
  subgoal unfolding handleForwardConn_def ExecuteInNamespace_def Let_def by (rule quiet_rules | (simp; fail))+
  done


text \<open>
  C5: what every goroutine of the supervisor does once it is set up (the input loop with the commands, \<open>exit\<close> among
  them, the starts of joiners, the handling of exits and signals, the logger, the captures, the copying
  of a terminal's output, the reaper, the forwards) is, from any state and whether it returns, panics or exits, a
  sequence of steps: so it changes the table of containers only in stretches of calls that lie between
  one lock and the next unlock of the supervisor's mutex, each of them one of the changes the steps
  allow.
\<close>

theorem operations_are_steps:
  fixes s :: "'z app_scheme"
  shows "sup_step\<^sup>*\<^sup>* s (after (RunLoop n) s) \<and> sup_step\<^sup>*\<^sup>* s (after (handleInput buf) s) \<and>
    sup_step\<^sup>*\<^sup>* s (after (StartJoiner root name md prof ipcp) s) \<and>
    sup_step\<^sup>*\<^sup>* s (after (StartJoinerBatch root name cmd ipcp) s) \<and>
    sup_step\<^sup>*\<^sup>* s (after (OnContainerExit evs) s) \<and> sup_step\<^sup>*\<^sup>* s (after (handleEvents evs) s) \<and>
    sup_step\<^sup>*\<^sup>* s (after (StartGlobalLogger GetActiveID RefreshPrompt msgs) s) \<and>
    sup_step\<^sup>*\<^sup>* s (after (CaptureLogs n cid rfd wfd lmd) s) \<and>
    sup_step\<^sup>*\<^sup>* s (after (pipeOutput n cid) s) \<and> sup_step\<^sup>*\<^sup>* s (after (reaperLoop n) s) \<and>
    sup_step\<^sup>*\<^sup>* s (after (stopListener l) s) \<and> sup_step\<^sup>*\<^sup>* s (after (acceptLoop n pid l port) s) \<and>
    sup_step\<^sup>*\<^sup>* s (after (handleForwardConn pid conn port) s)"
  by (intro conjI; rule stepsD; (rule step_rules | rule steps_quiet, rule quiet_goroutines))

end
