(* ===== verification/Exits.thy ===== *)
theory Exits
  imports Steps
begin

text \<open>
  What exits do: the handler of \<open>OnContainerExit\<close> against an abstract account of the tables, and what
  a series of exits leaves of a pod.
\<close>

section \<open>Who exited\<close>

lemma findContainerByPID_Some:
  "findContainerByPID h cs pid = Some a \<Longrightarrow> \<exists>k. (k, a) \<in> set cs \<and> (WorkloadPID (h a) = pid \<or> InitPID (h a) = pid)"
  by (induction h cs pid rule: findContainerByPID.induct) (auto split: if_splits)

lemma findContainerByPID_None:
  "findContainerByPID h cs pid = None \<longleftrightarrow>
    (\<forall>(k, a) \<in> set cs. WorkloadPID (h a) \<noteq> pid \<and> InitPID (h a) \<noteq> pid)"
  by (induction h cs pid rule: findContainerByPID.induct) auto

lemma found_has_spec:
  assumes i: "sup_inv s" and f: "findContainerByPID (heap s) (containers s) pid = Some a" and "0 < pid"
  obtains spec where "CSpec (heap s a) = Some spec" "(ID spec, a) \<in> set (containers s)"
    "WorkloadPID (heap s a) = pid \<or> InitPID (heap s a) = pid"
proof -
  from findContainerByPID_Some [OF f] obtain k where
    k: "(k, a) \<in> set (containers s)" "WorkloadPID (heap s a) = pid \<or> InitPID (heap s a) = pid" by blast
  with sup_invD(4) [OF i, of a] \<open>0 < pid\<close> obtain spec where "CSpec (heap s a) = Some spec" by fastforce
  with k sup_invD(6) [OF i] that show thesis by blast
qed

text \<open>
  C3: the exit of a child is handled without a panic. If the pid is of no container, the tables
  stay as they are; if it is a container's workload only, no table changes but for its keep-alive pipe; if
  it is a container's init, the tables become what \<open>reaped\<close> says: the container's entry and
  handles are gone, and with the pod's last container its forwards and network, whose address is released.
\<close>

theorem container_exit:
  assumes "reachable s" and "0 < pid"
  shows "result (handleExit pid) s = Ret () \<and>
    (case findContainerByPID (heap s) (containers s) pid of
       None \<Rightarrow> core (after (handleExit pid) s) = core s
     | Some a \<Rightarrow> \<exists>spec h. CSpec (heap s a) = Some spec \<and> map_get (containers s) (ID spec) = Some a \<and>
         (\<forall>b. similar (h b) (heap s b)) \<and>
         core (after (handleExit pid) s) =
           core (if pid = InitPID (heap s a) then reaped (heap s a) spec h s else s\<lparr>heap := h\<rparr>))"
proof (cases "findContainerByPID (heap s) (containers s) pid")
  case None
  then show ?thesis using handleExit_unknown by simp
next
  case (Some a)
  have i: "sup_inv s" by (rule reachable_inv [OF assms(1)])
  from found_has_spec [OF i Some assms(2)] obtain spec where
    spec: "CSpec (heap s a) = Some spec" "(ID spec, a) \<in> set (containers s)" by blast
  then have "map_get (containers s) (ID spec) = Some a"
    using sup_invD(1) [OF i] by (simp add: map_get_Some_iff)
  with Some spec(1) handleExit_core [OF Some spec(1)] show ?thesis by auto
qed

section \<open>Series of exits\<close>

text \<open>A live init's pid is its own: no other container has it, as its init's or its workload's.\<close>

definition distinct_pids :: "'z app_scheme \<Rightarrow> bool" where
  "distinct_pids s \<longleftrightarrow> (\<forall>(k, a) \<in> set (containers s). \<forall>(j, b) \<in> set (containers s).
     a \<noteq> b \<longrightarrow> 0 < InitPID (heap s a) \<longrightarrow>
     InitPID (heap s a) \<noteq> InitPID (heap s b) \<and> InitPID (heap s a) \<noteq> WorkloadPID (heap s b))"

fun exit_of :: "Event \<Rightarrow> int option" where
  "exit_of (EventChildExit pid status) = Some pid"
| "exit_of (EventSignal sig) = None"

text \<open>What a handler may do to the tables when the pids in \<open>X\<close> exit.\<close>

definition exits :: "int set \<Rightarrow> 'z app_scheme \<Rightarrow> 'z app_scheme \<Rightarrow> bool" where
  "exits X s t \<longleftrightarrow> sup_inv t \<and>
     set (containers t) = {(k, a) \<in> set (containers s). InitPID (heap s a) \<notin> X} \<and>
     (\<forall>b. similar (heap t b) (heap s b)) \<and>
     (\<forall>p. isPodEmpty p (containers t) \<longrightarrow> \<not> isPodEmpty p (containers s) \<longrightarrow>
        p \<notin> fst ` set (podNet t) \<and> map_get (sessions t) p = None) \<and>
     (\<forall>p. map_get (sessions s) p = None \<longrightarrow> map_get (sessions t) p = None) \<and>
     (\<forall>p. isPodEmpty p (containers s) \<longrightarrow> p \<notin> fst ` set (podNet s) \<longrightarrow> p \<notin> fst ` set (podNet t))"

lemma exitsI:
  "\<lbrakk> sup_inv t; set (containers t) = {(k, a) \<in> set (containers s). InitPID (heap s a) \<notin> X};
     \<And>b. similar (heap t b) (heap s b);
     \<And>p. isPodEmpty p (containers t) \<Longrightarrow> \<not> isPodEmpty p (containers s) \<Longrightarrow>
       p \<notin> fst ` set (podNet t) \<and> map_get (sessions t) p = None;
     \<And>p. map_get (sessions s) p = None \<Longrightarrow> map_get (sessions t) p = None;
     \<And>p. isPodEmpty p (containers s) \<Longrightarrow> p \<notin> fst ` set (podNet s) \<Longrightarrow> p \<notin> fst ` set (podNet t) \<rbrakk> \<Longrightarrow> exits X s t"
  unfolding exits_def by blast

lemma exitsD:
  assumes "exits X s t"
  shows "sup_inv t" "(k, a) \<in> set (containers t) \<longleftrightarrow> (k, a) \<in> set (containers s) \<and> InitPID (heap s a) \<notin> X"
    "similar (heap t b) (heap s b)"
    "isPodEmpty p (containers t) \<Longrightarrow> \<not> isPodEmpty p (containers s) \<Longrightarrow>
       p \<notin> fst ` set (podNet t) \<and> map_get (sessions t) p = None"
    "map_get (sessions s) p = None \<Longrightarrow> map_get (sessions t) p = None"
    "InitPID (heap t b) = InitPID (heap s b)" "WorkloadPID (heap t b) = WorkloadPID (heap s b)"
    "isPodEmpty p (containers s) \<Longrightarrow> p \<notin> fst ` set (podNet s) \<Longrightarrow> p \<notin> fst ` set (podNet t)"
  using assms by (simp_all add: exits_def similar_def)

lemma exits_none: "sup_inv t \<Longrightarrow> core t = core s \<Longrightarrow> exits {} s t"
  using core_eqD [of t s] by (simp add: exits_def)

lemma reaped_containers: "containers (reaped c spec h s) = map_del (ID spec) (containers s)"
  by (cases "podOf (ID spec)") (simp_all add: reaped_def Let_def)

lemma reaped_hp: "heap (reaped c spec h s) = h"
  by (cases "podOf (ID spec)") (simp_all add: reaped_def Let_def)

lemma reaped_sessions:
  "map_get (sessions (reaped c spec h s)) p =
    (if podOf (ID spec) = Some p \<and> isPodEmpty p (map_del (ID spec) (containers s)) then None
     else map_get (sessions s) p)"
  by (cases "podOf (ID spec)") (auto simp: reaped_def Let_def)

lemma exits_handleExit:
  assumes i: "sup_inv s" and d: "distinct_pids s" and pos: "0 < pid"
  shows "result (handleExit pid) s = Ret () \<and> exits {pid} s (after (handleExit pid) s)"
proof (cases "findContainerByPID (heap s) (containers s) pid")
  case None
  then have c: "core (after (handleExit pid) s) = core s" and r: "result (handleExit pid) s = Ret ()"
    using handleExit_unknown by blast+
  have "sup_inv (after (handleExit pid) s)" using i by (rule sup_inv_handleExit)
  then have "exits {} s (after (handleExit pid) s)" using c by (rule exits_none)
  moreover have "InitPID (heap s a) \<noteq> pid" if "(k, a) \<in> set (containers s)" for k a
    using None that by (auto simp: findContainerByPID_None)
  ultimately show ?thesis using r unfolding exits_def by auto
next
  case (Some a)
  let ?t = "after (handleExit pid) s"
  from found_has_spec [OF i Some pos] obtain spec where
    spec: "CSpec (heap s a) = Some spec" and ka: "(ID spec, a) \<in> set (containers s)"
    and pid: "WorkloadPID (heap s a) = pid \<or> InitPID (heap s a) = pid" by blast
  from handleExit_core [OF Some spec] obtain h where r: "result (handleExit pid) s = Ret ()"
    and sim: "\<And>b. similar (h b) (heap s b)"
    and c: "core ?t = core (if pid = InitPID (heap s a) then reaped (heap s a) spec h s else s\<lparr>heap := h\<rparr>)"
    by blast
  note f = core_eqD [OF c]
  have inv: "sup_inv ?t" using i by (rule sup_inv_handleExit)
  have key: "j = ID spec" if "(j, a) \<in> set (containers s)" for j
    using sup_invD(6) [OF i that spec] by simp
  have val: "b = a" if "(ID spec, b) \<in> set (containers s)" for b
    using that ka sup_invD(1) [OF i] by (metis map_get_Some_iff option.inject)
  have only: "b = a" if "(j, b) \<in> set (containers s)" "InitPID (heap s b) = pid" for j b
    using d ka that pid pos unfolding distinct_pids_def by fastforce
  show ?thesis
  proof (cases "pid = InitPID (heap s a)")
    case True
    have cs: "containers ?t = map_del (ID spec) (containers s)" using f(3) True by (simp add: reaped_containers)
    have "set (containers ?t) = {(k, b) \<in> set (containers s). InitPID (heap s b) \<notin> {pid}}"
      using only key val True unfolding cs by (auto simp: set_map_del [OF sup_invD(1) [OF i]])
    moreover have "\<forall>b. similar (heap ?t b) (heap s b)" using f(1) True sim by (simp add: reaped_hp)
    moreover have "p \<notin> fst ` set (podNet ?t) \<and> map_get (sessions ?t) p = None"
      if e: "isPodEmpty p (containers ?t)" "\<not> isPodEmpty p (containers s)" for p
    proof -
      from e(2) obtain k where k: "k \<in> fst ` set (containers s)" "podOf k = Some p"
        by (auto simp: isPodEmpty_iff)
      have "k = ID spec"
      proof (rule ccontr)
        assume "k \<noteq> ID spec"
        then have "k \<in> fst ` set (containers ?t)" using k(1) by (simp add: cs fst_set_map_del)
        then show False using e(1) k(2) unfolding isPodEmpty_iff by blast
      qed
      then have p: "podOf (ID spec) = Some p" using k(2) by simp
      have "p \<notin> fst ` set (podNet ?t)"
        using reaped_pods [of p "heap s a" spec h s] p e(1) f(3,4) True by auto
      then show ?thesis
        using p e f(7) True cs by (auto simp: reaped_sessions)
    qed
    moreover have "map_get (sessions s) p = None \<longrightarrow> map_get (sessions ?t) p = None" for p
      using f(7) True by (simp add: reaped_sessions)
    moreover have "p \<notin> fst ` set (podNet ?t)" if e: "isPodEmpty p (containers s)" "p \<notin> fst ` set (podNet s)" for p
    proof -
      have "podOf (ID spec) \<noteq> Some p" using e(1) ka by (force simp: isPodEmpty_iff)
      then show ?thesis using reaped_pods [of p "heap s a" spec h s] e(2) f(4) True by auto
    qed
    ultimately have "exits {pid} s ?t" using inv by (intro exitsI) blast+
    then show ?thesis using r by blast
  next
    case False
    have "InitPID (heap s b) \<noteq> pid" if "(j, b) \<in> set (containers s)" for j b
      using only [OF that] False by blast
    then have "set (containers ?t) = {(k, b) \<in> set (containers s). InitPID (heap s b) \<notin> {pid}}"
      using f(3) False by auto
    moreover have "containers ?t = containers s" "heap ?t = h" "sessions ?t = sessions s" "podNet ?t = podNet s"
      using f(1,3,4,7) False by simp_all
    ultimately have "exits {pid} s ?t" using inv sim by (intro exitsI) simp_all
    then show ?thesis using r by blast
  qed
qed

lemma exits_signal: "sup_inv s \<Longrightarrow> exits {} s (after (handleSignal sig) s)"
proof -
  assume i: "sup_inv s"
  have c: "core (after (handleSignal sig) s) = core s" using handleSignal_core by blast
  then have "sup_inv (after (handleSignal sig) s)" using i sup_inv_core by blast
  then show ?thesis using c by (rule exits_none)
qed

lemma exits_distinct:
  assumes e: "exits X s t" and d: "distinct_pids s"
  shows "distinct_pids t"
  unfolding distinct_pids_def exitsD(6,7) [OF e]
proof (intro ballI, clarsimp)
  fix k a j b assume "(k, a) \<in> set (containers t)" "(j, b) \<in> set (containers t)"
  then have "(k, a) \<in> set (containers s)" "(j, b) \<in> set (containers s)" using exitsD(2) [OF e] by blast+
  moreover assume "a \<noteq> b" "0 < InitPID (heap s a)"
  ultimately show "InitPID (heap s a) \<noteq> InitPID (heap s b) \<and> InitPID (heap s a) \<noteq> WorkloadPID (heap s b)"
    using d unfolding distinct_pids_def by fast
qed

lemma exits_trans:
  assumes 1: "exits X s t" and 2: "exits Y t u"
  shows "exits (X \<union> Y) s u"
proof (rule exitsI)
  show "sup_inv u" by (rule exitsD(1) [OF 2])
  show "set (containers u) = {(k, a) \<in> set (containers s). InitPID (heap s a) \<notin> X \<union> Y}"
    using exitsD(2) [OF 1] exitsD(2) [OF 2] exitsD(6) [OF 1] by auto
  show "similar (heap u b) (heap s b)" for b
    using exitsD(3) [OF 1] exitsD(3) [OF 2] by (meson similar_trans)
  show "map_get (sessions u) p = None" if "map_get (sessions s) p = None" for p
    using exitsD(5) [OF 2] exitsD(5) [OF 1] that by simp
  show "q \<notin> fst ` set (podNet u)" if q: "isPodEmpty q (containers s)" "q \<notin> fst ` set (podNet s)" for q
  proof -
    have "fst ` set (containers t) \<subseteq> fst ` set (containers s)" using exitsD(2) [OF 1] by force
    then have "isPodEmpty q (containers t)" using q(1) isPodEmpty_mono by blast
    then show ?thesis using exitsD(8) [OF 2] exitsD(8) [OF 1 q] by blast
  qed
  fix p assume e: "isPodEmpty p (containers u)" "\<not> isPodEmpty p (containers s)"
  have "p \<notin> fst ` set (podNet u)"
  proof (cases "isPodEmpty p (containers t)")
    case True
    then show ?thesis using exitsD(8) [OF 2 True] exitsD(4) [OF 1 True e(2)] by blast
  next
    case False
    then show ?thesis using exitsD(4) [OF 2 e(1)] by blast
  qed
  moreover have "map_get (sessions u) p = None"
  proof (cases "isPodEmpty p (containers t)")
    case True
    then show ?thesis using exitsD(5) [OF 2] exitsD(4) [OF 1 True e(2)] by simp
  next
    case False
    then show ?thesis using exitsD(4) [OF 2 e(1)] by simp
  qed
  ultimately show "p \<notin> fst ` set (podNet u) \<and> map_get (sessions u) p = None" ..
qed

lemma exits_handleEvents:
  assumes "sup_inv s" "distinct_pids s" "\<forall>ev \<in> set evs. \<forall>pid. exit_of ev = Some pid \<longrightarrow> 0 < pid"
  shows "result (handleEvents evs) s = Ret () \<and>
    exits {pid. Some pid \<in> exit_of ` set evs} s (after (handleEvents evs) s)"
  using assms
proof (induction evs arbitrary: s)
  case Nil
  then show ?case by (simp add: result_def after_def exits_none)
next
  case (Cons ev evs)
  let ?t = "after (handleEvent ev) s" and ?X = "{pid. exit_of ev = Some pid}"
  have "result (handleEvent ev) s = Ret () \<and> exits ?X s ?t"
  proof (cases ev)
    case (EventChildExit pid status)
    then show ?thesis using exits_handleExit [OF Cons.prems(1,2), of pid] Cons.prems(3) by auto
  next
    case (EventSignal sig)
    then show ?thesis using exits_signal [OF Cons.prems(1)] handleSignal_core [of sig s] by auto
  qed
  then have r: "result (handleEvent ev) s = Ret ()" and e: "exits ?X s ?t" by blast+
  have "sup_inv ?t" using e unfolding exits_def by blast
  moreover have "distinct_pids ?t" using exits_distinct [OF e Cons.prems(2)] .
  ultimately
  have IH: "result (handleEvents evs) ?t = Ret ()"
    "exits {pid. Some pid \<in> exit_of ` set evs} ?t (after (handleEvents evs) ?t)"
    using Cons.IH [of ?t] Cons.prems(3) by auto
  obtain t where run: "run_state (handleEvent ev) s = (Ret (), t)"
    using r by (cases "run_state (handleEvent ev) s") (simp add: result_def)
  then have "?t = t" by (simp add: after_def)
  then have "result (handleEvents (ev # evs)) s = Ret ()"
    "after (handleEvents (ev # evs)) s = after (handleEvents evs) ?t"
    using IH(1) run by (simp_all add: result_def after_def)
  moreover have "?X \<union> {pid. Some pid \<in> exit_of ` set evs} = {pid. Some pid \<in> exit_of ` set (ev # evs)}"
    by force
  ultimately show ?case using exits_trans [OF e IH(2)] by simp
qed

text \<open>
  C1: pods do end. When the exits of the inits of all containers of a pod are among the events
  delivered, in any order and among any others, then after handling them the pod has no
  container, no network recorded and no forward; and of all containers exactly those are gone
  whose init exited.
\<close>

theorem pod_reaped:
  assumes "reachable s" and "distinct_pids s"
    and "\<forall>ev \<in> set evs. \<forall>pid. exit_of ev = Some pid \<longrightarrow> 0 < pid"
    and "\<forall>(k, a) \<in> set (containers s). podOf k = Some p \<longrightarrow> Some (InitPID (heap s a)) \<in> exit_of ` set evs"
    and "\<not> isPodEmpty p (containers s)"
  shows "result (handleEvents evs) s = Ret () \<and>
    isPodEmpty p (containers (after (handleEvents evs) s)) \<and>
    map_get (podNet (after (handleEvents evs) s)) p = None \<and>
    map_get (sessions (after (handleEvents evs) s)) p = None \<and>
    set (containers (after (handleEvents evs) s)) =
      {(k, a) \<in> set (containers s). Some (InitPID (heap s a)) \<notin> exit_of ` set evs}"
proof -
  let ?t = "after (handleEvents evs) s"
  from exits_handleEvents [OF reachable_inv [OF assms(1)] assms(2,3)]
  have r: "result (handleEvents evs) s = Ret ()"
    and e: "exits {pid. Some pid \<in> exit_of ` set evs} s ?t" by blast+
  then have cs: "set (containers ?t) = {(k, a) \<in> set (containers s). Some (InitPID (heap s a)) \<notin> exit_of ` set evs}"
    unfolding exits_def by simp
  have "isPodEmpty p (containers ?t)"
    unfolding isPodEmpty_iff using assms(4) cs by fastforce
  moreover from this have "p \<notin> fst ` set (podNet ?t)" "map_get (sessions ?t) p = None"
    using e assms(5) unfolding exits_def by blast+
  ultimately show ?thesis using r cs by (auto simp: map_of_eq_None_iff)
qed

section \<open>Handles\<close>

text \<open>Counting up a handle that is there keeps the order of the table.\<close>

lemma map_put_present:
  "gomap_ok m \<Longrightarrow> map_get m k = Some v \<Longrightarrow> map_put k w m = map (\<lambda>(j, x). (j, if j = k then w else x)) m"
proof (induction m)
  case (Cons p m)
  obtain j x where p: "p = (j, x)" by (cases p)
  show ?case
  proof (cases "j = k")
    case True
    with Cons.prems p have "k \<notin> fst ` set m" by (simp add: gomap_ok_def)
    then have "map (\<lambda>(j, x). (j, if j = k then w else x)) m = m" by (intro map_idI) (auto simp: image_iff)
    then show ?thesis using True p by simp
  next
    case False
    then show ?thesis using Cons p by (simp add: gomap_ok_def)
  qed
qed simp

lemma takeShares_table:
  assumes "gomap_ok hs" and "\<forall>sh \<in> set shares. map_get hs (ShareType sh) \<noteq> None"
  shows "fst (takeShares hs shares) =
    map (\<lambda>(t, h). (t, h\<lparr>Ref := Ref h + int (count_list (map ShareType shares) t)\<rparr>)) hs"
  using assms
proof (induction shares arbitrary: hs)
  case (Cons sh shares)
  then obtain h where h: "map_get hs (ShareType sh) = Some h" by auto
  let ?hs = "map_put (ShareType sh) (h\<lparr>Ref := Ref h + 1\<rparr>) hs"
  have "fst (takeShares hs (sh # shares)) = fst (takeShares ?hs shares)"
    using h by (auto split: prod.split sum.split)
  also have "\<dots> = map (\<lambda>(t, h). (t, h\<lparr>Ref := Ref h + int (count_list (map ShareType shares) t)\<rparr>)) ?hs"
    using Cons.prems by (intro Cons.IH) auto
  also have "?hs = map (\<lambda>(t, x). (t, if t = ShareType sh then h\<lparr>Ref := Ref h + 1\<rparr> else x)) hs"
    by (rule map_put_present [OF Cons.prems(1) h])
  finally have e: "fst (takeShares hs (sh # shares)) =
      map (\<lambda>(t, h). (t, h\<lparr>Ref := Ref h + int (count_list (map ShareType shares) t)\<rparr>))
        (map (\<lambda>(t, x). (t, if t = ShareType sh then h\<lparr>Ref := Ref h + 1\<rparr> else x)) hs)" .
  have "x = h" if "(ShareType sh, x) \<in> set hs" for x
    using that h Cons.prems(1) by (metis map_get_Some_iff option.inject)
  then show ?case unfolding e by (auto simp: case_prod_unfold)
qed (simp add: case_prod_unfold)

lemma dropHandles_calls:
  "calls (dropHandles cid) s =
    (case map_get (Handles s) cid of None \<Rightarrow> []
     | Some owned \<Rightarrow> map (\<lambda>(t, h). FdC (Close (FD h))) (filter (\<lambda>(t, h). Ref h = 1) owned))"
  by (simp add: dropHandles_def calls_def State_Monad.update_def case_prod_unfold run_for_each_when split: option.split)

text \<open>
  C36: the references of a container's namespace handles are counted up by every share sent, and
  down once, when the container's init exits. So with handles fresh from their registration, the
  exit closes exactly the descriptors of the types that were never shared; the others stay
  open in the supervisor although the table has forgotten them.
\<close>

theorem shared_handles_stay_open:
  assumes "shares \<noteq> []" and "FromContainer (hd shares) = cid"
    and "map_get (Handles s) cid = Some hs" and "gomap_ok hs" and "\<forall>(t, h) \<in> set hs. Ref h = 1"
    and "\<forall>sh \<in> set shares. map_get hs (ShareType sh) \<noteq> None"
  shows "calls (dropHandles cid) (after (SendNamespaceFDs ipc shares) s) =
      map (\<lambda>(t, h). FdC (Close (FD h))) (filter (\<lambda>(t, h). t \<notin> ShareType ` set shares) hs) \<and>
    map_get (Handles (after (dropHandles cid) (after (SendNamespaceFDs ipc shares) s))) cid = None"
proof -
  let ?t = "after (SendNamespaceFDs ipc shares) s"
  let ?hs = "map (\<lambda>(t, h). (t, h\<lparr>Ref := Ref h + int (count_list (map ShareType shares) t)\<rparr>)) hs"
  obtain sh rest where sh: "shares = sh # rest" using assms(1) by (cases shares) auto
  have "map_get (Handles ?t) cid = Some (fst (takeShares hs shares))"
    using assms(2,3) sh
    by (auto simp: SendNamespaceFDs_def after_def split: prod.split sum.split)
  then have t: "map_get (Handles ?t) cid = Some ?hs"
    using takeShares_table [OF assms(4,6)] by simp
  have "filter (\<lambda>(t, h). Ref h + int (count_list (map ShareType shares) t) = 1) hs =
      filter (\<lambda>(t, h). t \<notin> ShareType ` set shares) hs"
    using assms(5) by (intro filter_cong) (auto simp: count_list_0_iff)
  then have "filter (\<lambda>(t, h). Ref h = 1) ?hs =
      map (\<lambda>(t, h). (t, h\<lparr>Ref := Ref h + int (count_list (map ShareType shares) t)\<rparr>))
        (filter (\<lambda>(t, h). t \<notin> ShareType ` set shares) hs)"
    by (simp add: filter_map comp_def case_prod_unfold)
  then have "calls (dropHandles cid) ?t =
      map (\<lambda>(t, h). FdC (Close (FD h))) (filter (\<lambda>(t, h). t \<notin> ShareType ` set shares) hs)"
    by (simp add: dropHandles_calls t case_prod_unfold comp_def)
  moreover have "map_get (Handles (after (dropHandles cid) ?t)) cid = None"
    using t by (simp add: after_def dropHandles_def State_Monad.update_def case_prod_unfold run_for_each_when)
  ultimately show ?thesis ..
qed

section \<open>Examples\<close>

definition boot :: app where
  "boot = os.extend quiet_os \<lparr>Handles = [], IPAlloc = ex_alloc, Subnet = Some subnet24,
     sessions = NewPortForwarder, fnext = 0, heap = (\<lambda>_. blankContainer), hnext = 0, containers = [],
     podNet = [], ParentNS = None, iface = ''eth0'', targets = [], activeID = [], lineBuf = []\<rparr>"

text \<open>A pod of one container, its init with pid 41 and its workload with pid 42.\<close>

definition ex_spec :: ContainerSpec where
  "ex_spec = DefaultSpec\<lparr>ID := ''bctor-a1'', IsNetRoot := True\<rparr>"

definition ex_container :: Container where
  "ex_container = blankContainer\<lparr>CSpec := Some ex_spec, InitPID := 41, WorkloadPID := 42,
     CState := ContainerRunning\<rparr>"

definition ex_pod :: app where
  "ex_pod = after (enterRunning ex_container ex_spec) boot"

lemma reachable_boot: "reachable boot"
  by (rule reachable.initial) (simp_all add: boot_def os.defs)

lemma reachable_ex_pod: "reachable ex_pod"
  unfolding ex_pod_def
  by (rule reachable_steps [OF _ reachable_boot]) (rule stepsD, rule steps_enterRunning, simp add: ex_container_def)

lemma ex_pod_tables:
  "containers ex_pod = [(''bctor-a1'', 0)]" "heap ex_pod 0 = ex_container" "hnext ex_pod = 1"
  by (simp_all add: ex_pod_def after_def enterRunning_def boot_def os.defs ex_spec_def)

lemma podOf_a1: "podOf ''bctor-a1'' = Some ''a''"
  by code_simp


theorem container_exit_witness:
  "\<exists>h. core (after (handleExit 41) ex_pod) = core (reaped ex_container ex_spec h ex_pod)"
proof -
  have "findContainerByPID (heap ex_pod) (containers ex_pod) 41 = Some 0"
    by (simp add: ex_pod_tables ex_container_def)
  moreover have "CSpec (heap ex_pod 0) = Some ex_spec" "InitPID (heap ex_pod 0) = 41"
    by (simp_all add: ex_pod_tables ex_container_def)
  ultimately show ?thesis
    using container_exit [OF reachable_ex_pod, of 41] by (auto simp: ex_pod_tables)
qed

theorem pod_reaped_witness:
  "\<not> isPodEmpty ''a'' (containers ex_pod) \<and>
    containers (after (handleEvents [EventChildExit 42 0, EventChildExit 41 0]) ex_pod) = []"
proof -
  have pids: "InitPID (heap ex_pod 0) = 41" by (simp add: ex_pod_tables ex_container_def)
  have p: "\<not> isPodEmpty ''a'' (containers ex_pod)"
    by (simp add: isPodEmpty_iff ex_pod_tables podOf_a1)
  have "set (containers (after (handleEvents [EventChildExit 42 0, EventChildExit 41 0]) ex_pod)) =
      {(k, a) \<in> set (containers ex_pod).
        Some (InitPID (heap ex_pod a)) \<notin> exit_of ` set [EventChildExit 42 0, EventChildExit 41 0]}"
    using pod_reaped [OF reachable_ex_pod _ _ _ p, of "[EventChildExit 42 0, EventChildExit 41 0]"] pids
    by (simp add: distinct_pids_def ex_pod_tables)
  also have "\<dots> = {}" using pids by (auto simp: ex_pod_tables)
  finally show ?thesis using p by (simp only: set_empty) simp
qed

theorem shared_handles_stay_open_witness:
  "calls (dropHandles ''bctor-a1'')
      (after (SendNamespaceFDs ex_ipc [\<lparr>ShareType = NSNet, FromContainer = ''bctor-a1''\<rparr>])
        (os.extend quiet_os \<lparr>Handles = ex_handles\<rparr>)) = [FdC (Close 31)]"
  using shared_handles_stay_open [of "[\<lparr>ShareType = NSNet, FromContainer = ''bctor-a1''\<rparr>]" "''bctor-a1''"
      "os.extend quiet_os \<lparr>Handles = ex_handles\<rparr>"
      "[(NSUser, \<lparr>HandleType = NSUser, FD = 31, Ref = 1\<rparr>), (NSNet, \<lparr>HandleType = NSUser, FD = 32, Ref = 1\<rparr>)]" ex_ipc]
  by (simp add: ex_handles_def os.defs gomap_ok_def)

end
