(* ===== verification/Locking.thy ===== *)
theory Locking
  imports Exits
begin

text \<open>
  The discipline of the mutexes: whatever the system answers, each goroutine of the supervisor
  takes them in the order of their ranks, takes none twice, and releases what it took; the
  places where a panic would end the process with a mutex held are the exception \<open>olocks\<close> allows.
\<close>

section \<open>Rules\<close>

text \<open>With no mutex held any may be taken; under the supervisor's, any other.\<close>

lemma locks_locked [lock_rules]:
  "\<forall>k \<in> set h. rank k < rank m \<Longrightarrow> locks (m # h) body (m # h) \<Longrightarrow> locks h (locked m body) h"
  unfolding locked_def by (rule lock_rules | assumption)+

lemma locks_readers [lock_rules]: "locks h (readContainer a) h" "locks h (lookupContainer cid) h"
  "locks h (writeContainer a f) h" "locks h (newContainer c) h"
  by (rule locks_skip, simp)+

text \<open>Writing the table of containers needs the supervisor's mutex.\<close>

lemma locks_writers [lock_rules]:
  "ScxMu \<in> set h \<Longrightarrow> locks h (putContainer k a) h" "ScxMu \<in> set h \<Longrightarrow> locks h (deleteContainer k) h"
  unfolding putContainer_def deleteContainer_def by (rule lock_rules | simp; fail)+

lemma locks_ret [lock_rules]: "locks h m h \<Longrightarrow> olocks h (ret m) h"
  unfolding ret_def by (rule lock_rules | assumption)+

lemma olocks_return: "locks h m h \<Longrightarrow> olocks h (m \<bind> (\<lambda>x. return (g x))) h"
  by (rule olocks_of_locks) (rule lock_rules | assumption)+

lemma olocks_any [lock_rules]: "olocks h (return r) h"
  by (rule olocks_of_locks) (rule lock_rules)

lemma locks_objects [lock_rules]: "locks h (setIPC a ipc) h" "locks h (freeKeepAlive a) h"
  unfolding setIPC_def freeKeepAlive_def by (rule lock_rules)+

section \<open>Under the supervisor's mutex or none\<close>

lemma locks_alloc [lock_rules]:
  "\<forall>k \<in> set h. rank k < 1 \<Longrightarrow> locks h Allocate h" "\<forall>k \<in> set h. rank k < 1 \<Longrightarrow> locks h (Release ip) h"
  unfolding Allocate_def Release_def by (rule lock_rules | simp)+

lemma locks_cleanup [lock_rules]: "\<forall>k \<in> set h. rank k < 1 \<Longrightarrow> locks h (CleanupContainerNetworking res) h"
  unfolding CleanupContainerNetworking_def by (rule lock_rules | simp)+

lemma locks_NetworkConfig [lock_rules]: "\<forall>k \<in> set h. rank k < 1 \<Longrightarrow> olocks h (NetworkConfig fd spec) h"
  unfolding NetworkConfig_def
  by (rule lock_rules olocks_of_locks [OF locks_alloc(1)] | rule locks_quiet, rule quiet_rules | simp)+

lemma locks_forwarder [lock_rules]:
  "\<forall>k \<in> set h. rank k < 1 \<Longrightarrow> locks h (AddSession pod hp cp pid) h"
  "\<forall>k \<in> set h. rank k < 1 \<Longrightarrow> locks h (CleanupForward pod) h"
  "\<forall>k \<in> set h. rank k < 1 \<Longrightarrow> locks h (ListPorts pod) h"
  unfolding AddSession_def CleanupForward_def ListPorts_def Let_def
  by (rule lock_rules | rule locks_quiet, rule quiet_rules | simp)+

lemma locks_Register [lock_rules]: "\<forall>k \<in> set h. rank k < 1 \<Longrightarrow> locks h (Register cid pty pid) h"
  unfolding Register_def by (rule lock_rules | simp)+

section \<open>Starting\<close>

lemma locks_sections [lock_rules]:
  "locks [] (enterCreated spec pid) []" "locks [] (enterRunning c spec) []" "locks [] (enterPlaceholder name) []"
  "olocks [] (reenterContainer a) []"
  unfolding enterCreated_def enterRunning_def enterPlaceholder_def reenterContainer_def
  by (rule lock_rules | simp)+

lemma locks_handles [lock_rules]:
  "locks [] (RegisterNamespaceHandles cid fds) []" "locks [] (SendNamespaceFDs ipc shares) []"
proof -
  show "locks [] (RegisterNamespaceHandles cid fds) []"
    unfolding locks_def by (simp add: RegisterNamespaceHandles_def Let_def)
  show "locks [] (SendNamespaceFDs ipc shares) []"
    unfolding locks_def by (auto simp: SendNamespaceFDs_def split: list.split option.split prod.split sum.split)
qed

lemma locks_recvCreated [lock_rules]: "locks [] (recvCreated spec ipc) []"
  unfolding recvCreated_def by (rule lock_rules | rule locks_quiet, rule quiet_rules)+

lemma locks_handshake [lock_rules]: "locks [] (handshakeWithInit spec pid ipc) []"
  unfolding handshakeWithInit_def by (rule lock_rules | rule locks_quiet, rule quiet_rules | simp)+

lemma olocks_setupNet [lock_rules]: "olocks [] (setupNet spec ipc created) []"
  unfolding setupNet_def by (rule lock_rules | simp)+

lemma olocks_FinalizeContainer [lock_rules]: "olocks [] (FinalizeContainer pid spec ipc) []"
  unfolding FinalizeContainer_def by (rule olocks_quiet [OF quiet_fds(5)] lock_rules | simp)+

lemma olocks_StartContainer [lock_rules]: "olocks [] (StartContainer spec ipcp) []"
  unfolding StartContainer_def
  by (rule olocks_quiet [OF quiet_RunContainerInit] olocks_quiet [OF quiet_sup(7)] lock_rules
      | rule locks_quiet, rule quiet_rules | simp)+

lemma olocks_creators [lock_rules]:
  "olocks [] (StartCreator letter md prof ipcp) []" "olocks [] (StartCreatorBatch letter cmd ipcp) []"
  unfolding StartCreator_def StartCreatorBatch_def Let_def
  by (rule lock_rules | rule locks_quiet, rule quiet_rules | simp)+

lemma olocks_joiners [lock_rules]:
  "olocks [] (StartJoiner root name md prof ipcp) []" "olocks [] (StartJoinerBatch root name cmd ipcp) []"
  unfolding StartJoiner_def StartJoinerBatch_def Let_def
  by (rule lock_rules | rule locks_quiet, rule quiet_rules | simp)+

section \<open>The reaper\<close>

lemma locks_reapParts [lock_rules]:
  "locks h (dropHandles cid) h" "locks h (recordNet pod net) h" "locks h (reapWorkload a spec) h"
  "locks h (releaseLastNetRootKeepAlive pod) h"
  unfolding dropHandles_def recordNet_def reapWorkload_def releaseLastNetRootKeepAlive_def
  by (rule lock_rules locks_update | simp)+

lemma locks_cleanPod [lock_rules]: "\<forall>k \<in> set h. rank k < 1 \<Longrightarrow> locks h (cleanPod pod) h"
  unfolding cleanPod_def by (rule lock_rules locks_update | simp)+

lemma locks_reapInit [lock_rules]:
  "ScxMu \<in> set h \<Longrightarrow> \<forall>k \<in> set h. rank k < 1 \<Longrightarrow> locks h (reapInit a spec pid) h"
  unfolding reapInit_def Let_def by (rule lock_rules | simp)+

lemma olocks_handleEvent [lock_rules]: "olocks [] (handleEvent ev) []"
proof -
  have "olocks [] (handleExit pid) []" for pid
    unfolding handleExit_def by (rule lock_rules | simp)+
  moreover have "olocks [] (handleSignal sig) []" for sig
    unfolding handleSignal_def by (rule lock_rules | simp)+
  ultimately show ?thesis by (cases ev) simp_all
qed

lemma olocks_handleEvents [lock_rules]: "olocks [] (handleEvents evs) []"
  by (induction evs) (auto intro!: lock_rules)

section \<open>The commands\<close>

lemma locks_RefreshPrompt [lock_rules]: "locks h RefreshPrompt h"
  unfolding RefreshPrompt_def by (rule lock_rules | simp)+

lemma locks_d_forward [lock_rules]: "locks [] (d_forward input) []"
  unfolding d_forward_def Let_def by (rule lock_rules | rule locks_quiet, rule quiet_rules | simp)+

lemma locks_names [lock_rules]: "olocks [] GetNextPodLetter []" "locks [] (GetNextContainerIndex letter) []"
proof -
  have "locks [] (GetNextPodLetter :: ('a app_scheme, _) state) []"
    unfolding GetNextPodLetter_def by (rule lock_rules | simp)+
  then show "olocks [] (GetNextPodLetter :: ('a app_scheme, _) state) []" by (rule olocks_of_locks)
  show "locks [] (GetNextContainerIndex letter) []"
    unfolding GetNextContainerIndex_def by (rule lock_rules | simp)+
qed

lemma olocks_runIn [lock_rules]: "olocks [] (runIn letter joiner parts) []"
  unfolding runIn_def Let_def
  by (rule olocks_quiet [OF quiet_commands(4)] lock_rules | rule locks_quiet, rule quiet_rules | simp)+

lemma olocks_d_run [lock_rules]: "olocks [] (d_run input) []"
  unfolding d_run_def newLetter_def Let_def
  by (rule olocks_quiet [OF quiet_commands(4)] lock_rules | simp)+

lemma locks_joinMany [lock_rules]: "locks [] (joinMany n root letter) []"
  by (induction n) (auto simp: Let_def intro!: lock_rules locks_quiet [OF quiet_sup(3)])

lemma olocks_d_new [lock_rules]: "olocks [] (d_new input) []"
  unfolding d_new_def newCreator_def newJoiners_def newLetter_def Let_def
  by (rule lock_rules | rule locks_quiet, rule quiet_rules | simp)+

lemma locks_killSection [lock_rules]: "locks h (killSection targetID) h"
  unfolding killSection_def Let_def by (rule lock_rules | simp)+

lemma locks_killAttempts [lock_rules]: "locks [] (killAttempts k targetID) []"
  by (induction k) (auto intro!: lock_rules)

lemma locks_killAll [lock_rules]: "locks [] (killAll ids) []"
  by (induction ids) (auto simp: killOneWithRetry_def intro!: lock_rules)

lemma locks_killRounds [lock_rules]: "locks [] (killRounds k letter) []"
  by (induction k) (auto intro!: lock_rules)

lemma locks_d_kill [lock_rules]: "locks [] (d_kill input) []"
  unfolding d_kill_def killContainer_def killOneWithRetry_def Let_def
  by (rule lock_rules | rule locks_quiet, rule quiet_rules | simp)+

lemma locks_podLines [lock_rules]: "locks [] (podLines pods counts living) []"
  by (induction pods) (auto intro!: lock_rules)

lemma locks_d_list [lock_rules]: "locks [] (d_list input) []"
  unfolding d_list_def listPods_def Let_def
  by (rule lock_rules | rule locks_quiet, rule quiet_rules | simp)+

lemma locks_d_attach [lock_rules]: "locks [] (d_attach input) []"
  unfolding d_attach_def attachSection_def Let_def
  by (rule lock_rules locks_update | rule locks_quiet, rule quiet_rules | simp)+

lemma locks_execSection [lock_rules]: "locks h (execSection cid) h"
  unfolding execSection_def by (rule lock_rules | rule locks_quiet, rule quiet_rules | simp)+

lemma locks_case_exec [lock_rules]:
  "locks h m h' \<Longrightarrow> locks h n h' \<Longrightarrow> locks h d h' \<Longrightarrow> locks h (case r of RunIt \<Rightarrow> m | NotRunning \<Rightarrow> n | Dead \<Rightarrow> d) h'"
  by (simp split: exec_check.split)

lemma locks_d_exec [lock_rules]: "locks [] (d_exec input) []"
  unfolding d_exec_def Let_def by (rule lock_rules | rule locks_quiet, rule quiet_rules | simp)+

lemma olocks_d_exit [lock_rules]: "olocks [] d_exit []"
  unfolding d_exit_def by (rule lock_rules | rule locks_quiet, rule quiet_rules | simp)+

lemma olocks_Dispatch [lock_rules]: "olocks [] (Dispatch line) []"
proof -
  have q: "locks [] (d_clear :: ('a app_scheme, _) state) []" "locks [] (d_help :: ('a app_scheme, _) state) []"
    "locks [] (printf fmt args :: ('a app_scheme, _) state) []" for fmt args
    by (rule locks_quiet, rule quiet_rules)+
  show "olocks [] (Dispatch line :: ('a app_scheme, _) state) []"
    unfolding Dispatch_def Let_def
    by (cases "classify (TrimSpace line)"; simp only: command.case; (rule lock_rules q)+)
qed

section \<open>Input\<close>

lemma locks_mux [lock_rules]: "locks [] GetActiveID []" "locks [] (muxWrite cid data) []" "locks h (setLineBuf b) h" "locks [] detach []"
  unfolding GetActiveID_def muxWrite_def setLineBuf_def detach_def Let_def
  by (rule lock_rules locks_update | rule locks_quiet, rule quiet_rules | simp)+

lemma locks_pipeLoop [lock_rules]: "locks [] (pipeLoop n cid pty) []"
  by (induction n) (auto intro!: lock_rules)

lemma locks_pipeOutput [lock_rules]: "locks [] (pipeOutput n cid) []"
  unfolding pipeOutput_def by (rule lock_rules | simp)+

lemma olocks_enterLine [lock_rules]: "olocks [] enterLine []"
  unfolding enterLine_def Let_def by (rule lock_rules | simp)+

lemma olocks_handleSupervisorInput [lock_rules]: "olocks [] (handleSupervisorInput bs) []"
  by (induction bs) (auto intro!: lock_rules locks_quiet [OF quiet_sup(4)])

lemma olocks_handleInput [lock_rules]: "olocks [] (handleInput buf) []"
  unfolding handleInput_def by (rule lock_rules | simp)+

section \<open>The other goroutines\<close>

lemma olocks_inputLoop [lock_rules]: "olocks [] (inputLoop n) []"
  by (induction n) (auto intro!: lock_rules)

lemma olocks_RunLoop [lock_rules]: "olocks [] (RunLoop n) []"
  unfolding RunLoop_def by (rule lock_rules | rule locks_quiet, rule quiet_rules | (simp; fail))+

lemma olocks_deferring:
  assumes d: "quiet d" and m: "olocks h m h'"
  shows "olocks h (deferring d m) h'"
  unfolding olocks_def
proof
  fix s
  from m obtain cs k where 1: "trace (snd (run_state m s)) = trace s @ cs" "held h cs = Some k"
    "is_Ret (fst (run_state m s)) \<longrightarrow> k = h'"
    unfolding olocks_def by blast
  from locks_quiet [OF d, of k] obtain ds where
    2: "trace (snd (run_state d (snd (run_state m s)))) = trace (snd (run_state m s)) @ ds" "held k ds = Some k"
    unfolding locks_def by blast
  from 1 2 show "\<exists>cs k. trace (snd (run_state (deferring d m) s)) = trace s @ cs \<and> held h cs = Some k \<and>
      (is_Ret (fst (run_state (deferring d m) s)) \<longrightarrow> k = h')"
    by (intro exI [of _ "cs @ ds"] exI [of _ k]) (simp add: deferring_def held_append case_prod_unfold)
qed

lemma olocks_OnContainerExit [lock_rules]: "olocks [] (OnContainerExit evs) []"
  unfolding OnContainerExit_def
  by (rule olocks_deferring) (rule lock_rules locks_update | rule quiet_rules | (simp; fail))+

lemma locks_showMsgs [lock_rules]: "locks [] (showMsgs GetActiveID RefreshPrompt msgs) []"
  by (induction msgs) (auto simp: showMsg_def Let_def intro!: lock_rules)

lemma locks_logger [lock_rules]: "locks [] (StartGlobalLogger GetActiveID RefreshPrompt msgs) []"
  unfolding StartGlobalLogger_def by (rule lock_rules | (simp; fail))+

lemma olocks_main: "olocks [] main []"
  unfolding main_def Setup_def Let_def
  by (rule lock_rules locks_update | rule locks_quiet, rule quiet_rules | (simp add: emptyApp_def; fail))+

text \<open>
  C2: no goroutine of the supervisor can block another for ever on its mutexes, and none writes the
  table of containers unprotected. Whatever the system answers, every goroutine (the start-up, the input loop
  with the commands, the starts of joiners, the handling of exits, the logger, the captures, the
  copying of a terminal's output, the reaper, the forwards) takes the supervisor's mutex before any
  other and at most one other at a time, never one it holds, writes the table only with the
  supervisor's mutex held, and holds none when it returns.
\<close>

theorem lock_discipline:
  "olocks [] (main :: ('z app_scheme, _) state) [] \<and>
   olocks [] (RunLoop n :: ('z app_scheme, _) state) [] \<and>
   olocks [] (handleInput buf :: ('z app_scheme, _) state) [] \<and>
   olocks [] (StartJoiner root name md prof ipcp :: ('z app_scheme, _) state) [] \<and>
   olocks [] (StartJoinerBatch root name cmd ipcp :: ('z app_scheme, _) state) [] \<and>
   olocks [] (OnContainerExit evs :: ('z app_scheme, _) state) [] \<and>
   locks [] (StartGlobalLogger GetActiveID RefreshPrompt msgs :: ('z app_scheme, _) state) [] \<and>
   locks [] (CaptureLogs n cid rfd wfd lmd :: ('z app_scheme, _) state) [] \<and>
   locks [] (pipeOutput n cid :: ('z app_scheme, _) state) [] \<and>
   locks [] (reaperLoop n :: ('z app_scheme, _) state) [] \<and>
   locks [] (stopListener l :: ('z app_scheme, _) state) [] \<and>
   locks [] (acceptLoop n pid l port :: ('z app_scheme, _) state) [] \<and>
   locks [] (handleForwardConn pid conn port :: ('z app_scheme, _) state) []"
  by (intro conjI) (rule lock_rules olocks_main locks_quiet [OF quiet_goroutines(1)]
    locks_quiet [OF quiet_goroutines(2)] locks_quiet [OF quiet_goroutines(3)]
    locks_quiet [OF quiet_goroutines(4)] locks_quiet [OF quiet_goroutines(5)])+

end
