(* ===== verification/Starting.thy ===== *)
theory Starting
  imports Exits
begin

text \<open>
  What starting a container does: \<open>StartCreator\<close> enters the new pod in the tables and leaves all else
  alone, and a joiner's init ends up in the namespaces of its pod's root, from the supervisor's
  table of handles over the message to the calls of the joiner.
\<close>

section \<open>Parts of a start\<close>

text \<open>The table of handles with the descriptors received for a container entered.\<close>

definition registered :: "string \<Rightarrow> (NamespaceType, int) gomap \<Rightarrow> (string, handle_map) gomap \<Rightarrow> (string, handle_map) gomap" where
  "registered cid fds H = map_put cid
     (foldl (\<lambda>m (ns, fd). map_put ns \<lparr>HandleType = NSUser, FD = fd, Ref = 1\<rparr> m)
       (case map_get H cid of None \<Rightarrow> [] | Some hs \<Rightarrow> hs) fds) H"

text \<open>What a start does to the addresses in use: the new pod's network has one that was free, if it has a network.\<close>

definition leased :: "IPAllocator \<Rightarrow> IPAllocator \<Rightarrow> NetResources option \<Rightarrow> bool" where
  "leased old new netres \<longleftrightarrow> alloc_ok new \<and>
     (case netres of None \<Rightarrow> ips_in_use new = ips_in_use old
      | Some res \<Rightarrow> \<exists>ip. leaseOf res ip \<and> ip \<notin> ips_in_use old \<and> ips_in_use new = insert ip (ips_in_use old))"

text \<open>The answer to the question for the namespaces' descriptors, as \<open>FinalizeContainer\<close> reads it.\<close>

definition fdsOf :: "err + string \<times> control \<Rightarrow> (NamespaceType, int) gomap option" where
  "fdsOf r = (case r of Inl _ \<Rightarrow> None | Inr (data, ctl) \<Rightarrow>
     (case decodeCreated data ctl of Inl _ \<Rightarrow> None | Inr fds \<Rightarrow> Some fds))"

definition given :: "(NamespaceType, int) gomap option \<Rightarrow> (NamespaceType, int) gomap" where
  "given r = (case r of None \<Rightarrow> [] | Some fds \<Rightarrow> fds)"

definition handlesAfter :: "string \<Rightarrow> (NamespaceType, int) gomap option \<Rightarrow> (string, handle_map) gomap \<Rightarrow> (string, handle_map) gomap" where
  "handlesAfter cid r H = (case r of None \<Rightarrow> H | Some fds \<Rightarrow> registered cid fds H)"

abbreviation pidRequest :: "IPC \<Rightarrow> call" where "pidRequest ipc \<equiv> FdC (Recvmsg (fst (Init2Sup ipc)) 4)"
abbreviation fdsRequest :: "IPC \<Rightarrow> call" where "fdsRequest ipc \<equiv> FdC (Recvmsg (fst (Init2Sup ipc)) 256)"

lemma leased_same: "alloc_ok a \<Longrightarrow> leased a a None"
  by (simp add: leased_def)

lemma run_recvCreated:
  fixes s :: "'z app_scheme"
  assumes "createsAnyNamespace spec" and "r = fdsOf (o_msg s (trace s) (fdsRequest ipc))"
  shows "\<exists>cs. run_state (recvCreated spec ipc) s =
    (given r, with_calls (fdsRequest ipc # cs) (s\<lparr>Handles := handlesAfter (ID spec) r (Handles s)\<rparr>))"
  using assms
  by (auto simp: recvCreated_def RecvCreatedNamespaceFDs_def fdsOf_def given_def handlesAfter_def registered_def
      RegisterNamespaceHandles_def Let_def emit_def with_calls_def split: sum.split prod.split)

lemma run_setupNet:
  fixes s :: "'z app_scheme"
  assumes ok: "alloc_ok (IPAlloc s)"
  obtains netres cs al where
    "run_state (setupNet spec ipc created) s = (Ret netres, with_calls cs (s\<lparr>IPAlloc := al\<rparr>))"
    "leased (IPAlloc s) al netres" "IsNetRoot spec \<or> netres = None"
proof (cases "\<exists>fd. IsNetRoot spec \<and> map_get created NSNet = Some fd \<and> fd \<noteq> 0")
  case True
  then obtain fd where fd: "IsNetRoot spec" "map_get created NSNet = Some fd" "fd \<noteq> 0" by blast
  from NetworkConfig_run [OF ok, of fd spec] obtain r cs al where
    run: "run_state (NetworkConfig fd spec) s = (Ret r, with_calls cs (s\<lparr>IPAlloc := al\<rparr>))"
    and l: "leased (IPAlloc s) al r"
    by (fastforce simp: net_step_def leased_def split: option.splits)
  show thesis
    by (cases r; rule that [OF _ l]) (use fd run in \<open>simp_all add: setupNet_def emit_with_calls\<close>)
next
  case False
  then have "\<exists>cs. run_state (setupNet spec ipc created) s = (Ret None, with_calls cs (s\<lparr>IPAlloc := IPAlloc s\<rparr>))"
    by (auto simp: setupNet_def emit_with_calls intro: exI [of _ "[]"] split: option.split)
  then show thesis using that leased_same [OF ok] by blast
qed

section \<open>Started containers\<close>

text \<open>
  The object of a container that runs: with the pid of its init, the workload's pid and the namespaces'
  descriptors that the init reported.
\<close>

definition startedAs :: "ContainerSpec \<Rightarrow> int \<Rightarrow> int \<Rightarrow> (NamespaceType, int) gomap option \<Rightarrow> NetResources option \<Rightarrow> Container" where
  "startedAs spec pid wpid r netres = \<lparr>CSpec = Some spec, InitPID = pid, WorkloadPID = wpid,
     CState = ContainerRunning, CNamespaces = handlesOf (given r), CNet = netres, CIPC = None\<rparr>"

text \<open>The tables with a new object entered under its name, the handles received and the addresses as they are then.\<close>

definition entered :: "ContainerSpec \<Rightarrow> Container \<Rightarrow> (NamespaceType, int) gomap option \<Rightarrow> IPAllocator \<Rightarrow> 'z app_scheme \<Rightarrow> 'z app_scheme" where
  "entered spec c r al s = s\<lparr>heap := (heap s)(hnext s := c), hnext := Suc (hnext s),
     containers := map_put (ID spec) (hnext s) (containers s), Handles := handlesAfter (ID spec) r (Handles s),
     IPAlloc := al\<rparr>"

text \<open>\<open>reports ipc s cs wpid r\<close>: among the calls \<open>cs\<close> made from \<open>s\<close>, the init told the pid \<open>wpid\<close> and then the descriptors \<open>r\<close>.\<close>

definition reports :: "IPC \<Rightarrow> 'z os_scheme \<Rightarrow> call list \<Rightarrow> int \<Rightarrow> (NamespaceType, int) gomap option \<Rightarrow> bool" where
  "reports ipc s cs wpid r \<longleftrightarrow> (\<exists>pre post data ctl. cs = pre @ pidRequest ipc # fdsRequest ipc # post \<and>
     o_msg s (trace s @ pre) (pidRequest ipc) = Inr (data, ctl) \<and> 4 \<le> length data \<and> wpid = int (Uint32 (take 4 data)) \<and>
     r = fdsOf (o_msg s (trace s @ pre @ [pidRequest ipc]) (fdsRequest ipc)))"

lemma FinalizeContainer_run:
  fixes s :: "'z app_scheme"
  assumes ok: "alloc_ok (IPAlloc s)" and c: "createsAnyNamespace spec"
    and ret: "result (FinalizeContainer pid spec ipc) s = Ret a"
  obtains cs wpid r netres al where "reports ipc s cs wpid r" "leased (IPAlloc s) al netres" "a = hnext s"
    "run_state (FinalizeContainer pid spec ipc) s =
      (Ret a, with_calls cs (entered spec (startedAs spec pid wpid r netres) r al s))"
proof -
  from ret obtain data ctl where m: "o_msg s (trace s) (pidRequest ipc) = Inr (data, ctl)" "4 \<le> length data"
    by (cases "o_msg s (trace s) (pidRequest ipc)")
      (auto simp: FinalizeContainer_def RecvWorkloadPID_def result_def Let_def min_def split: if_splits)
  let ?s1 = "emit (pidRequest ipc) s"
  define r where "r = fdsOf (o_msg s (trace s @ [pidRequest ipc]) (fdsRequest ipc))"
  from run_recvCreated [OF c, of r ?s1 ipc] obtain cs1 where
    1: "run_state (recvCreated spec ipc) ?s1 = (given r, with_calls (fdsRequest ipc # cs1) (?s1\<lparr>Handles := handlesAfter (ID spec) r (Handles s)\<rparr>))"
    by (auto simp: r_def emit_def)
  let ?s2 = "with_calls (fdsRequest ipc # cs1) (?s1\<lparr>Handles := handlesAfter (ID spec) r (Handles s)\<rparr>)"
  have "alloc_ok (IPAlloc ?s2)" using ok by simp
  then obtain netres cs2 al where
    2: "run_state (setupNet spec ipc (given r)) ?s2 = (Ret netres, with_calls cs2 (?s2\<lparr>IPAlloc := al\<rparr>))"
    and l: "leased (IPAlloc s) al netres"
    by (rule run_setupNet) simp
  have "\<exists>cs3. run_state (FinalizeContainer pid spec ipc) s = (Ret (hnext s),
      with_calls (pidRequest ipc # fdsRequest ipc # cs3)
        (entered spec (startedAs spec pid (int (Uint32 (take 4 data))) r netres) r al s))"
    using m 1 2
    by (intro exI [of _ "cs1 @ cs2 @ [UiC (Lock ScxMu), UiC (TableWrite (ID spec)), UiC (Unlock ScxMu),
        FdC (Close (fst (Init2Sup ipc))), FdC (Close (fst (Sup2Init ipc)))]"])
      (simp add: FinalizeContainer_def RecvWorkloadPID_def Let_def enterRunning_def startedAs_def entered_def emit_def with_calls_def)
  then obtain cs3 where 3: "run_state (FinalizeContainer pid spec ipc) s = (Ret (hnext s),
      with_calls (pidRequest ipc # fdsRequest ipc # cs3)
        (entered spec (startedAs spec pid (int (Uint32 (take 4 data))) r netres) r al s))" ..
  have "reports ipc s (pidRequest ipc # fdsRequest ipc # cs3) (int (Uint32 (take 4 data))) r"
    unfolding reports_def r_def using m by (intro exI [of _ "[]"] exI [of _ cs3] exI [of _ data] exI [of _ ctl]) simp
  with that l 3 ret show thesis by (simp add: result_def)
qed

text \<open>The parent's side of \<open>StartContainer\<close> for a specification that shares nothing.\<close>

lemma run_handshake:
  assumes "Shares spec = []"
  obtains e cs where "run_state (handshakeWithInit spec pid ipc) s = (e, with_calls cs s)"
proof -
  have "quiet (handshakeWithInit spec pid ipc)"
    unfolding handshakeWithInit_def using assms by (simp only: simp_thms if_False) (rule quiet_rules | simp)+
  then show thesis using that appends_run [OF quiet_appends] by blast
qed

lemma reports_within:
  assumes "reports ipc (with_calls bs t) cs wpid r" "o_msg t = o_msg s" "trace t = trace s"
  shows "reports ipc s (bs @ cs @ ds) wpid r"
proof -
  from assms(1) obtain pre post data ctl where c: "cs = pre @ pidRequest ipc # fdsRequest ipc # post"
    "o_msg t (trace t @ bs @ pre) (pidRequest ipc) = Inr (data, ctl)" "4 \<le> length data" "wpid = int (Uint32 (take 4 data))"
    "r = fdsOf (o_msg t (trace t @ bs @ pre @ [pidRequest ipc]) (fdsRequest ipc))"
    by (auto simp: reports_def)
  then show ?thesis
    unfolding reports_def using assms(2,3) by (intro exI [of _ "bs @ pre"] exI [of _ "post @ ds"] exI [of _ data] exI [of _ ctl]) simp
qed

text \<open>The object entered at the fork stays behind in the heap; its name goes to the finished one.\<close>

definition forked :: "ContainerSpec \<Rightarrow> int \<Rightarrow> 'z app_scheme \<Rightarrow> 'z app_scheme" where
  "forked spec pid s = s\<lparr>heap := (heap s)(hnext s := blankContainer\<lparr>CSpec := Some spec, InitPID := pid, CState := ContainerCreated\<rparr>),
     hnext := Suc (hnext s), containers := map_put (ID spec) (hnext s) (containers s)\<rparr>"

lemma StartContainer_run:
  fixes s :: "'z app_scheme"
  assumes f: "o_int s (trace s) (PrC Fork) = Inr pid" "pid \<noteq> 0" and n: "Shares spec = []" "createsAnyNamespace spec"
    and ok: "alloc_ok (IPAlloc s)" and ret: "result (StartContainer spec (Some ipc)) s = Ret x"
  shows "case x of
      Inl e \<Rightarrow> \<exists>cs. run_state (StartContainer spec (Some ipc)) s = (Ret x, with_calls cs s)
    | Inr a \<Rightarrow> \<exists>cs wpid r netres al. reports ipc s cs wpid r \<and> leased (IPAlloc s) al netres \<and> a = Suc (hnext s) \<and>
        run_state (StartContainer spec (Some ipc)) s =
          (Ret x, with_calls cs (entered spec (startedAs spec pid wpid r netres) r al (forked spec pid s)))"
proof -
  obtain e bs where h: "run_state (handshakeWithInit spec pid ipc) (emit (PrC Fork) s) = (e, with_calls bs (emit (PrC Fork) s))"
    by (rule run_handshake [OF n(1)])
  show ?thesis
  proof (cases e)
    case (Some err)
    then have "run_state (StartContainer spec (Some ipc)) s = (Ret (Inl err), with_calls (PrC Fork # bs) s)"
      using f h by (simp add: StartContainer_def)
    then show ?thesis using ret by (auto simp: result_def)
  next
    case None
    let ?bs = "PrC Fork # bs @ [FdC (Close (snd (Sup2Init ipc))), UiC (Lock ScxMu), UiC (TableWrite (ID spec)), UiC (Unlock ScxMu)]"
    let ?s2 = "with_calls ?bs (forked spec pid s)"
    have r: "run_state (StartContainer spec (Some ipc)) s =
        run_state (obind (FinalizeContainer pid spec ipc) (\<lambda>a. return (Ret (Inr a)))) ?s2"
      using f h None by (simp add: StartContainer_def enterCreated_def forked_def emit_def with_calls_def)
    have ok2: "alloc_ok (IPAlloc ?s2)" using ok by (simp add: forked_def)
    obtain a where a: "result (FinalizeContainer pid spec ipc) ?s2 = Ret a" "x = Inr a"
      using r ret by (cases "fst (run_state (FinalizeContainer pid spec ipc) ?s2)") (auto simp: result_def case_prod_unfold)
    obtain cs wpid r netres al where
      1: "reports ipc ?s2 cs wpid r" "leased (IPAlloc ?s2) al netres" "a = hnext ?s2"
      "run_state (FinalizeContainer pid spec ipc) ?s2 = (Ret a, with_calls cs (entered spec (startedAs spec pid wpid r netres) r al ?s2))"
      by (rule FinalizeContainer_run [OF ok2 n(2) a(1)])
    have "reports ipc s (?bs @ cs @ []) wpid r"
      by (rule reports_within [OF 1(1)]) (simp_all add: forked_def)
    moreover have "leased (IPAlloc s) al netres" "a = Suc (hnext s)" using 1(2,3) by (simp_all add: forked_def)
    moreover have "run_state (StartContainer spec (Some ipc)) s = (Ret x,
        with_calls (?bs @ cs) (entered spec (startedAs spec pid wpid r netres) r al (forked spec pid s)))"
      unfolding r using 1(4) a(2) by (simp add: entered_def with_calls_def)
    ultimately show ?thesis
      unfolding a(2) sum.case append_Nil2 by (intro exI [of _ "?bs @ cs"] exI conjI) assumption+
  qed
qed

text \<open>What \<open>StartCreator\<close> makes of the end of \<open>StartContainer\<close>.\<close>

abbreviation creatorLog :: "string \<Rightarrow> call" where
  "creatorLog letter \<equiv> UiC (Log TypeInfo ''Container %s=Creator'' [ArgS (containerID letter 1)])"

lemma creatorSpec_simps:
  "ID (creatorSpec l m p) = containerID l 1" "Shares (creatorSpec l m p) = []" "createsAnyNamespace (creatorSpec l m p)"
  by (simp_all add: creatorSpec_def DefaultSpec_def createsAnyNamespace_def Let_def)

lemma StartCreator_fails:
  assumes "run_state (StartContainer (creatorSpec letter runMode prof) (Some ipc)) (with_calls [creatorLog letter] s) = (r, t)"
    and "\<forall>a. r \<noteq> Ret (Inr a)"
  shows "run_state (StartCreator letter runMode prof (Some ipc)) s = (r, t)"
  using assms
  by (cases r) (auto simp: StartCreator_def Let_def LogInfo_def emit_with_calls creatorSpec_simps split: sum.splits)

lemma StartCreator_finishes:
  fixes s :: "'z app_scheme"
  assumes "run_state (StartContainer (creatorSpec letter runMode prof) (Some ipc)) (with_calls [creatorLog letter] s) = (Ret (Inr a), t)"
  obtains ds where "run_state (StartCreator letter runMode prof (Some ipc)) s = (Ret (Inr a), with_calls ds (t\<lparr>heap :=
      (heap t)(a := (heap t a)\<lparr>CIPC := Some ipc\<rparr>),
      targets := map_put (containerID letter 1) \<lparr>PTY = Some (PtyMaster ipc), TPID = WorkloadPID (heap t a)\<rparr> (targets t)\<rparr>))"
proof -
  define cs where "cs = (if Mode (Workload (creatorSpec letter runMode prof)) = ModeBatch
      then [UiC WgAdd, UiC (Spawn ''CaptureLogs'' [ArgS (containerID letter 1), ArgI (fst (Log2Sup ipc)), ArgI (snd (Log2Sup ipc))])]
      else [FdC (Close (snd (Log2Sup ipc)))])"
  show thesis
    by (rule that [of "cs @ [FdC (Close (PtySlave ipc)), UiC (Lock MuxMu), UiC (Unlock MuxMu), UiC (Spawn ''pipeOutput'' [ArgS (containerID letter 1)])]"])
      (use assms in \<open>simp add: cs_def StartCreator_def Let_def LogInfo_def emit_def with_calls_def creatorSpec_simps
        setIPC_def Register_def spawnCapture_def State_Monad.update_def\<close>)
qed

text \<open>
  C6: a pod that \<open>StartCreator\<close> reports as started is entered in full: under its own name stands one
  new object, running, with the specification, the pid of the fork, the workload's pid and the descriptors of the
  namespaces that its init reported, and the descriptors it talks over; the descriptors are in the table of
  handles under its name; an address that was free is in use if it has a network; and the
  multiplexer has its terminal and its workload's pid. Every object made before, every
  other entry and every other field of the state is as it was. If it reports an error, the whole state is as it was.
\<close>

theorem creator_started:
  fixes s :: "'z app_scheme"
  assumes "\<And>t. o_int s t (PrC Fork) = Inr pid" and "pid \<noteq> 0" and "alloc_ok (IPAlloc s)"
  shows "case result (StartCreator letter runMode prof (Some ipc)) s of
      Ret (Inl e) \<Rightarrow> core (after (StartCreator letter runMode prof (Some ipc)) s) = core s
    | Ret (Inr a) \<Rightarrow> \<exists>c c0 wpid r netres al.
        reports ipc s (calls (StartCreator letter runMode prof (Some ipc)) s) wpid r \<and>
        c = (startedAs (creatorSpec letter runMode prof) pid wpid r netres)\<lparr>CIPC := Some ipc\<rparr> \<and>
        leased (IPAlloc s) al netres \<and> a = Suc (hnext s) \<and>
        core (after (StartCreator letter runMode prof (Some ipc)) s) = core (s\<lparr>heap := (heap s)(hnext s := c0, a := c),
          hnext := Suc a, containers := map_put (containerID letter 1) a (containers s),
          Handles := handlesAfter (containerID letter 1) r (Handles s), IPAlloc := al,
          targets := map_put (containerID letter 1) \<lparr>PTY = Some (PtyMaster ipc), TPID = wpid\<rparr> (targets s)\<rparr>)
    | _ \<Rightarrow> True"
proof -
  let ?spec = "creatorSpec letter runMode prof" and ?m = "StartCreator letter runMode prof (Some ipc)"
  let ?s0 = "with_calls [creatorLog letter] s"
  obtain y t where y: "run_state (StartContainer ?spec (Some ipc)) ?s0 = (y, t)"
    by (cases "run_state (StartContainer ?spec (Some ipc)) ?s0")
  show ?thesis
  proof (cases "\<exists>x. y = Ret x")
    case False
    then have "result ?m s = y" using StartCreator_fails [OF y] by (simp add: result_def)
    then show ?thesis using False by (cases y) simp_all
  next
    case True
    then obtain x where x: "result (StartContainer ?spec (Some ipc)) ?s0 = Ret x" "y = Ret x" using y by (auto simp: result_def)
    have b: "o_int ?s0 (trace ?s0) (PrC Fork) = Inr pid" "alloc_ok (IPAlloc ?s0)" using assms by simp_all
    note run = StartContainer_run [OF b(1) assms(2) creatorSpec_simps(2,3) b(2) x(1)]
    show ?thesis
    proof (cases x)
      case (Inl e)
      with run y obtain cs where "t = with_calls cs ?s0" by auto
      moreover have "run_state ?m s = (Ret (Inl e), t)" using StartCreator_fails [OF y] x(2) Inl by simp
      ultimately show ?thesis by (simp add: result_def after_def)
    next
      case (Inr a)
      with run y obtain cs wpid r netres al where rep: "reports ipc ?s0 cs wpid r" and l: "leased (IPAlloc s) al netres"
        and a: "a = Suc (hnext s)" and t: "t = with_calls cs (entered ?spec (startedAs ?spec pid wpid r netres) r al (forked ?spec pid ?s0))"
        by auto
      obtain ds where e: "run_state ?m s = (Ret (Inr a), with_calls ds (t\<lparr>heap := (heap t)(a := (heap t a)\<lparr>CIPC := Some ipc\<rparr>),
          targets := map_put (containerID letter 1) \<lparr>PTY = Some (PtyMaster ipc), TPID = WorkloadPID (heap t a)\<rparr> (targets t)\<rparr>))"
        by (rule StartCreator_finishes) (use y x(2) Inr in simp)
      have "calls ?m s = [creatorLog letter] @ cs @ ds"
        by (simp add: calls_def e t) (simp add: entered_def forked_def with_calls_def)
      then have "reports ipc s (calls ?m s) wpid r"
        using reports_within [OF rep, of s ds] by simp
      moreover have "result ?m s = Ret (Inr a)" using e by (simp add: result_def)
      moreover have "core (after ?m s) = core (s\<lparr>heap := (heap s)(hnext s := blankContainer\<lparr>CSpec := Some ?spec, InitPID := pid,
            CState := ContainerCreated\<rparr>, a := (startedAs ?spec pid wpid r netres)\<lparr>CIPC := Some ipc\<rparr>),
          hnext := Suc a, containers := map_put (containerID letter 1) a (containers s),
          Handles := handlesAfter (containerID letter 1) r (Handles s), IPAlloc := al,
          targets := map_put (containerID letter 1) \<lparr>PTY = Some (PtyMaster ipc), TPID = wpid\<rparr> (targets s)\<rparr>)"
        unfolding after_def e t
        by (simp add: a entered_def forked_def startedAs_def creatorSpec_simps core_def with_calls_def)
      ultimately show ?thesis using l a by (simp only: outcome.case sum.case) blast
    qed
  qed
qed

text \<open>A boot at which the fork gives pid 7 and the container's init reports workload 43.\<close>

definition ex_msg :: string where
  "ex_msg = [CHR 0x2B, CHR 0x00, CHR 0x00, CHR 0x00]"

definition ex_boot :: app where
  "ex_boot = boot\<lparr>o_msg := \<lambda>_ _. Inr (ex_msg, NoControl)\<rparr>"

lemma ex_boot_simps:
  "o_int ex_boot t c = Inr 7" "o_err ex_boot t c = None" "o_msg ex_boot t c = Inr (ex_msg, NoControl)"
  "trace ex_boot = []" "containers ex_boot = []" "hnext ex_boot = 0" "targets ex_boot = []" "Handles ex_boot = []"
  by (simp_all add: ex_boot_def boot_def quiet_os_def os.defs)

lemma ex_creator_spec:
  "USER (Namespaces (creatorSpec l m p))" "Shares (creatorSpec l m p) = []" "IsNetRoot (creatorSpec l m p)"
  "Mode (Workload (creatorSpec l m p)) = m" "ID (creatorSpec l m p) = containerID l 1"
  by (simp_all add: creatorSpec_def DefaultSpec_def)

lemma ex_wire: "take 4 ex_msg = ex_msg" "length ex_msg = 4" "Uint32 ex_msg = 43" "bufAt 256 ex_msg 0 = 43" "ex_msg \<noteq> []"
  by (simp_all add: ex_msg_def Uint32_def bufAt_def)

lemma ex_creator_result:
  "result (StartCreator ''a'' ModeInteractive ProfileDebugShell (Some ex_ipc)) ex_boot = Ret (Inr 1)"
  by (simp add: StartCreator_def StartContainer_def Let_def LogInfo_def result_def handshakeWithInit_def
    SetupUserNSAndContinue_def denySetgroups_def writeUIDMap_def writeGIDMap_def ex_boot_simps ex_creator_spec
    specJoins_def FinalizeContainer_def RecvWorkloadPID_def recvCreated_def createsAnyNamespace_def
    RecvCreatedNamespaceFDs_def decodeCreated_def ex_wire enterCreated_def enterRunning_def setupNet_def
    setIPC_def Register_def State_Monad.update_def)


lemma ex_boot_alloc: "alloc_ok (IPAlloc ex_boot)"
  by (simp add: ex_boot_def boot_def os.defs alloc_ok_def ex_alloc_def subnet24_def ip_ok_def)

theorem creator_started_witness:
  "\<exists>c c0. WorkloadPID c = 43 \<and> InitPID c = 7 \<and> CState c = ContainerRunning \<and>
    heap (after (StartCreator ''a'' ModeInteractive ProfileDebugShell (Some ex_ipc)) ex_boot) =
      (heap ex_boot)(0 := c0, 1 := c) \<and>
    containers (after (StartCreator ''a'' ModeInteractive ProfileDebugShell (Some ex_ipc)) ex_boot) = [(containerID ''a'' 1, 1)]"
proof -
  let ?t = "after (StartCreator ''a'' ModeInteractive ProfileDebugShell (Some ex_ipc)) ex_boot"
  from creator_started [of ex_boot 7 "''a''" ModeInteractive ProfileDebugShell ex_ipc] obtain c c0 wpid r netres al where
    rep: "reports ex_ipc ex_boot (calls (StartCreator ''a'' ModeInteractive ProfileDebugShell (Some ex_ipc)) ex_boot) wpid r"
    and c: "c = (startedAs (creatorSpec ''a'' ModeInteractive ProfileDebugShell) 7 wpid r netres)\<lparr>CIPC := Some ex_ipc\<rparr>"
    and t: "core ?t = core (ex_boot\<lparr>heap := (heap ex_boot)(hnext ex_boot := c0, 1 := c),
          hnext := Suc 1, containers := map_put (containerID ''a'' 1) 1 (containers ex_boot),
          Handles := handlesAfter (containerID ''a'' 1) r (Handles ex_boot), IPAlloc := al,
          targets := map_put (containerID ''a'' 1) \<lparr>PTY = Some (PtyMaster ex_ipc), TPID = wpid\<rparr> (targets ex_boot)\<rparr>)"
    by (auto simp: ex_boot_simps ex_boot_alloc ex_creator_result)
  have "wpid = 43" using rep by (auto simp: reports_def ex_boot_simps ex_wire)
  moreover have "heap ?t = (heap ex_boot)(0 := c0, 1 := c)" "containers ?t = [(containerID ''a'' 1, 1)]"
    using arg_cong [OF t, of heap] arg_cong [OF t, of containers] by (simp_all add: ex_boot_simps)
  ultimately show ?thesis using c by (intro exI [of _ c] exI [of _ c0]) (simp add: startedAs_def)
qed

section \<open>Joining a pod\<close>

lemma joinerSpec_fields:
  "Shares (joinerSpec root name m p) = map (\<lambda>ns. \<lparr>ShareType = ns, FromContainer = root\<rparr>) [NSUser, NSNet, NSMnt]"
  "\<not> USER (Namespaces (joinerSpec root name m p))" "\<not> PIDNS (Namespaces (joinerSpec root name m p))"
  "\<not> IPCNS (Namespaces (joinerSpec root name m p))" "\<not> UTS (Namespaces (joinerSpec root name m p))"
  "\<not> CGROUP (Namespaces (joinerSpec root name m p))"
  by (simp_all add: joinerSpec_def DefaultSpec_def)

lemma joiner_wire: "wireOk 32 (map ShareType (Shares (joinerSpec root name m p)))"
  by (simp add: joinerSpec_fields wireOk_def)

text \<open>
  C7: a joiner is put into its pod. If the supervisor has the root's three handles, it sends one
  message for the joiner; and if the joiner's init receives that message, its descriptors
  renumbered by the kernel, and applies its namespaces without an error, then it has entered the
  root's user namespace first and then its network and mount namespaces, in the order that the
  loop over them takes, and has entered or created no other.
\<close>

theorem joiner_enters_pod:
  fixes s :: "'z hstate_scheme"
  assumes "map_get (Handles s) rootID = Some hs"
    and "map_get hs NSUser = Some hu" and "map_get hs NSNet = Some hn" and "map_get hs NSMnt = Some hm"
  shows "\<exists>data rights.
    FdC (Sendmsg (snd (Sup2Init ipc)) data rights) \<in> set (calls (SendNamespaceFDs ipc (Shares (joinerSpec rootID name m p))) s) \<and>
    (\<forall>(r :: os) f. o_msg r (trace r) (FdC (Recvmsg (fst (Sup2Init ipc')) 32)) = Inr (data, Rights (map f rights)) \<longrightarrow>
      result (ApplyNamespaces (joinerSpec rootID name m p) ipc') r = Ret None \<longrightarrow>
      (\<exists>rest. filter is_nscall (calls (ApplyNamespaces (joinerSpec rootID name m p) ipc') r) =
          PrC (Setns (f (FD hu)) CLONE_NEWUSER) # rest \<and> length rest = 2 \<and>
        set rest = {PrC (Setns (f (FD hn)) CLONE_NEWNET), PrC (Setns (f (FD hm)) CLONE_NEWNS)}))"
proof -
  let ?spec = "joinerSpec rootID name m p"
  let ?shares = "Shares ?spec"
  have ne: "?shares \<noteq> []" and hd: "FromContainer (hd ?shares) = rootID" by (simp_all add: joinerSpec_fields)
  have all: "\<forall>sh \<in> set ?shares. map_get hs (ShareType sh) \<noteq> None" using assms(2-4) by (simp add: joinerSpec_fields)
  have passed: "passed hs ?shares = [(NSUser, FD hu), (NSNet, FD hn), (NSMnt, FD hm)]"
    using assms(2-4) by (simp add: passed_def joinerSpec_fields)
  have "\<exists>rest. filter is_nscall (calls (ApplyNamespaces ?spec ipc') r) =
          PrC (Setns (f (FD hu)) CLONE_NEWUSER) # rest \<and> length rest = 2 \<and>
        set rest = {PrC (Setns (f (FD hn)) CLONE_NEWNET), PrC (Setns (f (FD hm)) CLONE_NEWNS)}"
    if got: "o_msg r (trace r) (FdC (Recvmsg (fst (Sup2Init ipc')) 32)) =
        Inr (nsBytes (map ShareType ?shares), Rights (map f (map snd (passed hs ?shares))))"
      and ok: "result (ApplyNamespaces ?spec ipc') r = Ret None" for r :: os and f
  proof -
    let ?sh = "[(NSUser, f (FD hu)), (NSNet, f (FD hn)), (NSMnt, f (FD hm))]"
    let ?c = "FdC (Recvmsg (fst (Sup2Init ipc')) 32)"
    have "run_state (RecvNamespaceFDs ipc') r = (Ret ?sh, emit ?c r)"
      using RecvNamespaceFDs_receives [OF joiner_wire got] by (simp add: passed)
    then have run: "run_state (ApplyNamespaces ?spec ipc') r = run_state (enterNamespaces ?spec ipc' ?sh) (emit ?c r)"
      using ne by (simp add: ApplyNamespaces_def)
    have "yields (enterNamespaces ?spec ipc' ?sh) (\<lambda>r cs. r = Ret None \<longrightarrow> namespaced ?spec ?sh cs)"
      by (rule yields_enterNamespaces) (simp add: ne)
    then obtain cs where cs: "snd (run_state (enterNamespaces ?spec ipc' ?sh) (emit ?c r)) = with_calls cs (emit ?c r)"
      "namespaced ?spec ?sh cs"
      using ok run unfolding yields_def result_def by metis
    have "calls (ApplyNamespaces ?spec ipc') r = ?c # cs" by (simp add: calls_def run cs(1))
    moreover have "filter is_nscall cs = userCalls ?spec ?sh @ joinCalls ?sh @ unshareCalls ?spec ?sh"
      using cs(2) by (simp add: namespaced_def)
    moreover have "newNamespaces ?spec ?sh = []"
      by (simp add: newNamespaces_def joinerSpec_fields)
    ultimately show ?thesis
      by (simp add: userCalls_def joinCalls_def unshareCalls_def)
  qed
  moreover have "FdC (Sendmsg (snd (Sup2Init ipc)) (nsBytes (map ShareType ?shares)) (map snd (passed hs ?shares)))
      \<in> set (calls (SendNamespaceFDs ipc ?shares) s)"
    using SendNamespaceFDs_sends [OF ne, of s hs ipc] assms(1) hd all by auto
  ultimately show ?thesis by blast
qed


definition ex_root :: hstate where
  "ex_root = os.extend quiet_os \<lparr>Handles = [(''bctor-a1'', map (\<lambda>(ns, fd). (ns, \<lparr>HandleType = NSUser, FD = fd, Ref = 1\<rparr>))
     [(NSUser, 31), (NSNet, 32), (NSMnt, 33), (NSPID, 34)])]\<rparr>"

definition ex_join :: os where
  "ex_join = quiet_os\<lparr>o_msg := \<lambda>_ _. Inr (nsBytes [NSUser, NSNet, NSMnt], Rights [131, 132, 133])\<rparr>"

theorem joiner_enters_pod_witness:
  "set (filter is_nscall (calls (ApplyNamespaces (joinerSpec ''bctor-a1'' ''bctor-a2'' ModeBatch ProfileBatch) ex_ipc) ex_join)) =
    {PrC (Setns 131 CLONE_NEWUSER), PrC (Setns 132 CLONE_NEWNET), PrC (Setns 133 CLONE_NEWNS)}"
proof -
  let ?spec = "joinerSpec ''bctor-a1'' ''bctor-a2'' ModeBatch ProfileBatch"
  let ?h = "\<lambda>fd. \<lparr>HandleType = NSUser, FD = fd, Ref = 1\<rparr>"
  let ?hs = "[(NSUser, ?h 31), (NSNet, ?h 32), (NSMnt, ?h 33), (NSPID, ?h 34)]"
  have h: "Handles ex_root = [(''bctor-a1'', ?hs)]" by (simp add: ex_root_def os.defs)
  then have "map_get (Handles ex_root) ''bctor-a1'' = Some ?hs" by simp
  from joiner_enters_pod [OF this, of "?h 31" "?h 32" "?h 33" ex_ipc "''bctor-a2''" ModeBatch ProfileBatch ex_ipc]
  obtain data rights where
    sent: "FdC (Sendmsg (snd (Sup2Init ex_ipc)) data rights) \<in> set (calls (SendNamespaceFDs ex_ipc (Shares ?spec)) ex_root)"
    and joined: "\<And>(r :: os) f. o_msg r (trace r) (FdC (Recvmsg (fst (Sup2Init ex_ipc)) 32)) = Inr (data, Rights (map f rights)) \<Longrightarrow>
      result (ApplyNamespaces ?spec ex_ipc) r = Ret None \<Longrightarrow>
      \<exists>rest. filter is_nscall (calls (ApplyNamespaces ?spec ex_ipc) r) = PrC (Setns (f 31) CLONE_NEWUSER) # rest \<and>
        length rest = 2 \<and> set rest = {PrC (Setns (f 32) CLONE_NEWNET), PrC (Setns (f 33) CLONE_NEWNS)}" by auto
  have "calls (SendNamespaceFDs ex_ipc (Shares ?spec)) ex_root = [UiC (Lock ScxMu), UiC (Unlock ScxMu),
      FdC (Sendmsg (snd (Sup2Init ex_ipc)) (nsBytes [NSUser, NSNet, NSMnt]) [31, 32, 33])]"
    by (simp add: SendNamespaceFDs_def calls_def emit_def joinerSpec_fields h)
  with sent have d: "data = nsBytes [NSUser, NSNet, NSMnt]" "rights = [31, 32, 33]" by simp_all
  have "run_state (RecvNamespaceFDs ex_ipc) ex_join =
      (Ret [(NSUser, 131), (NSNet, 132), (NSMnt, 133)], emit (FdC (Recvmsg (fst (Sup2Init ex_ipc)) 32)) ex_join)"
    using RecvNamespaceFDs_receives [OF joiner_wire, of ex_join ex_ipc "''bctor-a1''" "''bctor-a2''" ModeBatch ProfileBatch
        "\<lambda>x. x + 100" ?hs] by (simp add: ex_join_def joinerSpec_fields passed_def)
  moreover have "o_err ex_join t c = None" for t c by (simp add: ex_join_def quiet_os_def)
  ultimately have "result (ApplyNamespaces ?spec ex_ipc) ex_join = Ret None"
    by (simp add: ApplyNamespaces_def enterNamespaces_def enterUserNS_def flagsChecks_def result_def joinerSpec_fields)
  moreover have "o_msg ex_join (trace ex_join) (FdC (Recvmsg (fst (Sup2Init ex_ipc)) 32)) =
      Inr (data, Rights (map (\<lambda>x. x + 100) rights))" by (simp add: d ex_join_def)
  ultimately obtain rest where
    "filter is_nscall (calls (ApplyNamespaces ?spec ex_ipc) ex_join) = PrC (Setns (31 + 100) CLONE_NEWUSER) # rest"
    "set rest = {PrC (Setns (32 + 100) CLONE_NEWNET), PrC (Setns (33 + 100) CLONE_NEWNS)}"
    using joined [of ex_join "\<lambda>x. x + 100"] by blast
  then show ?thesis by simp
qed

end
