(* ===== verification/Killing.thy ===== *)
theory Killing
  imports Exits
begin

text \<open>
  The \<open>kill\<close> command, from one attempt on one container to the rounds over a pod: whom it signals, how
  long it waits, and that it leaves every table as it is.
\<close>

section \<open>Signals and waits\<close>

fun killOf :: "call \<Rightarrow> (int \<times> signal) option" where
  "killOf (PrC (Kill pid sig)) = Some (pid, sig)"
| "killOf _ = None"

fun sleepOf :: "call \<Rightarrow> nat option" where
  "sleepOf (PrC (SleepMs n)) = Some n"
| "sleepOf _ = None"

lemma map_filter_append: "List.map_filter f (xs @ ys) = List.map_filter f xs @ List.map_filter f ys"
  by (simp add: List.map_filter_def)

text \<open>The pid a kill goes to, if there is one; the signals and waits for one container.\<close>

definition victim :: "Container \<Rightarrow> int option" where
  "victim c = (if WorkloadPID c > 0 then Some (WorkloadPID c)
     else if InitPID c > 0 then Some (InitPID c) else None)"

definition signals :: "Container \<Rightarrow> (int \<times> signal) list" where
  "signals c = (case victim c of None \<Rightarrow> [] | Some pid \<Rightarrow> [(pid, SIGKILL)])"

definition waits :: "Container \<Rightarrow> nat list" where
  "waits c = (case victim c of None \<Rightarrow> [40, 40, 40] | Some pid \<Rightarrow> [])"

text \<open>
  \<open>kills ks ns m s\<close>: from \<open>s\<close>, \<open>m\<close> sends the signals \<open>ks\<close> and waits \<open>ns\<close>; all it changes of the state is the
  keep-alive pipes of some objects.
\<close>

definition kills :: "(int \<times> signal) list \<Rightarrow> nat list \<Rightarrow> ('z app_scheme, 'a) state \<Rightarrow> 'z app_scheme \<Rightarrow> bool" where
  "kills ks ns m s \<longleftrightarrow> (\<exists>cs h. after m s = with_calls cs (s\<lparr>heap := h\<rparr>) \<and> (\<forall>a. similar (h a) (heap s a)) \<and>
     List.map_filter killOf cs = ks \<and> List.map_filter sleepOf cs = ns)"

lemma with_calls_heap: "(with_calls cs s)\<lparr>heap := h\<rparr> = with_calls cs (s\<lparr>heap := h\<rparr>)" for s :: "'z app_scheme"
  by (simp add: with_calls_def)

lemma heap_with_calls [simp]: "heap (with_calls cs s) = heap s" "containers (with_calls cs s) = containers s"
  for s :: "'z app_scheme"
  by (simp_all add: with_calls_def)

lemma killsI:
  "after m s = with_calls cs (s\<lparr>heap := h\<rparr>) \<Longrightarrow> (\<And>a. similar (h a) (heap s a)) \<Longrightarrow>
    List.map_filter killOf cs = ks \<Longrightarrow> List.map_filter sleepOf cs = ns \<Longrightarrow> kills ks ns m s"
  unfolding kills_def by blast

lemma kills_calls:
  "after m s = with_calls cs s \<Longrightarrow> List.map_filter killOf cs = ks \<Longrightarrow> List.map_filter sleepOf cs = ns \<Longrightarrow> kills ks ns m s"
  by (rule killsI [where h = "heap s" and cs = cs]) simp_all

lemma kills_containers: "kills ks ns m s \<Longrightarrow> containers (after m s) = containers s"
  by (auto simp: kills_def)

lemma kills_victims:
  assumes "kills ks ns m s"
  shows "signals (heap (after m s) a) = signals (heap s a)" "waits (heap (after m s) a) = waits (heap s a)"
    "victim (heap (after m s) a) = victim (heap s a)"
  using assms by (auto simp: kills_def similar_def signals_def waits_def victim_def)

lemma kills_bind:
  assumes "kills ks ns m s" and "kills ls ms (f (result m s)) (after m s)"
  shows "kills (ks @ ls) (ns @ ms) (m \<bind> f) s"
proof -
  from assms(1) obtain cs h where 1: "after m s = with_calls cs (s\<lparr>heap := h\<rparr>)" "\<forall>a. similar (h a) (heap s a)"
    "List.map_filter killOf cs = ks" "List.map_filter sleepOf cs = ns" by (auto simp: kills_def)
  from assms(2) 1 obtain ds g where 2: "after (f (result m s)) (after m s) = with_calls (cs @ ds) (s\<lparr>heap := g\<rparr>)"
    "\<forall>a. similar (g a) (h a)" "List.map_filter killOf ds = ls" "List.map_filter sleepOf ds = ms"
    by (auto simp: kills_def with_calls_heap)
  have "after (m \<bind> f) s = after (f (result m s)) (after m s)"
    by (simp add: after_def result_def split: prod.split)
  with 1 2 show ?thesis
    by (intro killsI [where cs = "cs @ ds" and h = g]) (simp_all add: map_filter_append, meson similar_trans)
qed

lemma kills_return: "kills [] [] (return x) s"
  by (rule kills_calls [where cs = "[]"]) (simp_all add: after_def List.map_filter_def)

lemma kills_sleep: "kills [] [n] (sys (PrC (SleepMs n))) s"
  by (rule kills_calls [where cs = "[PrC (SleepMs n)]"]) (simp_all add: after_def List.map_filter_def emit_with_calls)

lemma kills_then:
  "kills ks ns m s \<Longrightarrow> kills ks ns (m \<bind> (\<lambda>x. return (f x))) s"
  using kills_bind [of ks ns m s "[]" "[]" "\<lambda>x. return (f x)"] by (simp add: kills_return)

lemma kills_locked:
  assumes "kills ks ns m (emit (UiC (Lock l)) s)"
  shows "kills ks ns (locked l m) s"
proof -
  from assms obtain cs h where m: "after m (emit (UiC (Lock l)) s) = with_calls (UiC (Lock l) # cs) (s\<lparr>heap := h\<rparr>)"
    "\<forall>a. similar (h a) (heap s a)" "List.map_filter killOf cs = ks" "List.map_filter sleepOf cs = ns"
    by (auto simp: kills_def emit_with_calls with_calls_heap)
  then have "after (locked l m) s = with_calls (UiC (Lock l) # cs @ [UiC (Unlock l)]) (s\<lparr>heap := h\<rparr>)"
    by (simp add: after_def emit_with_calls case_prod_unfold)
  then show ?thesis
    using m by (intro killsI [where cs = "UiC (Lock l) # cs @ [UiC (Unlock l)]" and h = h])
      (simp_all add: map_filter_append List.map_filter_simps)
qed

section \<open>One container\<close>

lemma kills_freeKeepAlive: "kills [] [] (freeKeepAlive a) s"
proof -
  have "\<exists>cs. after (freeKeepAlive a) s = with_calls cs (s\<lparr>heap := (heap s)(a := closedKeepAlive (heap s a))\<rparr>) \<and>
      List.map_filter killOf cs = [] \<and> List.map_filter sleepOf cs = []"
    by (cases "CIPC (heap s a)")
      (auto simp: after_def freeKeepAlive_def closedKeepAlive_None emit_with_calls with_calls_heap List.map_filter_def
        intro: exI [of _ "[]"] exI [of _ "[FdC x, FdC y]" for x y])
  then show ?thesis unfolding kills_def by (auto intro!: exI [of _ "(heap s)(a := closedKeepAlive (heap s a))"])
qed

lemma kills_killSection:
  assumes "map_get (containers s) targetID = Some a"
  shows "kills (signals (heap s a)) [] (killSection targetID) s \<and>
    (result (killSection targetID) s = None \<longleftrightarrow> victim (heap s a) = None)"
proof -
  let ?w = "PrC (Kill (WorkloadPID (heap s a)) SIGKILL)" and ?i = "PrC (Kill (InitPID (heap s a)) SIGKILL)"
  consider "0 < WorkloadPID (heap s a)" | "\<not> 0 < WorkloadPID (heap s a)" "0 < InitPID (heap s a)"
    | "\<not> 0 < WorkloadPID (heap s a)" "\<not> 0 < InitPID (heap s a)" by blast
  then show ?thesis
  proof cases
    case 1
    have k: "kills [(WorkloadPID (heap s a), SIGKILL)] [] (sys ?w) s"
      by (rule kills_calls [where cs = "[?w]"]) (simp_all add: after_def emit_with_calls List.map_filter_def)
    let ?free = "\<lambda>_. case podOf targetID of None \<Rightarrow> return ()
      | Some p \<Rightarrow> (if isNetRoot (heap s a) \<and> keepAliveOpen (heap s a) \<and>
          podWouldBeEmptyAfterRemoving p targetID (containers s) then freeKeepAlive a else return ())"
    let ?m = "sys ?w \<bind> ?free"
    have "kills [] [] (?free ()) (after (sys ?w) s)"
      by (auto simp: kills_freeKeepAlive kills_return split: option.split)
    from kills_bind [OF k this] have "kills [(WorkloadPID (heap s a), SIGKILL)] [] ?m s" by simp
    moreover have "after (killSection targetID) s = after ?m s" "result (killSection targetID) s \<noteq> None"
      using assms 1 by (simp_all add: killSection_def after_def result_def Let_def split: prod.split)
    ultimately show ?thesis using 1 by (simp add: kills_def signals_def victim_def)
  next
    case 2
    then have r: "run_state (killSection targetID) s =
        (Some (''[+] Killed '' @ targetID @ '' init (PID '' @ Itoa (InitPID (heap s a)) @ '')''), with_calls [?i] s)"
      using assms by (simp add: killSection_def Let_def emit_with_calls)
    then have "kills (signals (heap s a)) [] (killSection targetID) s"
      using 2 by (intro kills_calls [where cs = "[?i]"]) (simp_all add: after_def signals_def victim_def List.map_filter_def)
    then show ?thesis using 2 r by (simp add: result_def victim_def)
  next
    case 3
    then have r: "run_state (killSection targetID) s = (None, with_calls [] s)"
      using assms by (simp add: killSection_def Let_def)
    then have "kills (signals (heap s a)) [] (killSection targetID) s"
      using 3 by (intro kills_calls [where cs = "[]"]) (simp_all add: after_def signals_def victim_def List.map_filter_def)
    then show ?thesis using 3 r by (simp add: result_def victim_def)
  qed
qed

lemma kills_after:
  assumes "kills ks [] m s" and "kills [] ns (f (result m s)) (after m s)"
  shows "kills ks ns (m \<bind> f) s"
  using kills_bind [of ks "[]" m s "[]" ns f] assms by simp

lemma kills_silent:
  assumes "kills [] [] m s" and "kills ks ns (f (result m s)) (after m s)"
  shows "kills ks ns (m \<bind> f) s"
  using kills_bind [of "[]" "[]" m s ks ns f] assms by simp

lemma kills_attempt:
  assumes "map_get (containers s) targetID = Some a"
  shows "kills (signals (heap s a)) [] (locked ScxMu (killSection targetID)) s"
    and "result (locked ScxMu (killSection targetID)) s = None \<longleftrightarrow> victim (heap s a) = None"
proof -
  have "map_get (containers (emit (UiC (Lock ScxMu)) s)) targetID = Some a" using assms by (simp add: emit_with_calls)
  from kills_killSection [OF this]
  have k: "kills (signals (heap s a)) [] (killSection targetID) (emit (UiC (Lock ScxMu)) s)"
    and r: "result (killSection targetID) (emit (UiC (Lock ScxMu)) s) = None \<longleftrightarrow> victim (heap s a) = None"
    by (simp_all add: emit_with_calls)
  show "kills (signals (heap s a)) [] (locked ScxMu (killSection targetID)) s" using k by (rule kills_locked)
  show "result (locked ScxMu (killSection targetID)) s = None \<longleftrightarrow> victim (heap s a) = None"
    using r by (simp add: result_def case_prod_unfold)
qed

text \<open>\<open>k\<close> attempts may follow this one: a container with a pid is signalled in the first.\<close>

lemma kills_killAttempts:
  assumes "map_get (containers s) targetID = Some a"
  shows "kills (signals (heap s a)) (if victim (heap s a) = None then replicate k 40 else [])
    (killAttempts (Suc k) targetID) s"
  using assms
proof (induction k arbitrary: s)
  case 0
  have "kills (signals (heap s a)) [] (killAttempts (Suc 0) targetID) s"
    unfolding killAttempts.simps(2)
    by (rule kills_after [OF kills_attempt(1) [OF 0]]) (simp add: kills_return split: option.split)
  then show ?case by simp
next
  case (Suc k)
  let ?m = "locked ScxMu (killSection targetID)"
  let ?t = "after ?m s"
  show ?case
  proof (cases "victim (heap s a)")
    case None
    then have r: "result ?m s = None" and e: "signals (heap s a) = []"
      using kills_attempt(2) [OF Suc.prems] by (simp_all add: signals_def)
    note k = kills_attempt(1) [OF Suc.prems]
    let ?u = "after (sys (PrC (SleepMs 40))) ?t"
    have z: "kills [] [40] (sys (PrC (SleepMs 40))) ?t" by (rule kills_sleep)
    have "map_get (containers ?u) targetID = Some a" "victim (heap ?u a) = None" "signals (heap ?u a) = []"
      using kills_containers [OF k] kills_containers [OF z] kills_victims [OF k] kills_victims [OF z] None e Suc.prems
      by simp_all
    with Suc.IH [of ?u] have "kills [] (replicate k 40) (killAttempts (Suc k) targetID) ?u" by simp
    from kills_bind [OF z, where f = "\<lambda>_. killAttempts (Suc k) targetID", OF this]
    have "kills [] (40 # replicate k 40) (sys (PrC (SleepMs 40)) \<bind> (\<lambda>_. killAttempts (Suc k) targetID)) ?t" by simp
    then have "kills (signals (heap s a)) (40 # replicate k 40) (killAttempts (Suc (Suc k)) targetID) s"
      unfolding killAttempts.simps(2) [of "Suc k"] by (intro kills_after [OF k]) (simp add: r del: killAttempts.simps)
    with None show ?thesis by simp
  next
    case (Some pid)
    then obtain msg where "result ?m s = Some msg" using kills_attempt(2) [OF Suc.prems] by fastforce
    then have "kills (signals (heap s a)) [] (killAttempts (Suc (Suc k)) targetID) s"
      unfolding killAttempts.simps(2) [of "Suc k"]
      by (intro kills_after [OF kills_attempt(1) [OF Suc.prems]]) (simp add: kills_return del: killAttempts.simps)
    with Some show ?thesis by simp
  qed
qed

lemma kills_killOne:
  assumes "map_get (containers s) targetID = Some a"
  shows "kills (signals (heap s a)) (waits (heap s a)) (killOneWithRetry targetID) s"
  using kills_killAttempts [OF assms, of 3]
  by (auto simp: killOneWithRetry_def waits_def numeral_eq_Suc simp del: killAttempts.simps split: option.splits)

lemma killOne_absent:
  "map_get (containers s) targetID = None \<Longrightarrow> kills [] [] (killOneWithRetry targetID) s"
  by (rule kills_calls [where cs = "[UiC (Lock ScxMu), UiC (Unlock ScxMu)]"])
    (simp_all add: killOneWithRetry_def numeral_eq_Suc killSection_def after_def emit_with_calls List.map_filter_simps)

text \<open>
  Killing one container sends at most one signal and gives up after a bounded wait: SIGKILL to
  its workload if that has a pid, else to its init; with neither it waits 40 ms three times and
  sends nothing; and it is skipped at once if there is no such container.
\<close>

theorem kill_bounded:
  "\<exists>cs. trace (after (killOneWithRetry targetID) s) = trace s @ cs \<and>
    (case map_get (containers s) targetID of
       None \<Rightarrow> List.map_filter killOf cs = [] \<and> List.map_filter sleepOf cs = []
     | Some a \<Rightarrow> (case victim (heap s a) of
         None \<Rightarrow> List.map_filter killOf cs = [] \<and> List.map_filter sleepOf cs = [40, 40, 40]
       | Some pid \<Rightarrow> List.map_filter killOf cs = [(pid, SIGKILL)] \<and> List.map_filter sleepOf cs = []))"
proof (cases "map_get (containers s) targetID")
  case None
  then show ?thesis using killOne_absent [OF None] by (auto simp: kills_def)
next
  case (Some a)
  then show ?thesis
    using kills_killOne [OF Some] by (auto simp: kills_def signals_def waits_def split: option.splits)
qed

section \<open>A pod\<close>

lemma kills_killAll:
  assumes "\<And>k a. (k, a) \<in> set ts \<Longrightarrow> map_get (containers s) k = Some a"
  shows "kills (concat (map (\<lambda>(k, a). signals (heap s a)) ts)) (concat (map (\<lambda>(k, a). waits (heap s a)) ts))
    (killAll (map fst ts)) s"
  using assms
proof (induction ts arbitrary: s)
  case Nil
  then show ?case by (simp add: kills_return)
next
  case (Cons t ts)
  obtain k a where t: "t = (k, a)" by (cases t)
  have m: "map_get (containers s) k = Some a" using Cons.prems [of k a] by (simp add: t)
  note one = kills_killOne [OF m]
  let ?u = "after (killOneWithRetry k) s"
  have "map_get (containers ?u) j = Some b" if "(j, b) \<in> set ts" for j b
    using Cons.prems that by (simp add: kills_containers [OF one])
  from Cons.IH [of ?u, OF this] have
    "kills (concat (map (\<lambda>(k, a). signals (heap s a)) ts)) (concat (map (\<lambda>(k, a). waits (heap s a)) ts))
      (killAll (map fst ts)) ?u" by (simp add: kills_victims [OF one])
  from kills_bind [OF one kills_then [OF this]] show ?case by (simp add: t)
qed

text \<open>The containers that \<open>kill p\<close> or \<open>kill p i\<close> is for, and what a round over them sends and waits.\<close>

definition killTargets :: "string \<Rightarrow> string list \<Rightarrow> (string, nat) gomap \<Rightarrow> (string, nat) gomap" where
  "killTargets p rest m = filter (\<lambda>(k, a). case rest of [] \<Rightarrow> HasPrefix k (''bctor-'' @ p)
     | i # _ \<Rightarrow> k = ''bctor-'' @ p @ i) m"

definition roundSignals :: "(nat \<Rightarrow> Container) \<Rightarrow> (string, nat) gomap \<Rightarrow> (int \<times> signal) list" where
  "roundSignals h ts = concat (map (\<lambda>(k, a). signals (h a)) ts)"

definition roundWaits :: "(nat \<Rightarrow> Container) \<Rightarrow> (string, nat) gomap \<Rightarrow> nat list" where
  "roundWaits h ts = concat (map (\<lambda>(k, a). waits (h a)) ts)"

lemma kills_killAll_targets:
  assumes "gomap_ok (containers s)"
  shows "kills (roundSignals (heap s) (killTargets p rest (containers s)))
    (roundWaits (heap s) (killTargets p rest (containers s))) (killAll (map fst (killTargets p rest (containers s)))) s"
  unfolding roundSignals_def roundWaits_def
  by (rule kills_killAll) (simp add: killTargets_def map_get_Some_iff [OF assms] split: prod.splits)

lemma filter_keys: "filter P (map_keys m) = map fst (filter (\<lambda>(k, a). P k) m)"
  by (simp add: filter_map o_def case_prod_unfold)

lemma kills_ids:
  "kills [] [] (locked ScxMu (do { s \<leftarrow> State_Monad.get; return (g s) })) s"
  "result (locked ScxMu (do { s \<leftarrow> State_Monad.get; return (g s) })) s = g (emit (UiC (Lock ScxMu)) s)"
  by (rule kills_calls [where cs = "[UiC (Lock ScxMu), UiC (Unlock ScxMu)]"])
    (simp_all add: after_def result_def emit_with_calls List.map_filter_simps)

lemma kills_rounds:
  assumes "kills ks ns m s"
  shows "roundSignals (heap (after m s)) ts = roundSignals (heap s) ts" "roundWaits (heap (after m s)) ts = roundWaits (heap s) ts"
  by (simp_all add: roundSignals_def roundWaits_def kills_victims [OF assms])

text \<open>The waits of \<open>k\<close> rounds with the waits \<open>w\<close> each: 80 ms between any two.\<close>

fun podWaits :: "nat \<Rightarrow> nat list \<Rightarrow> nat list" where
  "podWaits 0 w = []"
| "podWaits (Suc k) w = w @ (if k > 0 then [80] else []) @ podWaits k w"

lemma kills_killRounds:
  assumes "gomap_ok (containers s)" and "ts = killTargets p [] (containers s)"
  shows "kills (if ts = [] then [] else concat (replicate k (roundSignals (heap s) ts)))
    (if ts = [] then [] else podWaits k (roundWaits (heap s) ts)) (killRounds k p) s"
  using assms
proof (induction k arbitrary: s)
  case 0
  then show ?case by (simp add: kills_return)
next
  case (Suc k)
  let ?ids = "locked ScxMu (do { s \<leftarrow> State_Monad.get;
    return (filter (\<lambda>cid. HasPrefix cid (''bctor-'' @ p)) (map_keys (containers s))) }) :: ('a app_scheme, _) state"
  let ?t = "after ?ids s"
  note ids = kills_ids [where g = "\<lambda>s. filter (\<lambda>cid. HasPrefix cid (''bctor-'' @ p)) (map_keys (containers s))" and s = s]
  have r: "result ?ids s = map fst ts"
    unfolding ids(2) by (simp add: emit_with_calls filter_keys killTargets_def Suc.prems(2))
  show ?case
  proof (cases "ts = []")
    case True
    have "kills [] [] (killRounds (Suc k) p) s"
      unfolding killRounds.simps by (rule kills_after [OF ids(1)]) (simp only: r True list.map simp_thms if_True kills_return)
    then show ?thesis using True by simp
  next
    case False
    have t: "containers ?t = containers s" by (rule kills_containers [OF ids(1)])
    have all: "kills (roundSignals (heap s) ts) (roundWaits (heap s) ts) (killAll (map fst ts)) ?t"
      using kills_killAll_targets [of ?t p "[]"] Suc.prems unfolding t kills_rounds [OF ids(1)] by simp
    let ?u = "after (killAll (map fst ts)) ?t"
    let ?sleep = "(if k > 0 then sys (PrC (SleepMs 80)) else return ()) :: ('a app_scheme, unit) state"
    have z: "kills [] (if k > 0 then [80] else []) ?sleep ?u" by (simp add: kills_sleep kills_return)
    let ?v = "after ?sleep ?u"
    have v: "containers ?v = containers s"
      by (simp only: kills_containers [OF z] kills_containers [OF all] t)
    have w: "roundSignals (heap ?v) ts = roundSignals (heap s) ts" "roundWaits (heap ?v) ts = roundWaits (heap s) ts"
      by (simp_all only: kills_rounds [OF z] kills_rounds [OF all] kills_rounds [OF ids(1)])
    have "kills (concat (replicate k (roundSignals (heap s) ts))) (podWaits k (roundWaits (heap s) ts)) (killRounds k p) ?v"
      using Suc.IH [of ?v, unfolded v w, OF Suc.prems] by (simp only: False if_False)
    note rest = kills_bind [OF all kills_bind [OF z kills_then [OF this]]]
    have "kills (roundSignals (heap s) ts @ concat (replicate k (roundSignals (heap s) ts)))
        (podWaits (Suc k) (roundWaits (heap s) ts)) (killRounds (Suc k) p) s"
      unfolding killRounds.simps
      by (rule kills_silent [OF ids(1)]) (use rest False in \<open>simp only: r list.map_disc_iff if_False podWaits.simps append_Nil append_Nil2 simp_thms\<close>)
    then show ?thesis using False by simp
  qed
qed

lemma kills_DrawBox: "kills [] [] (DrawBox title ls) s"
proof -
  have "run_state (DrawBox title ls) s =
      ((), with_calls (UiC (Print clearLine) # map (\<lambda>r. UiC (Print r)) (boxRows title ls)) s)"
    by (simp add: DrawBox_def run_for_each_sys)
  moreover have "List.map_filter killOf (map (\<lambda>r. UiC (Print r)) rs) = []" "List.map_filter sleepOf (map (\<lambda>r. UiC (Print r)) rs) = []"
    for rs by (induction rs) (simp_all add: List.map_filter_simps)
  ultimately show ?thesis
    by (intro kills_calls [where cs = "UiC (Print clearLine) # map (\<lambda>r. UiC (Print r)) (boxRows title ls)"])
      (simp_all add: after_def List.map_filter_simps)
qed

lemma filter_one: "distinct (map fst m) \<Longrightarrow> map_of m k = Some a \<Longrightarrow> filter (\<lambda>(j, b). j = k) m = [(k, a)]"
proof (induction m)
  case (Cons x m)
  obtain j b where x: "x = (j, b)" by (cases x)
  have "filter (\<lambda>(j, b). j = k) m = []" if "k \<notin> fst ` set m" using that by (force simp: filter_empty_conv)
  with Cons x show ?case by (cases "j = k") auto
qed simp

lemma filter_none: "map_of m k = None \<Longrightarrow> filter (\<lambda>(j, b). j = k) m = []"
  by (force simp: filter_empty_conv map_of_eq_None_iff)

lemma kills_killContainer:
  assumes "gomap_ok (containers s)" and "ts = filter (\<lambda>(j, b). j = cid) (containers s)"
  shows "kills (roundSignals (heap s) ts) (roundWaits (heap s) ts) (killContainer cid) s"
proof -
  have l: "kills [] [] (locked ScxMu (lookupContainer cid)) s"
    by (rule kills_calls [where cs = "[UiC (Lock ScxMu), UiC (Unlock ScxMu)]"])
      (simp_all add: after_def emit_with_calls List.map_filter_simps)
  have r: "result (locked ScxMu (lookupContainer cid)) s = map_get (containers s) cid"
    by (simp add: result_def emit_with_calls)
  let ?t = "after (locked ScxMu (lookupContainer cid)) s"
  show ?thesis
  proof (cases "map_get (containers s) cid")
    case None
    then have "ts = []" unfolding assms(2) by (rule filter_none)
    moreover have "kills [] [] (killContainer cid) s"
      unfolding killContainer_def by (rule kills_after [OF l]) (simp add: r None kills_return)
    ultimately show ?thesis by (simp add: roundSignals_def roundWaits_def)
  next
    case (Some a)
    have ts: "ts = [(cid, a)]"
      using filter_one [OF _ Some] assms by (simp add: gomap_ok_def)
    have "map_get (containers ?t) cid = Some a" using Some by (simp only: kills_containers [OF l])
    from kills_killOne [OF this]
    have "kills (signals (heap s a)) (waits (heap s a)) (killOneWithRetry cid) ?t" by (simp only: kills_victims [OF l])
    from kills_bind [OF l, where f = "\<lambda>_. do { x \<leftarrow> killOneWithRetry cid; return [x] }", OF kills_then [OF this]]
    have "kills (signals (heap s a)) (waits (heap s a)) (locked ScxMu (lookupContainer cid) \<bind>
      (\<lambda>_. do { x \<leftarrow> killOneWithRetry cid; return [x] })) s" by simp
    moreover have "run_state (killContainer cid) s = run_state (locked ScxMu (lookupContainer cid) \<bind>
      (\<lambda>_. do { x \<leftarrow> killOneWithRetry cid; return [x] })) s"
      using Some by (simp add: killContainer_def emit_with_calls)
    ultimately show ?thesis by (simp add: kills_def after_def ts roundSignals_def roundWaits_def)
  qed
qed

lemma kills_d_kill:
  assumes "gomap_ok (containers s)" and f: "Fields input = cmd # p # rest" and l: "length rest \<le> 1"
    and ts: "ts = killTargets p rest (containers s)"
  shows "kills (concat (replicate (if rest = [] then 3 else 1) (roundSignals (heap s) ts)))
    (if rest \<noteq> [] then roundWaits (heap s) ts else if ts = [] then [] else podWaits 3 (roundWaits (heap s) ts))
    (d_kill input) s"
proof (cases rest)
  case Nil
  let ?box = "\<lambda>ls. DrawBox (''KILL POD ['' @ ToUpper p @ '']'')
    (if ls = [] then [''[-] No active containers found for Pod ['' @ p @ '']''] else ls)"
  have d: "d_kill input = killRounds 3 p \<bind> ?box" unfolding d_kill_def Let_def f Nil by (simp cong: if_cong)
  have n: "concat (replicate 3 (roundSignals (heap s) ts)) = []" if "ts = []" using that by (simp add: roundSignals_def)
  have k: "kills (concat (replicate 3 (roundSignals (heap s) ts))) (if ts = [] then [] else podWaits 3 (roundWaits (heap s) ts))
      (killRounds 3 p) s"
    using kills_killRounds [OF assms(1) ts [unfolded Nil], of 3] n by (simp split: if_splits)
  from kills_bind [OF k kills_DrawBox] show ?thesis unfolding d Nil by simp
next
  case (Cons i is0)
  then have "is0 = []" using l by simp
  let ?box = "\<lambda>ls. DrawBox (''KILL POD ['' @ ToUpper p @ '']'')
    (if ls = [] then [''[-] No active containers found for Pod ['' @ p @ '']''] else ls)"
  have d: "d_kill input = killContainer (''bctor-'' @ p @ i) \<bind> ?box"
    unfolding d_kill_def Let_def f Cons \<open>is0 = []\<close> by (simp cong: if_cong)
  have "ts = filter (\<lambda>(j, b). j = ''bctor-'' @ p @ i) (containers s)" by (simp only: ts killTargets_def Cons list.case)
  from kills_bind [OF kills_killContainer [OF assms(1) this] kills_DrawBox] show ?thesis unfolding d Cons by simp
qed

text \<open>
  What the user names: \<open>kill p\<close> the containers of the pod \<open>p\<close>, \<open>kill p1\<close> the container of that name, and
  \<open>kill p 1\<close> the same. The name is ambiguous if it is not a pod's letter and other containers' names
  begin with it, as \<open>a1\<close> where there is an \<open>a10\<close>.
\<close>

definition namedByKill :: "string \<Rightarrow> string list \<Rightarrow> (string, nat) gomap \<Rightarrow> (string, nat) gomap" where
  "namedByKill p rest m = filter (\<lambda>(k, a). case rest of [] \<Rightarrow> podOf k = Some p \<or> k = ''bctor-'' @ p
     | i # _ \<Rightarrow> k = ''bctor-'' @ p @ i) m"

definition unambiguous :: "string \<Rightarrow> (string, nat) gomap \<Rightarrow> bool" where
  "unambiguous p m \<longleftrightarrow> length p = 1 \<or> (\<forall>k \<in> fst ` set m. HasPrefix k (''bctor-'' @ p) \<longrightarrow> k = ''bctor-'' @ p)"

lemma wellNamed_prefix:
  assumes "wellNamed k" shows "HasPrefix k (''bctor-'' @ [c]) \<longleftrightarrow> podOf k = Some [c]"
proof -
  from assms obtain d n where d: "is_lower d" "0 \<le> n" "k = containerID [d] n" unfolding wellNamed_def by blast
  then have "podOf k = Some [d]" by (simp add: podOf_def)
  moreover have "HasPrefix k (''bctor-'' @ [c]) \<longleftrightarrow> c = d" by (auto simp: d(3) containerID_def HasPrefix_iff)
  ultimately show ?thesis by auto
qed

lemma podOf_prefix: "podOf k = Some p \<Longrightarrow> HasPrefix k (''bctor-'' @ p)"
  by (auto simp: podOf_def splitContainerID_iff HasPrefix_iff)

lemma killTargets_named:
  assumes w: "\<forall>k \<in> fst ` set m. wellNamed k" and u: "rest = [] \<Longrightarrow> unambiguous p m"
  shows "killTargets p rest m = namedByKill p rest m"
proof (cases rest)
  case Nil
  have "HasPrefix k (''bctor-'' @ p) \<longleftrightarrow> podOf k = Some p \<or> k = ''bctor-'' @ p" if k: "k \<in> fst ` set m" for k
  proof (cases "length p = 1")
    case True
    then obtain c where "p = [c]" by (cases p) auto
    then show ?thesis using w k wellNamed_prefix by (auto simp: HasPrefix_iff)
  next
    case False
    then show ?thesis using u [OF Nil] k podOf_prefix by (auto simp: unambiguous_def HasPrefix_iff)
  qed
  then show ?thesis
    unfolding killTargets_def namedByKill_def Nil list.case case_prod_unfold
    by (intro filter_cong [OF refl]) (simp only: imageI)
qed (simp add: killTargets_def namedByKill_def)

text \<open>
  C15: \<open>kill\<close> kills what it names, where the name is not ambiguous. \<open>kill a\<close> goes three times over the containers of
  the pod, \<open>kill a2\<close> three times and \<open>kill a 2\<close> once over that one container. Each time it sends SIGKILL to
  the workload of each, or to its init where no workload is known yet, and in all to no other process; for
  a container without a pid it waits 40 ms three times, and 80 ms between rounds, and no longer. All tables stay as
  they are: what it kills the reaper removes. The order within a round is the model's choice (a Go map
  has none), and no other goroutine changes the table between the rounds.
\<close>

theorem pod_killed:
  assumes "gomap_ok (containers s)" and "\<forall>k \<in> fst ` set (containers s). wellNamed k"
    and "Fields input = cmd # p # rest" and "length rest \<le> 1" and "rest = [] \<Longrightarrow> unambiguous p (containers s)"
    and "ts = namedByKill p rest (containers s)"
  shows "\<exists>cs h. after (d_kill input) s = with_calls cs (s\<lparr>heap := h\<rparr>) \<and> (\<forall>a. similar (h a) (heap s a)) \<and>
      List.map_filter killOf cs = concat (replicate (if rest = [] then 3 else 1) (roundSignals (heap s) ts)) \<and>
      List.map_filter sleepOf cs = (if rest \<noteq> [] then roundWaits (heap s) ts else if ts = [] then []
        else podWaits 3 (roundWaits (heap s) ts))"
  using kills_d_kill [OF assms(1,3,4)] killTargets_named [OF assms(2,5)] assms(6) by (simp only: kills_def)

text \<open>The pod of one container at work: three rounds, nothing to wait for.\<close>

theorem pod_killed_witness:
  "\<exists>cs h. after (d_kill ''kill a'') ex_pod = with_calls cs (ex_pod\<lparr>heap := h\<rparr>) \<and>
     List.map_filter killOf cs = [(42, SIGKILL), (42, SIGKILL), (42, SIGKILL)] \<and>
     List.map_filter sleepOf cs = [80, 80]"
proof -
  have f: "Fields ''kill a'' = [''kill'', ''a'']" by code_simp
  have t: "namedByKill ''a'' [] (containers ex_pod) = [(''bctor-a1'', 0)]"
    by (simp add: ex_pod_tables namedByKill_def podOf_a1)
  have "containerID ''a'' 1 = ''bctor-a1''" "is_lower CHR ''a''" by code_simp+
  then have w: "\<forall>k \<in> fst ` set (containers ex_pod). wellNamed k"
    unfolding ex_pod_tables wellNamed_def by (auto intro!: exI [of _ "CHR ''a''"] exI [of _ "1 :: int"])
  have u: "unambiguous ''a'' (containers ex_pod)" by (simp add: unambiguous_def)
  have "roundSignals (heap ex_pod) [(''bctor-a1'', 0)] = [(42, SIGKILL)]" "roundWaits (heap ex_pod) [(''bctor-a1'', 0)] = []"
    by (simp_all add: roundSignals_def roundWaits_def signals_def waits_def victim_def ex_pod_tables ex_container_def)
  then show ?thesis
    using pod_killed [OF _ w f _ u t [symmetric]] by (fastforce simp: ex_pod_tables gomap_ok_def numeral_eq_Suc)
qed

end
