(* ===== verification/Keepalive.thy ===== *)
theory Keepalive
  imports Killing
begin

text \<open>
  The supervisor's ends of the keep-alive pipes, on which the inits of net roots wait. The start of a joiner or
  of a batch container frees its own at once. While containers run, three places of the code free one: the
  exit of a workload, the exit that leaves a net root alone in its pod, and the kill of a pod's last
  container. This theory shows that no end is freed twice.
\<close>

section \<open>Freeing\<close>

text \<open>The end that a container's object records, -1 if none, and the descriptors a run writes to.\<close>

definition keepEnd :: "Container \<Rightarrow> int" where
  "keepEnd c = (case CIPC c of None \<Rightarrow> -1 | Some ipc \<Rightarrow> snd (KeepAlive ipc))"

fun writeOf :: "call \<Rightarrow> int option" where
  "writeOf (FdC (Write fd data)) = Some fd"
| "writeOf _ = None"

definition written :: "call list \<Rightarrow> int list" where
  "written cs = List.map_filter writeOf cs"

lemma written_simps [simp]:
  "written [] = []" "written (c # cs) = (case writeOf c of None \<Rightarrow> [] | Some fd \<Rightarrow> [fd]) @ written cs"
  "written (cs @ ds) = written cs @ written ds"
  by (simp_all add: written_def map_filter_append List.map_filter_simps split: option.split)

lemma keepAliveOpen_end: "keepAliveOpen c \<longleftrightarrow> 0 \<le> keepEnd c"
  by (simp add: keepAliveOpen_def keepEnd_def split: option.split)

lemma keepEnd_closed [simp]: "keepEnd (closedKeepAlive c) = -1" "CSpec (closedKeepAlive c) = CSpec c"
  by (simp_all add: keepEnd_def closedKeepAlive_def split: option.split)

text \<open>
  \<open>frees A m s\<close>: from \<open>s\<close>, \<open>m\<close> writes to the ends of the objects at \<open>A\<close> and to nothing else; they are of net
  roots, were open, no object occurs twice, and afterwards these ends and no others are closed.
\<close>

definition frees :: "nat list \<Rightarrow> ('z app_scheme, 'a) state \<Rightarrow> 'z app_scheme \<Rightarrow> bool" where
  "frees A m s \<longleftrightarrow> (\<exists>cs. trace (after m s) = trace s @ cs \<and> written cs = map (\<lambda>a. keepEnd (heap s a)) A) \<and>
     distinct A \<and> set A \<subseteq> {a. isNetRoot (heap s a) \<and> keepAliveOpen (heap s a)} \<and>
     (\<forall>a. keepEnd (heap (after m s) a) = (if a \<in> set A then -1 else keepEnd (heap s a)) \<and>
        CSpec (heap (after m s) a) = CSpec (heap s a))"

lemma frees_bind:
  assumes 1: "frees A m s" and 2: "frees B (f (result m s)) (after m s)"
  shows "frees (A @ B) (m \<bind> f) s"
proof -
  let ?t = "after m s"
  have a: "after (m \<bind> f) s = after (f (result m s)) ?t" by (simp add: after_def result_def split: prod.split)
  have t: "keepEnd (heap ?t a) = (if a \<in> set A then -1 else keepEnd (heap s a))" "CSpec (heap ?t a) = CSpec (heap s a)" for a
    using 1 by (simp_all add: frees_def)
  have open_t: "0 \<le> keepEnd (heap ?t a)" "isNetRoot (heap ?t a)" if "a \<in> set B" for a
    using 2 that by (auto simp: frees_def keepAliveOpen_end)
  have disj: "a \<notin> set A" if "a \<in> set B" for a using open_t(1) [OF that] by (auto simp: t split: if_splits)
  have root: "isNetRoot (heap s a) = isNetRoot (heap ?t a)" for a by (simp add: isNetRoot_def t)
  have b: "set B \<subseteq> {a. isNetRoot (heap s a) \<and> keepAliveOpen (heap s a)}"
    using open_t disj by (fastforce simp: keepAliveOpen_end t root)
  have e: "map (\<lambda>a. keepEnd (heap ?t a)) B = map (\<lambda>a. keepEnd (heap s a)) B" using disj by (simp add: t)
  obtain cs ds where "trace ?t = trace s @ cs" "written cs = map (\<lambda>a. keepEnd (heap s a)) A"
    "trace (after (f (result m s)) ?t) = trace ?t @ ds" "written ds = map (\<lambda>a. keepEnd (heap ?t a)) B"
    using 1 2 by (auto simp: frees_def)
  then have "\<exists>cs. trace (after (m \<bind> f) s) = trace s @ cs \<and> written cs = map (\<lambda>a. keepEnd (heap s a)) (A @ B)"
    by (intro exI [of _ "cs @ ds"]) (simp add: a e)
  moreover have "distinct (A @ B)" using 1 2 disj by (auto simp: frees_def)
  moreover have "set (A @ B) \<subseteq> {a. isNetRoot (heap s a) \<and> keepAliveOpen (heap s a)}"
    using 1 b by (simp add: frees_def)
  moreover have "keepEnd (heap (after (m \<bind> f) s) a) = (if a \<in> set (A @ B) then -1 else keepEnd (heap s a)) \<and>
      CSpec (heap (after (m \<bind> f) s) a) = CSpec (heap s a)" for a
    using 2 by (simp add: frees_def a t)
  ultimately show ?thesis by (simp add: frees_def)
qed

lemma frees_freeKeepAlive:
  assumes "isNetRoot (heap s a)" and "keepAliveOpen (heap s a)"
  shows "frees [a] (freeKeepAlive a) s"
proof -
  obtain ipc where i: "CIPC (heap s a) = Some ipc" using assms(2) by (auto simp: keepAliveOpen_def split: option.splits)
  then have r: "after (freeKeepAlive a) s = with_calls [FdC (Write (snd (KeepAlive ipc)) [CHR 0x01]), FdC (Close (snd (KeepAlive ipc)))]
      (s\<lparr>heap := (heap s)(a := closedKeepAlive (heap s a))\<rparr>)"
    by (simp add: after_def freeKeepAlive_def emit_with_calls with_calls_heap)
  then show ?thesis using assms i by (simp add: frees_def) (simp add: keepEnd_def)
qed

text \<open>\<open>tidy m s\<close> for some objects; \<open>tame\<close> computations free nothing, from any state.\<close>

definition tidy :: "('z app_scheme, 'a) state \<Rightarrow> 'z app_scheme \<Rightarrow> bool" where
  "tidy m s \<longleftrightarrow> (\<exists>A. frees A m s)"

definition tame :: "('z app_scheme, 'a) state \<Rightarrow> bool" where
  "tame m \<longleftrightarrow> (\<forall>s. frees [] m s)"

named_theorems tidy_rules \<open>computations that free each keep-alive pipe at most once\<close>

lemma tameI:
  "(\<And>s. \<exists>cs. trace (after m s) = trace s @ cs \<and> written cs = [] \<and> heap (after m s) = heap s) \<Longrightarrow> tame m"
  unfolding tame_def frees_def by simp metis

lemma tidy_bind [tidy_rules]: "tidy m s \<Longrightarrow> tidy (f (result m s)) (after m s) \<Longrightarrow> tidy (m \<bind> f) s"
  unfolding tidy_def using frees_bind by blast

lemma tidy_tame: "tame m \<Longrightarrow> tidy m s"
  unfolding tidy_def tame_def by blast

lemma tame_run:
  "(\<And>s. \<exists>cs t. run_state m s = (r s, with_calls cs t) \<and> trace t = trace s \<and> heap t = heap s \<and> written cs = []) \<Longrightarrow> tame m"
  by (rule tameI) (metis after_def snd_conv with_calls_simps(1) heap_with_calls(1))

lemma tame_bind [tidy_rules]: "tame m \<Longrightarrow> (\<And>x. tame (f x)) \<Longrightarrow> tame (m \<bind> f)"
  unfolding tame_def using frees_bind [of "[]" m _ "[]" f] by fastforce

lemma tame_obind [tidy_rules]: "tame m \<Longrightarrow> (\<And>x. tame (f x)) \<Longrightarrow> tame (obind m f)"
  unfolding obind_def by (rule tame_bind, assumption) (auto simp: tame_def frees_def after_def split: outcome.split)

lemma tame_split [tidy_rules]:
  "tame m \<Longrightarrow> tame n \<Longrightarrow> tame (if b then m else n)"
  "tame m \<Longrightarrow> (\<And>x. tame (f x)) \<Longrightarrow> tame (case v of None \<Rightarrow> m | Some x \<Rightarrow> f x)"
  "(\<And>e. tame (k e)) \<Longrightarrow> (\<And>x. tame (g x)) \<Longrightarrow> tame (case r of Inl e \<Rightarrow> k e | Inr x \<Rightarrow> g x)"
  "(\<And>x y. tame (l x y)) \<Longrightarrow> tame (case p of (x, y) \<Rightarrow> l x y)"
  "(\<And>x. tame (f x)) \<Longrightarrow> tame (let x = w in f x)"
  by (simp_all add: Let_def split: option.split sum.split prod.split)

lemma tame_prims [tidy_rules]:
  "tame (return x)" "tame State_Monad.get"
  by (rule tameI; simp add: after_def)+

lemma tame_sys [tidy_rules]:
  assumes "writeOf c = None"
  shows "tame (sys c)" "tame (sys_err c)" "tame (sys_int c)"
  by (rule tameI; simp add: after_def assms)+

lemma tame_Log [tidy_rules]:
  "tame (LogError fmt args)" "tame (LogInfo fmt args)" "tame (LogWarn fmt args)"
  by (rule tameI; simp add: after_def)+

lemma tame_update: "(\<And>s. trace (f s) = trace s \<and> heap (f s) = heap s) \<Longrightarrow> tame (State_Monad.update f)"
  by (rule tameI) (simp add: after_def State_Monad.update_def)

lemma tame_for_each [tidy_rules]: "(\<And>x. tame (f x)) \<Longrightarrow> tame (for_each xs f)"
  by (induction xs) (auto intro!: tidy_rules)

lemma tame_locked [tidy_rules]: "tame m \<Longrightarrow> tame (locked k m)"
  unfolding locked_def by (rule tidy_rules | simp)+

lemma tame_deferring [tidy_rules]: "tame d \<Longrightarrow> tame m \<Longrightarrow> tame (deferring d m)"
  unfolding deferring_def by (intro tidy_rules)

lemma tame_tables [tidy_rules]:
  "tame (deleteContainer k)" "tame (recordNet p net)" "tame (lookupContainer k)"
  unfolding deleteContainer_def recordNet_def lookupContainer_def by (rule tidy_rules tame_update | simp)+

lemma tame_state [tidy_rules]: "tame (writeContainer a (\<lambda>c. c\<lparr>CState := x\<rparr>))"
  unfolding tame_def frees_def by (simp add: after_def keepEnd_def)

lemma tame_cleaning [tidy_rules]:
  "tame (dropHandles cid)" "tame (CleanupForward p)" "tame (CleanupContainerNetworking res)"
  unfolding dropHandles_def CleanupForward_def CleanupContainerNetworking_def Release_def
  by (rule tidy_rules tame_update | simp)+

lemma tame_cleanPod [tidy_rules]: "tame (cleanPod p)"
  unfolding cleanPod_def by (rule tidy_rules tame_update | simp)+

lemma tame_DrawBox [tidy_rules]: "tame (DrawBox title ls)"
  unfolding DrawBox_def by (rule tidy_rules | simp)+

section \<open>The three places\<close>

lemma tidy_freeKeepAlive: "isNetRoot (heap s a) \<Longrightarrow> keepAliveOpen (heap s a) \<Longrightarrow> tidy (freeKeepAlive a) s"
  unfolding tidy_def using frees_freeKeepAlive by blast

lemma scanPod_root:
  "scanPod p h cs n root = (k, Some a) \<Longrightarrow> (\<And>b. root = Some b \<Longrightarrow> isNetRoot (h b)) \<Longrightarrow> isNetRoot (h a)"
proof (induction cs arbitrary: n root)
  case (Cons x cs)
  obtain cid b where x: "x = (cid, b)" by (cases x)
  show ?case
  proof (cases "podOf cid = Some p")
    case True
    then obtain i where "splitContainerID cid = Some (p, i)" by (auto simp: podOf_def)
    with Cons.prems(1) have "scanPod p h cs (n + 1) (if isNetRoot (h b) then Some b else root) = (k, Some a)" by (simp add: x)
    then show ?thesis by (rule Cons.IH) (use Cons.prems(2) in \<open>auto split: if_splits\<close>)
  next
    case False
    with Cons.prems(1) have "scanPod p h cs n root = (k, Some a)"
      by (auto simp: x podOf_def split: option.splits if_splits)
    then show ?thesis by (rule Cons.IH) (rule Cons.prems(2))
  qed
qed simp

lemma tidy_release: "tidy (releaseLastNetRootKeepAlive p) s"
proof -
  obtain n root where sp: "scanPod p (heap s) (containers s) 0 None = (n, root)" by fastforce
  let ?m = "case root of None \<Rightarrow> return ()
    | Some a \<Rightarrow> if n = 1 \<and> keepAliveOpen (heap s a) then freeKeepAlive a else return ()"
  have "tidy ?m s"
    using sp scanPod_root [of p "heap s" "containers s" 0 None n]
    by (cases root) (auto simp: tidy_freeKeepAlive tidy_tame tame_prims)
  moreover have "run_state (releaseLastNetRootKeepAlive p) s = run_state ?m s"
    using sp by (simp add: releaseLastNetRootKeepAlive_def del: One_nat_def)
  ultimately show ?thesis by (simp add: tidy_def frees_def after_def)
qed

lemma tidy_run: "run_state m s = run_state n s \<Longrightarrow> tidy n s \<Longrightarrow> tidy m s"
  by (simp add: tidy_def frees_def after_def)

lemma tidy_reapWorkload:
  assumes "CSpec (heap s a) = Some spec"
  shows "tidy (reapWorkload a spec) s"
  unfolding reapWorkload_def
proof (rule tidy_bind)
  let ?t = "after (LogInfo ''Reaper: Workload for %s exited. Killing Init...'' [ArgS (ID spec)]) s"
  have h: "heap ?t = heap s" by (simp add: after_def)
  show "tidy (LogInfo ''Reaper: Workload for %s exited. Killing Init...'' [ArgS (ID spec)]) s"
    by (rule tidy_tame, rule tidy_rules)
  have "tidy (if IsNetRoot spec \<and> keepAliveOpen (heap ?t a) then freeKeepAlive a else return ()) ?t"
    using assms by (auto simp: h isNetRoot_def tidy_freeKeepAlive tidy_tame tame_prims)
  then show "tidy (readContainer a \<bind> (\<lambda>c. if IsNetRoot spec \<and> keepAliveOpen c then freeKeepAlive a else return ())) ?t"
    by (rule tidy_run [rotated]) simp
qed

lemma tidy_reapInit: "tidy (reapInit a spec pid) s"
proof -
  have r: "tame (readContainer a)" by (rule tameI) (simp add: after_def)
  have u: "tame (if b then recordNet p net else return ())" for b p net by (rule tidy_rules)+
  show ?thesis
    unfolding reapInit_def Let_def
    by (rule tidy_bind | rule tidy_release | rule tidy_tame, (rule tidy_rules r u)+)+
qed

section \<open>The operations\<close>

lemma tidy_get [tidy_rules]: "tidy (f s) s \<Longrightarrow> tidy (State_Monad.get \<bind> f) s"
  by (rule tidy_run [of _ _ "f s"]) simp

lemma tidy_sys [tidy_rules]: "tidy (f ()) (emit c s) \<Longrightarrow> writeOf c = None \<Longrightarrow> tidy (sys c \<bind> f) s"
  by (rule tidy_bind, rule tidy_tame, rule tame_sys) (simp_all add: after_def result_def)

lemma tidy_split [tidy_rules]:
  "(b \<Longrightarrow> tidy m s) \<Longrightarrow> (\<not> b \<Longrightarrow> tidy n s) \<Longrightarrow> tidy (if b then m else n) s"
  "(v = None \<Longrightarrow> tidy m s) \<Longrightarrow> (\<And>x. v = Some x \<Longrightarrow> tidy (f x) s) \<Longrightarrow> tidy (case v of None \<Rightarrow> m | Some x \<Rightarrow> f x) s"
  by (simp_all split: option.split)

lemma tidy_return [tidy_rules]: "tidy (return x) s"
  by (rule tidy_tame, rule tidy_rules)

lemma tidy_obind:
  assumes "tidy m s" and "\<And>x. result m s = Ret x \<Longrightarrow> tidy (f x) (after m s)"
  shows "tidy (obind m f) s"
  unfolding obind_def using assms by (intro tidy_bind) (auto simp: tidy_return split: outcome.split)

lemma tidy_locked: "tidy m (emit (UiC (Lock k)) s) \<Longrightarrow> tidy (locked k m) s"
  unfolding locked_def by (rule tidy_sys, rule tidy_bind, assumption) (rule tidy_rules | simp)+

lemma tidy_handleExit: "tidy (handleExit pid) s"
  unfolding handleExit_def
  by (rule tidy_sys tidy_get tidy_split tidy_return tidy_reapInit | (rule tidy_reapWorkload; assumption) | rule tidy_bind | (simp; fail))+

lemma tidy_handleEvent: "tidy (handleEvent ev) s"
proof (cases ev)
  case (EventChildExit pid status)
  then show ?thesis by (simp add: tidy_handleExit)
next
  case (EventSignal sig)
  have "tame (for_each cs (\<lambda>(cid, a). if InitPID (h a) > 0 then sys (PrC (Kill (InitPID (h a)) sig)) else return ()))"
    for cs :: "(string, nat) gomap" and h by (rule tidy_rules | simp)+
  note k = tidy_tame [OF this]
  have "tidy (handleSignal sig) s" unfolding handleSignal_def
    by (rule tidy_sys tidy_get k tidy_return | rule tidy_bind | (simp; fail))+
  with EventSignal show ?thesis by simp
qed

lemma tidy_handleEvents: "tidy (handleEvents evs) s"
  by (induction evs arbitrary: s) (auto intro!: tidy_obind tidy_handleEvent tidy_return)

lemma tidy_killSection: "tidy (killSection cid) s"
proof -
  have "tidy (if isNetRoot (heap t a) \<and> keepAliveOpen (heap t a) \<and> b then freeKeepAlive a else return ()) (emit c t)"
    for a b c and t :: "'a app_scheme"
    by (auto intro!: tidy_freeKeepAlive tidy_return)
  note f = this
  show ?thesis
    unfolding killSection_def Let_def
    by (rule tidy_sys tidy_get f tidy_split tidy_return | rule tidy_bind | (simp; fail))+
qed

lemma tidy_sleep: "tidy (sys (PrC (SleepMs n))) s"
  by (rule tidy_tame, rule tame_sys) simp

lemma tidy_killAttempts: "tidy (killAttempts k cid) s"
  by (induction k arbitrary: s) (auto intro!: tidy_return tidy_bind tidy_locked tidy_killSection
      tidy_sleep split: option.split)

lemma tidy_killAll: "tidy (killAll ids) s"
  by (induction ids arbitrary: s) (auto intro!: tidy_return tidy_bind simp: killOneWithRetry_def tidy_killAttempts)

lemma tidy_killRounds: "tidy (killRounds k p) s"
  by (induction k arbitrary: s) (auto intro!: tidy_return tidy_bind tidy_locked tidy_get tidy_killAll
      tidy_sleep)

lemma tidy_d_kill: "tidy (d_kill input) s"
  unfolding d_kill_def killContainer_def killOneWithRetry_def Let_def
  by (rule tidy_split tidy_return tidy_killRounds tidy_killAttempts | (rule tidy_tame, rule tidy_rules; fail)
      | (rule tidy_tame, rule tame_locked, rule tidy_rules; fail) | rule tidy_bind | (simp; fail))+

section \<open>No end is freed twice\<close>

text \<open>What goes on while pods are up: events are handled and kill commands run.\<close>

datatype upkeep = Events "Event list" | KillCommand string

fun run_upkeep :: "upkeep \<Rightarrow> ('z app_scheme, unit) state" where
  "run_upkeep (Events evs) = do { _ \<leftarrow> handleEvents evs; return () }"
| "run_upkeep (KillCommand input) = d_kill input"

lemma tidy_upkeep: "tidy (for_each ops run_upkeep) s"
proof (induction ops arbitrary: s)
  case Nil
  then show ?case by (simp add: tidy_return)
next
  case (Cons op ops)
  have "tidy (run_upkeep op) s"
    by (cases op) (auto intro!: tidy_bind tidy_handleEvents tidy_d_kill tidy_return)
  then show ?case by (auto intro!: tidy_bind Cons.IH)
qed

lemma tidy_closed: "tidy m s \<Longrightarrow> \<not> keepAliveOpen (heap s a) \<Longrightarrow> \<not> keepAliveOpen (heap (after m s) a)"
  by (auto simp: tidy_def frees_def keepAliveOpen_end split: if_splits)

text \<open>The containers of a pod in the table, at their addresses.\<close>

definition podMembers :: "string \<Rightarrow> (string, nat) gomap \<Rightarrow> nat list" where
  "podMembers p m = map snd (filter (\<lambda>(k, a). podOf k = Some p) m)"

lemma scanPod_members:
  "scanPod p h cs n root =
    (n + length (podMembers p cs), foldl (\<lambda>r a. if isNetRoot (h a) then Some a else r) root (podMembers p cs))"
  by (induction p h cs n root rule: scanPod.induct) (auto simp: podMembers_def podOf_def split: option.split)

lemma release_ends:
  "keepAliveOpen (heap (after (releaseLastNetRootKeepAlive p) s) a) \<longleftrightarrow>
    keepAliveOpen (heap s a) \<and> \<not> (isNetRoot (heap s a) \<and> podMembers p (containers s) = [a])"
proof (cases "\<exists>b. podMembers p (containers s) = [b] \<and> isNetRoot (heap s b) \<and> keepAliveOpen (heap s b)")
  case True
  then obtain b where b: "podMembers p (containers s) = [b]" "isNetRoot (heap s b)" "keepAliveOpen (heap s b)" by blast
  then have "after (releaseLastNetRootKeepAlive p) s = after (freeKeepAlive b) s"
    by (simp add: after_def releaseLastNetRootKeepAlive_def scanPod_members)
  moreover have "keepEnd (heap (after (freeKeepAlive b) s) a) = (if a = b then -1 else keepEnd (heap s a))"
    using frees_freeKeepAlive [OF b(2,3)] by (simp add: frees_def)
  ultimately show ?thesis using b by (auto simp: keepAliveOpen_end)
next
  case False
  then have "after (releaseLastNetRootKeepAlive p) s = s"
    by (cases "podMembers p (containers s)" rule: remdups_adj.cases)
      (auto simp: after_def releaseLastNetRootKeepAlive_def scanPod_members split: option.split)
  then show ?thesis using False by auto
qed

text \<open>The exit of an init: the scan of the pod comes when the container's entry is gone.\<close>

lemma reapInit_ends:
  fixes s :: "'z app_scheme"
  assumes p: "podOf (ID spec) = Some p"
  obtains t :: "'z app_scheme" where "heap t = (heap s)(a := (heap s a)\<lparr>CState := ContainerExited\<rparr>)"
    "containers t = map_del (ID spec) (containers s)"
    "heap (after (reapInit a spec pid) s) = heap (after (releaseLastNetRootKeepAlive p) t)"
proof -
  define podName where "podName = (case podOf (ID spec) of None \<Rightarrow> [] | Some p \<Rightarrow> p)"
  define s2 where "s2 = (emit (UiC (Log TypeWarn ''Reaper: Container %s (PID %d) exited'' [ArgS (ID spec), ArgI pid]))
      (s\<lparr>heap := (heap s)(a := (heap s a)\<lparr>CState := ContainerExited\<rparr>)\<rparr>))\<lparr>podNet := netAfter (heap s a) spec (podNet s)\<rparr>"
  define s3 where "s3 = after (dropHandles (ID spec)) s2"
  define s4 where "s4 = (emit (UiC (TableWrite (ID spec))) s3)\<lparr>containers := map_del (ID spec) (containers s3)\<rparr>"
  define s5 where "s5 = after (releaseLastNetRootKeepAlive podName) s4"
  note f3 = core_eqD [OF trans [OF dropHandles_core [of "ID spec" s2, folded s3_def] core_update(4) [symmetric]], simplified]
  have run: "after (reapInit a spec pid) s =
      (if podOf (ID spec) \<noteq> None \<and> isPodEmpty podName (containers s5) then after (cleanPod podName) s5 else s5)"
    unfolding s5_def s4_def s3_def s2_def podName_def
    by (simp only: reapInit_def after_def case_prod_unfold Let_def run_recordNet run_state_bind
        run_writeContainer run_Log run_readContainer run_deleteContainer fst_conv snd_conv
        State_Monad.run_state_get) simp
  have "heap (after (cleanPod podName) s5) = heap s5"
    using arg_cong [OF cleanPod_core [of podName s5], of heap] by simp
  then have "heap (after (reapInit a spec pid) s) = heap s5" by (simp add: run)
  then show thesis using that [of s4] f3(1,3) unfolding s5_def by (simp add: s4_def s2_def podName_def p)
qed

lemma handleExit_ends:
  fixes s :: "'z app_scheme"
  assumes f: "findContainerByPID (heap s) (containers s) pid = Some b" and b: "pid = InitPID (heap s b)"
    and spec: "CSpec (heap s b) = Some spec" "\<not> IsNetRoot spec" and p: "podOf (ID spec) = Some p"
  shows "keepAliveOpen (heap (after (handleExit pid) s) a) \<longleftrightarrow> keepAliveOpen (heap s a) \<and>
    \<not> (isNetRoot (heap s a) \<and> podMembers p (map_del (ID spec) (containers s)) = [a])"
proof -
  let ?t = "after (if pid = WorkloadPID (heap s b) then reapWorkload b spec else return ()) (emit (UiC (Lock ScxMu)) s)"
  have t: "heap ?t = heap s" "containers ?t = containers s"
    using spec(2) by (simp_all add: after_def reapWorkload_def)
  obtain u :: "'z app_scheme" where u: "heap u = (heap ?t)(b := (heap ?t b)\<lparr>CState := ContainerExited\<rparr>)"
    "containers u = map_del (ID spec) (containers ?t)"
    "heap (after (reapInit b spec pid) ?t) = heap (after (releaseLastNetRootKeepAlive p) u)"
    by (rule reapInit_ends [OF p, of ?t b pid])
  have "heap (after (handleExit pid) s) = heap (after (reapInit b spec pid) ?t)"
    using f spec(1) b by (simp add: handleExit_def after_def case_prod_unfold)
  moreover have "keepAliveOpen (heap u a) = keepAliveOpen (heap s a)" "isNetRoot (heap u a) = isNetRoot (heap s a)"
    by (simp_all add: u(1) t keepAliveOpen_def isNetRoot_def)
  ultimately show ?thesis by (simp add: u(2,3) t release_ends)
qed


text \<open>A pod of a net root, its pipe open, and a joiner, whose init exits.\<close>

definition ex_joiner_spec :: ContainerSpec where
  "ex_joiner_spec = DefaultSpec\<lparr>ID := ''bctor-a2''\<rparr>"

definition ex_piped :: app where
  "ex_piped = ex_pod\<lparr>heap := (heap ex_pod)(0 := ex_container\<lparr>CIPC := Some (ex_ipc\<lparr>KeepAlive := (8, 9)\<rparr>)\<rparr>,
     1 := blankContainer\<lparr>CSpec := Some ex_joiner_spec, InitPID := 51, WorkloadPID := 52\<rparr>),
     containers := [(''bctor-a1'', 0), (''bctor-a2'', 1)]\<rparr>"


end
