(* ===== verification/Terminal.thy ===== *)
theory Terminal
  imports Killing
begin

text \<open>
  What the user sees and does: the logger's output on the multiplexer's terminal, the health of pods,
  the line editor, the routing of keys and output, and the commands that run in containers and end the program.
\<close>

section \<open>The logger on the multiplexer\<close>

interpretation console: mux_logger GetActiveID RefreshPrompt activeID "\<lambda>s. prompt @ lineBuf s"
proof
  fix s :: "'z app_scheme" and cs
  show "\<exists>cs. run_state GetActiveID s = (activeID s, with_calls cs s) \<and> shown cs = []"
    by (intro exI [of _ "[UiC (Lock MuxMu), UiC (Unlock MuxMu)]"]) (simp add: GetActiveID_def emit_with_calls)
  show "\<exists>cs. run_state RefreshPrompt s = ((), with_calls cs s) \<and> shown cs = prompt @ lineBuf s"
    by (intro exI [of _ "[UiC (Print (prompt @ lineBuf s))]"]) (simp add: RefreshPrompt_def emit_with_calls)
  show "activeID (with_calls cs s) = activeID s" "prompt @ lineBuf (with_calls cs s) = prompt @ lineBuf s"
    by simp_all
qed

text \<open>
  C38: the logger writes to the terminal exactly what each message calls for, in order: a container's
  line raw if that container is attached, framed if not; headers and footers never; and the
  prompt with the line being typed again after each message, but only while nothing is attached.
\<close>

theorem logger_output:
  "shown (calls (StartGlobalLogger GetActiveID RefreshPrompt msgs) s) =
    concat (map (msgText (activeID s) (prompt @ lineBuf s)) msgs)"
proof -
  obtain cs where "run_state (StartGlobalLogger GetActiveID RefreshPrompt msgs) s =
      ((), with_calls (cs @ [UiC (ChanSend ''done'')]) s)"
    "shown cs = concat (map (msgText (activeID s) (prompt @ lineBuf s)) msgs)"
    using console.logger_text [of msgs s] by blast
  then show ?thesis by (simp add: calls_def)
qed

section \<open>Pods' health\<close>

lemma StripANSI_byte: "c \<noteq> CHR 0x1B \<Longrightarrow> StripANSI (c # r) = c # StripANSI r"
  by (subst StripANSI.simps) (simp add: ansi_len_def split: list.split)

lemma StripANSI_colour: "(\<And>c. c \<in> set ds \<Longrightarrow> param_byte c) \<Longrightarrow> StripANSI (esc (ds @ CHR ''m'' # r)) = StripANSI r"
proof -
  assume ds: "\<And>c. c \<in> set ds \<Longrightarrow> param_byte c"
  have m: "\<not> param_byte (CHR ''m'')" by code_simp
  have t: "takeWhile param_byte (ds @ CHR ''m'' # r) = ds"
    using ds m by (subst takeWhile_append2) auto
  have d: "dropWhile param_byte (ds @ CHR ''m'' # r) = CHR ''m'' # r"
    using ds m by (subst dropWhile_append2) auto
  have "ansi_len (esc (ds @ CHR ''m'' # r)) = 3 + length ds"
    by (simp add: ansi_len_def esc_def t d)
  then show ?thesis by (subst StripANSI.simps) (simp add: esc_def numeral_eq_Suc)
qed

lemma StripANSI_colours:
  "StripANSI (Green @ r) = StripANSI r" "StripANSI (Red @ r) = StripANSI r" "StripANSI (Reset @ r) = StripANSI r"
proof -
  have digit: "param_byte (CHR ''0'')" "param_byte (CHR ''1'')" "param_byte (CHR ''2'')" "param_byte (CHR ''3'')"
    by code_simp+
  have "StripANSI (esc (''32'' @ CHR ''m'' # r)) = StripANSI r" by (rule StripANSI_colour) (auto simp: digit)
  then show "StripANSI (Green @ r) = StripANSI r" by (simp add: Green_def esc_def)
  have "StripANSI (esc (''31'' @ CHR ''m'' # r)) = StripANSI r" by (rule StripANSI_colour) (auto simp: digit)
  then show "StripANSI (Red @ r) = StripANSI r" by (simp add: Red_def esc_def)
  have "StripANSI (esc (''0'' @ CHR ''m'' # r)) = StripANSI r" by (rule StripANSI_colour) (auto simp: digit)
  then show "StripANSI (Reset @ r) = StripANSI r" by (simp add: Reset_def esc_def)
qed

lemma StripANSI_dots: "StripANSI (fullDot @ r) = fullDot @ StripANSI r" "StripANSI (emptyDot @ r) = emptyDot @ StripANSI r"
  by (simp_all add: fullDot_def emptyDot_def StripANSI_byte)

lemma rune_dots: "rune fullDot" "rune emptyDot"
  by (simp_all add: rune_def fullDot_def emptyDot_def well_formed3_def in_range_def)

lemma healthBar_width: "RuneCount (StripANSI (healthBar up dead)) = up + dead"
proof -
  have "StripANSI (Repeat (Red @ emptyDot) n @ Reset) = concat (replicate n emptyDot)" for n
    using StripANSI_colours(3) [of "[]"]
    by (induction n) (simp_all add: Repeat_def StripANSI_colours StripANSI_dots StripANSI.simps [of "[]"])
  then have "StripANSI (Repeat (Green @ fullDot) m @ Repeat (Red @ emptyDot) n @ Reset) =
      concat (replicate m fullDot @ replicate n emptyDot)" for m n
    by (induction m) (simp_all add: Repeat_def StripANSI_colours StripANSI_dots)
  moreover have "runes (concat (replicate m fullDot @ replicate n emptyDot) @ []) =
      (replicate m fullDot @ replicate n emptyDot) @ runes []" for m n
    by (rule runes_concat) (auto simp: rune_dots)
  ultimately show ?thesis by (simp add: healthBar_def RuneCount_def runes.simps [of "[]"])
qed

lemma countOf_bump: "countOf p (bump q m) = countOf p m + (if p = q then 1 else 0)"
  by (simp add: countOf_def bump_def)

lemma countPods_counts:
  assumes "\<And>t pid. o_err s t (PrC (Kill pid SIGNONE)) = None \<longleftrightarrow> live pid"
  shows "\<exists>counts' living' cs. run_state (countPods ts counts living) s = ((counts', living'), with_calls cs s) \<and>
    countOf p counts' = countOf p counts + length (filter (\<lambda>(cid, t). podOf cid = Some p) ts) \<and>
    countOf p living' = countOf p living + length (filter (\<lambda>(cid, t). podOf cid = Some p \<and> live (TPID t)) ts)"
  using assms
proof (induction ts counts living arbitrary: s rule: countPods.induct)
  case (1 counts living)
  show ?case by (auto intro: exI [of _ "[]"])
next
  case (2 cid t ts counts living)
  show ?case
  proof (cases "podOf cid")
    case None
    with 2(1) [OF None, of s] 2(3) show ?thesis by simp
  next
    case (Some pod)
    let ?c = "PrC (Kill (TPID t) SIGNONE)"
    from 2(2) [OF Some, where s = "emit ?c s" and x = "live (TPID t)"] 2(3) obtain a b cs where
      "run_state (countPods ts (bump pod counts) (if live (TPID t) then bump pod living else living)) (emit ?c s) =
        ((a, b), with_calls cs (emit ?c s))"
      "countOf p a = countOf p (bump pod counts) + length (filter (\<lambda>(cid, t). podOf cid = Some p) ts)"
      "countOf p b = countOf p (if live (TPID t) then bump pod living else living) +
        length (filter (\<lambda>(cid, t). podOf cid = Some p \<and> live (TPID t)) ts)" by auto
    then show ?thesis
      using Some 2(3) [of "trace s" "TPID t"]
      by (intro exI [of _ a] exI [of _ b] exI [of _ "?c # cs"]) (auto simp: alive_def countOf_bump)
  qed
qed

text \<open>
  The health that \<open>list\<close> shows of a pod: the count of the containers with a terminal that are named in
  the pod, of them as alive those whose process the kernel still knows, and one dot for each
  container, so never more alive than there are.
\<close>

theorem pod_health:
  assumes "\<And>t pid. o_err s t (PrC (Kill pid SIGNONE)) = None \<longleftrightarrow> live pid"
    and "result (countPods ts [] []) s = (counts, living)"
  shows "countOf p counts = length (filter (\<lambda>(cid, t). podOf cid = Some p) ts) \<and>
    countOf p living = length (filter (\<lambda>(cid, t). podOf cid = Some p \<and> live (TPID t)) ts) \<and>
    countOf p living \<le> countOf p counts \<and>
    RuneCount (StripANSI (healthBar (countOf p living) (countOf p counts - countOf p living))) = countOf p counts"
proof -
  from countPods_counts [OF assms(1), where ts = ts and counts = "[]" and living = "[]" and p = p] assms(2)
  have c: "countOf p counts = length (filter (\<lambda>(cid, t). podOf cid = Some p) ts)"
    "countOf p living = length (filter (\<lambda>(cid, t). podOf cid = Some p \<and> live (TPID t)) ts)"
    by (auto simp: result_def countOf_def)
  have "length (filter (\<lambda>(cid, t). podOf cid = Some p \<and> live (TPID t)) ts) \<le>
      length (filter (\<lambda>(cid, t). podOf cid = Some p) ts)"
    by (induction ts) auto
  then show ?thesis using c by (simp add: healthBar_width)
qed


section \<open>The line editor\<close>

text \<open>What a byte other than Enter does to the line being typed.\<close>

definition edit :: "string \<Rightarrow> char \<Rightarrow> string" where
  "edit buf b =
     (if b = CHR 0x03 then buf
      else if b = CHR 0x7F \<or> b = CHR 0x08 then butlast buf
      else buf @ [b])"

definition isEnter :: "char \<Rightarrow> bool" where
  "isEnter b \<longleftrightarrow> b = CHR 0x0D \<or> b = CHR 0x0A"

lemma lineBuf_same: "s\<lparr>lineBuf := lineBuf s\<rparr> = s" for s :: "'z app_scheme"
  by simp

lemma lineBuf_calls: "(with_calls cs s)\<lparr>lineBuf := b\<rparr> = with_calls cs (s\<lparr>lineBuf := b\<rparr>)" for s :: "'z app_scheme"
  by (simp add: with_calls_def)

lemma run_setLineBuf [simp]: "run_state (setLineBuf b) s = ((), s\<lparr>lineBuf := b\<rparr>)"
  by (simp add: setLineBuf_def State_Monad.update_def)

lemma run_printf [simp]: "run_state (printf fmt args) s = ((), emit (UiC (Printf fmt args)) s)"
  by (simp add: printf_def)

lemma editing:
  assumes "\<forall>b \<in> set bs. \<not> isEnter b"
  shows "\<exists>cs. run_state (handleSupervisorInput (bs @ rest)) s =
    run_state (handleSupervisorInput rest) (with_calls cs (s\<lparr>lineBuf := foldl edit (lineBuf s) bs\<rparr>))"
  using assms
proof (induction bs arbitrary: s)
  case Nil
  show ?case by (auto intro: exI [of _ "[]"])
next
  case (Cons b bs)
  obtain ds where b: "run_state (handleSupervisorInput (b # bs @ rest)) s =
      run_state (handleSupervisorInput (bs @ rest)) (with_calls ds (s\<lparr>lineBuf := edit (lineBuf s) b\<rparr>))"
  proof -
    have n: "b \<noteq> CHR 0x0D" "b \<noteq> CHR 0x0A" using Cons.prems by (simp_all add: isEnter_def)
    consider "b = CHR 0x03" | "b = CHR 0x7F \<or> b = CHR 0x08" "lineBuf s = []"
      | "b = CHR 0x7F \<or> b = CHR 0x08" "lineBuf s \<noteq> []"
      | "b \<noteq> CHR 0x03" "b \<noteq> CHR 0x7F" "b \<noteq> CHR 0x08" by blast
    then show thesis
    proof cases
      case 1
      then show thesis
        by (intro that [of "[UiC (Print (''^C'' @ CRLF))]"]) (simp add: edit_def emit_with_calls)
    next
      case 2
      then have "b \<noteq> CHR 0x03" by auto
      moreover have e: "with_calls [] (s\<lparr>lineBuf := edit (lineBuf s) b\<rparr>) = s"
        using 2 lineBuf_same [of s] by (auto simp: edit_def)
      ultimately show thesis using 2 n by (intro that [of "[]"], unfold e) simp
    next
      case 3
      then have "b \<noteq> CHR 0x03" by auto
      then show thesis
        using 3 n by (intro that [of "[UiC (Print [CHR 0x08, CHR '' '', CHR 0x08])]"])
          (simp add: edit_def emit_with_calls)
    next
      case 4
      then show thesis
        using n by (intro that [of "[UiC (Printf ''%c'' [ArgI (of_char b)])]"]) (simp add: edit_def emit_with_calls)
    qed
  qed
  obtain es where "run_state (handleSupervisorInput (bs @ rest)) (with_calls ds (s\<lparr>lineBuf := edit (lineBuf s) b\<rparr>)) =
      run_state (handleSupervisorInput rest)
        (with_calls es ((with_calls ds (s\<lparr>lineBuf := edit (lineBuf s) b\<rparr>))\<lparr>lineBuf := foldl edit (edit (lineBuf s) b) bs\<rparr>))"
    using Cons.IH [of "with_calls ds (s\<lparr>lineBuf := edit (lineBuf s) b\<rparr>)"] Cons.prems by auto
  with b show ?case
    by (intro exI [of _ "ds @ es"]) (simp add: lineBuf_calls del: handleSupervisorInput.simps)
qed

text \<open>
  C16: a line is what was typed since the last Enter, with each backspace taking back the byte before it
  and Ctrl+C ignored, whatever the chunks it arrives in; Enter runs it, and what
  follows Enter in the same chunk is dropped.
\<close>

theorem line_editor:
  assumes "\<forall>b \<in> set bs. \<not> isEnter b"
  shows "(\<exists>cs. run_state (handleSupervisorInput bs) s =
      (Ret (), with_calls cs (s\<lparr>lineBuf := foldl edit (lineBuf s) bs\<rparr>))) \<and>
    (isEnter b \<longrightarrow> (\<exists>cs. run_state (handleSupervisorInput (bs @ b # rest)) s =
      run_state enterLine (with_calls cs (s\<lparr>lineBuf := foldl edit (lineBuf s) bs\<rparr>))))"
proof (intro conjI impI)
  show "\<exists>cs. run_state (handleSupervisorInput bs) s =
      (Ret (), with_calls cs (s\<lparr>lineBuf := foldl edit (lineBuf s) bs\<rparr>))"
    using editing [OF assms, of "[]" s] by auto
  assume "isEnter b"
  then have "handleSupervisorInput (b # rest) = (enterLine :: ('a app_scheme, _) state)"
    by (auto simp: isEnter_def)
  then show "\<exists>cs. run_state (handleSupervisorInput (bs @ b # rest)) s =
      run_state enterLine (with_calls cs (s\<lparr>lineBuf := foldl edit (lineBuf s) bs\<rparr>))"
    using editing [OF assms, of "b # rest" s] by simp
qed

section \<open>Leaving\<close>

definition killCalls :: "Container \<Rightarrow> call list" where
  "killCalls c = (case victim c of None \<Rightarrow> [] | Some pid \<Rightarrow> [PrC (Kill pid SIGKILL)])"

lemma run_killForExit: "run_state (killForExit c) s = ((), with_calls (killCalls c) s)"
  by (simp add: killForExit_def killCalls_def victim_def emit_with_calls)

lemma with_calls_containers: "with_calls cs (s\<lparr>containers := x\<rparr>) = (with_calls cs s)\<lparr>containers := x\<rparr>"
  by (simp add: with_calls_def)

lemma exit_loop:
  "run_state (for_each xs (\<lambda>(cid, a). do { _ \<leftarrow> killForExit (h a); deleteContainer cid })) s =
    ((), with_calls (concat (map (\<lambda>(cid, a). killCalls (h a) @ [UiC (TableWrite cid)]) xs))
      (s\<lparr>containers := foldl (\<lambda>m k. map_del k m) (containers s) (map fst xs)\<rparr>))"
  by (induction xs arbitrary: s) (auto simp: run_killForExit with_calls_containers emit_with_calls)

text \<open>
  The calls of \<open>exit\<close> up to the look for the bridge: under the mutex, one signal for each container that has a pid,
  and each entry deleted; then the network rule removed.
\<close>

definition leaving :: "'z app_scheme \<Rightarrow> call list" where
  "leaving s = [UiC (Log TypeInfo ''Supervisor shutting down. Cleaning up global network...'' []), UiC (Lock ScxMu)] @
     concat (map (\<lambda>(cid, a). killCalls (heap s a) @ [UiC (TableWrite cid)]) (containers s)) @
     [UiC (Unlock ScxMu), nat_rule ''-D'' ''10.0.0.0/24'' (iface s)]"

text \<open>
  C17: \<open>exit\<close> ends the process with status 0, and before that kills every container's workload, or its init
  if there is no workload yet, empties the table, and removes the network rule; and it removes the bridge exactly if
  the kernel says, when asked, that it is there. All under the mutex as far as the table is concerned.
\<close>

theorem exit_cleans_up:
  "result d_exit s = Exit 0 \<and> containers (after d_exit s) = [] \<and>
   calls d_exit s = leaving s @ [NetC (LinkByName ''bctor0'')] @
     (case o_int s (trace s @ leaving s) (NetC (LinkByName ''bctor0'')) of
        Inl _ \<Rightarrow> [] | Inr _ \<Rightarrow> [NetC (LinkDel ''bctor0'')]) @
     [UiC (Log TypeSuccess ''Global cleanup complete. Goodbye!'' [])]"
proof -
  let ?s = "with_calls [UiC (Log TypeInfo ''Supervisor shutting down. Cleaning up global network...'' []),
    UiC (Lock ScxMu)] s"
  have e: "foldl (\<lambda>m k. map_del k m) (containers s) (map fst (containers s)) = []"
    unfolding del_all by (force simp: filter_empty_conv)
  note loop = exit_loop [of "containers s" "heap s" ?s]
  define bridge where "bridge =
    (case o_int s (trace s @ leaving s) (NetC (LinkByName ''bctor0'')) of Inl _ \<Rightarrow> [] | Inr _ \<Rightarrow> [NetC (LinkDel ''bctor0'')])"
  have "run_state d_exit s = (Exit 0, with_calls (leaving s @ [NetC (LinkByName ''bctor0'')] @ bridge @
      [UiC (Log TypeSuccess ''Global cleanup complete. Goodbye!'' [])]) (s\<lparr>containers := []\<rparr>))"
    using loop e unfolding bridge_def d_exit_def RemoveNATRule_def DeleteBridge_def leaving_def
    by (simp add: emit_with_calls with_calls_containers [symmetric] split: sum.split)
  then show ?thesis by (simp add: result_def after_def calls_def bridge_def)
qed


section \<open>Commands in containers\<close>

fun is_command :: "call \<Rightarrow> bool" where
  "is_command (PrC (Command _ _)) = True"
| "is_command _ = False"

definition inside :: "Target \<Rightarrow> string \<Rightarrow> call" where
  "inside t cmd = PrC (Command ''nsenter''
     [''-t'', Itoa (TPID t), ''-m'', ''-u'', ''-i'', ''-n'', ''-p'', ''sh'', ''-c'', cmd])"

text \<open>The container with an id is in the table, not known to have exited, and its workload is alive.\<close>

definition running :: "(int \<Rightarrow> bool) \<Rightarrow> string \<Rightarrow> 'z app_scheme \<Rightarrow> bool" where
  "running live cid s \<longleftrightarrow> (\<exists>a. map_get (containers s) cid = Some a \<and> CState (heap s a) \<noteq> ContainerExited \<and>
     0 < WorkloadPID (heap s a) \<and> live (WorkloadPID (heap s a)))"

text \<open>The only change the checks make is to mark containers as exited.\<close>

definition marked :: "'z app_scheme \<Rightarrow> 'z app_scheme \<Rightarrow> bool" where
  "marked s t \<longleftrightarrow> containers t = containers s \<and> o_err t = o_err s \<and>
     (\<forall>a. WorkloadPID (heap t a) = WorkloadPID (heap s a) \<and>
       (CState (heap s a) = ContainerExited \<longrightarrow> CState (heap t a) = ContainerExited))"

lemma marked_refl: "marked s s"
  by (simp add: marked_def)

lemma marked_calls [simp]: "marked s (with_calls cs t) = marked s t" "marked s (emit c t) = marked s t"
  by (simp_all add: marked_def)

lemma marked_exit [simp]:
  "marked s t \<Longrightarrow> marked s (t\<lparr>heap := (heap t)(a := (heap t a)\<lparr>CState := ContainerExited\<rparr>)\<rparr>)"
  by (simp add: marked_def)

lemma running_marked: "marked s t \<Longrightarrow> running live cid t \<Longrightarrow> running live cid s"
  by (auto simp: marked_def running_def)

lemma trace_heap: "trace (t\<lparr>heap := h\<rparr>) = trace t" "o_err (t\<lparr>heap := h\<rparr>) = o_err t"
  by simp_all

lemma execSection_run:
  assumes "marked s t" and live: "\<And>tr pid. o_err s tr (PrC (Kill pid SIGNONE)) = None \<longleftrightarrow> live pid"
  shows "\<exists>cs. trace (after (execSection cid) t) = trace t @ cs \<and> (\<forall>c \<in> set cs. \<not> is_command c) \<and>
    marked s (after (execSection cid) t) \<and> (result (execSection cid) t = RunIt \<longrightarrow> running live cid t)"
proof (cases "map_get (containers t) cid")
  case None
  then show ?thesis using assms(1) by (simp add: execSection_def after_def result_def)
next
  case (Some a)
  have l: "o_err t tr (PrC (Kill pid SIGNONE)) = None \<longleftrightarrow> live pid" for tr pid
    using assms by (simp add: marked_def)
  consider "CState (heap t a) = ContainerExited" | "CState (heap t a) \<noteq> ContainerExited" "WorkloadPID (heap t a) \<le> 0"
    | "CState (heap t a) \<noteq> ContainerExited" "0 < WorkloadPID (heap t a)" "live (WorkloadPID (heap t a))"
    | "CState (heap t a) \<noteq> ContainerExited" "0 < WorkloadPID (heap t a)" "\<not> live (WorkloadPID (heap t a))"
    by linarith
  then show ?thesis
  proof cases
    case 1
    then show ?thesis using Some assms(1) by (simp add: execSection_def after_def result_def)
  next
    case 2
    then show ?thesis using Some assms(1) by (simp add: execSection_def after_def result_def)
  next
    case 3
    then show ?thesis using Some assms(1) l
      by (intro exI [of _ "[PrC (Kill (WorkloadPID (heap t a)) SIGNONE)]"])
        (simp add: execSection_def after_def result_def alive_def running_def)
  next
    case 4
    then obtain e where "o_err t (trace t) (PrC (Kill (WorkloadPID (heap t a)) SIGNONE)) = Some e" using l by force
    then have "after (execSection cid) t = (emit (PrC (Kill (WorkloadPID (heap t a)) SIGNONE)) t)
        \<lparr>heap := (heap t)(a := (heap t a)\<lparr>CState := ContainerExited\<rparr>)\<rparr>"
      "result (execSection cid) t = Dead"
      using 4 Some by (simp_all add: execSection_def after_def result_def alive_def)
    then show ?thesis
      using marked_exit [of s "emit (PrC (Kill (WorkloadPID (heap t a)) SIGNONE)) t" a] assms(1) by simp
  qed
qed

lemma run_DrawBox:
  "run_state (DrawBox title ls) s =
    ((), with_calls (UiC (Print clearLine) # map (\<lambda>r. UiC (Print r)) (boxRows title ls)) s)"
  by (simp add: DrawBox_def run_for_each_sys)

definition execBody :: "nat \<Rightarrow> string \<Rightarrow> string \<times> Target \<Rightarrow> ('z app_scheme, unit) state" where
  "execBody n cmd = (\<lambda>(cid, t). do {
     r \<leftarrow> locked ScxMu (execSection cid);
     case r of RunIt \<Rightarrow> execOne cid t cmd | Dead \<Rightarrow> return ()
     | NotRunning \<Rightarrow> (if n = 1 then printf (CRLF @ ''[-] Cannot exec: %s is not running.'' @ CRLF) [ArgS cid] else return ())
   })"

lemma execBody_run:
  assumes m: "marked s t" and live: "\<And>tr pid. o_err s tr (PrC (Kill pid SIGNONE)) = None \<longleftrightarrow> live pid"
  shows "\<exists>cs. trace (after (execBody n cmd (cid, tg)) t) = trace t @ cs \<and> marked s (after (execBody n cmd (cid, tg)) t) \<and>
    (\<forall>c \<in> set cs. is_command c \<longrightarrow> c = inside tg cmd \<and> running live cid s)"
proof -
  let ?t = "emit (UiC (Lock ScxMu)) t"
  from execSection_run [of s ?t live cid] m live obtain cs where
    1: "trace (after (execSection cid) ?t) = trace ?t @ cs" "\<forall>c \<in> set cs. \<not> is_command c"
      "marked s (after (execSection cid) ?t)"
    and 2: "result (execSection cid) ?t = RunIt \<longrightarrow> running live cid ?t" by auto
  obtain r u where run: "run_state (execSection cid) ?t = (r, u)" by (cases "run_state (execSection cid) ?t")
  let ?u = "emit (UiC (Unlock ScxMu)) u"
  have u: "trace ?u = trace t @ (UiC (Lock ScxMu) # cs @ [UiC (Unlock ScxMu)])" "marked s ?u"
    "r = RunIt \<longrightarrow> running live cid ?t"
    using 1 2 run by (simp_all add: after_def result_def)
  show ?thesis
  proof (cases r)
    case RunIt
    let ?rows = "\<lambda>out. UiC (Print clearLine) # map (\<lambda>r. UiC (Print r))
      (boxRows (''EXEC: '' @ cid @ '' (PID: '' @ Itoa (TPID tg) @ '')'') (outputLines out))"
    obtain out where a: "after (execBody n cmd (cid, tg)) t = with_calls (inside tg cmd # ?rows out) ?u"
      using run RunIt
      by (simp add: execBody_def after_def execOne_def run_DrawBox inside_def emit_with_calls)
    have "running live cid s" using u(3) RunIt running_marked [of s ?t] m by simp
    then show ?thesis
      using 1(2) u(1,2) unfolding a
      by (intro exI [of _ "UiC (Lock ScxMu) # cs @ UiC (Unlock ScxMu) # inside tg cmd # ?rows out"]) auto
  next
    case NotRunning
    then show ?thesis
      using run 1(2) u(1,2)
      by (cases "n = 1") (auto simp: execBody_def after_def)
  next
    case Dead
    then show ?thesis using run 1(2) u(1,2) by (auto simp: execBody_def after_def)
  qed
qed

lemma exec_loop:
  assumes "marked s t" and live: "\<And>tr pid. o_err s tr (PrC (Kill pid SIGNONE)) = None \<longleftrightarrow> live pid"
  shows "\<exists>cs. trace (after (for_each xs (execBody n cmd)) t) = trace t @ cs \<and>
    (\<forall>c \<in> set cs. is_command c \<longrightarrow> (\<exists>(cid, tg) \<in> set xs. c = inside tg cmd \<and> running live cid s))"
  using assms(1)
proof (induction xs arbitrary: t)
  case Nil
  show ?case by (simp add: after_def)
next
  case (Cons x xs)
  obtain cid tg where x: "x = (cid, tg)" by (cases x)
  let ?u = "after (execBody n cmd (cid, tg)) t"
  from execBody_run [OF Cons.prems live] obtain cs where
    1: "trace ?u = trace t @ cs" "marked s ?u"
      "\<forall>c \<in> set cs. is_command c \<longrightarrow> c = inside tg cmd \<and> running live cid s" by blast
  from Cons.IH [OF 1(2)] obtain ds where
    2: "trace (after (for_each xs (execBody n cmd)) ?u) = trace ?u @ ds"
      "\<forall>c \<in> set ds. is_command c \<longrightarrow> (\<exists>(cid, tg) \<in> set xs. c = inside tg cmd \<and> running live cid s)" by blast
  have "after (for_each (x # xs) (execBody n cmd)) t = after (for_each xs (execBody n cmd)) ?u"
    by (simp add: x after_bind)
  then show ?case
    using 1 2 x by (intro exI [of _ "cs @ ds"]) auto
qed


lemma execTargets_subset: "execTargets targetID ts = Some xs \<Longrightarrow> set xs \<subseteq> set ts"
  by (auto simp: execTargets_def split: if_splits dest: map_of_SomeD)

lemma d_exec_body:
  "d_exec input =
     (let parts = SplitN (drop 1 input) (CHR '' '') 2
      in if length parts \<noteq> 2 then printf (CRLF @ ''[-] Usage: :<id> <command>'' @ CRLF) []
         else do {
           _ \<leftarrow> sys (UiC (Lock MuxMu));
           s \<leftarrow> State_Monad.get;
           case execTargets (parts ! 0) (targets s) of
             None \<Rightarrow> do {
               _ \<leftarrow> printf (CRLF @ ''[-] Unknown container: %s'' @ CRLF) [ArgS (fullID (parts ! 0))];
               sys (UiC (Unlock MuxMu))
             }
           | Some pending \<Rightarrow> do {
               _ \<leftarrow> sys (UiC (Unlock MuxMu));
               _ \<leftarrow> for_each pending (execBody (length pending) (TrimSpace (parts ! 1)));
               RefreshPrompt
             }
         })"
  unfolding d_exec_def execBody_def Let_def by (rule refl)

text \<open>
  C14: a command given to containers runs in no others: each \<open>nsenter\<close> that \<open>:\<close> starts is of the command
  typed, in the namespaces of a registered target whose container is in the table, is not known
  to have exited, and has a workload that is alive.
\<close>

theorem exec_confined:
  assumes live: "\<And>tr pid. o_err s tr (PrC (Kill pid SIGNONE)) = None \<longleftrightarrow> live pid"
  shows "\<exists>cs. trace (after (d_exec input) s) = trace s @ cs \<and>
    (\<forall>c \<in> set cs. is_command c \<longrightarrow> (\<exists>(cid, tg) \<in> set (targets s).
      c = inside tg (TrimSpace (SplitN (drop 1 input) (CHR '' '') 2 ! 1)) \<and> running live cid s))"
proof -
  let ?parts = "SplitN (drop 1 input) (CHR '' '') 2"
  let ?ok = "\<lambda>c. is_command c \<longrightarrow> (\<exists>(cid, tg) \<in> set (targets s).
      c = inside tg (TrimSpace (?parts ! 1)) \<and> running live cid s)"
  consider "length ?parts \<noteq> 2" | "length ?parts = 2" "execTargets (?parts ! 0) (targets s) = None"
    | xs where "length ?parts = 2" "execTargets (?parts ! 0) (targets s) = Some xs" by blast
  then show ?thesis
  proof cases
    case 1
    then show ?thesis by (simp add: d_exec_body after_def Let_def)
  next
    case 2
    then show ?thesis by (simp add: d_exec_body after_def Let_def)
  next
    case 3
    let ?t = "with_calls [UiC (Lock MuxMu), UiC (Unlock MuxMu)] s"
    let ?loop = "for_each xs (execBody (length xs) (TrimSpace (?parts ! 1)))"
    have "marked s ?t" by (simp add: marked_refl)
    from exec_loop [OF this live] obtain cs where
      1: "trace (after ?loop ?t) = trace ?t @ cs"
      "\<forall>c \<in> set cs. is_command c \<longrightarrow>
        (\<exists>(cid, tg) \<in> set xs. c = inside tg (TrimSpace (?parts ! 1)) \<and> running live cid s)" by blast
    let ?p = "UiC (Print (prompt @ lineBuf (after ?loop ?t)))"
    have "after (d_exec input) s = emit ?p (after ?loop ?t)"
      using 3 by (simp add: d_exec_body Let_def after_def RefreshPrompt_def emit_with_calls case_prod_unfold)
    then have "trace (after (d_exec input) s) = trace s @ (UiC (Lock MuxMu) # UiC (Unlock MuxMu) # cs @ [?p])"
      using 1(1) by simp
    moreover have "\<forall>c \<in> set cs. ?ok c" using 1(2) execTargets_subset [OF 3(2)] by blast
    ultimately show ?thesis
      by (intro exI [of _ "UiC (Lock MuxMu) # UiC (Unlock MuxMu) # cs @ [?p]"]) simp
  qed
qed


section \<open>Examples\<close>

definition ex_target :: Target where
  "ex_target = \<lparr>PTY = Some 3, TPID = 42\<rparr>"

definition ex_targets :: "(string, Target) gomap" where
  "ex_targets = [(''bctor-a1'', ex_target), (''bctor-a2'', ex_target), (''bctor-b1'', ex_target)]"

lemma ex_targets_a: "length (filter (\<lambda>(cid, t). podOf cid = Some ''a'') ex_targets) = 2"
  by code_simp

theorem pod_health_witness:
  "\<exists>counts living. result (countPods ex_targets [] []) quiet_os = (counts, living) \<and>
    countOf ''a'' counts = 2 \<and> RuneCount (StripANSI (healthBar (countOf ''a'' living) 0)) = 2"
proof -
  obtain counts living where r: "result (countPods ex_targets [] []) quiet_os = (counts, living)"
    by (cases "result (countPods ex_targets [] []) quiet_os")
  have "countOf ''a'' counts = 2 \<and> countOf ''a'' living = 2"
    using pod_health [OF _ r, of "\<lambda>_. True" "''a''"] ex_targets_a by (simp add: quiet_os_def)
  then show ?thesis using r by (auto simp: healthBar_width)
qed

lemma ex_pod_parts: "lineBuf ex_pod = []" "o_err ex_pod = (\<lambda>_ _. None)"
  by (simp_all add: ex_pod_def after_def enterRunning_def boot_def os.defs quiet_os_def)

theorem line_editor_witness:
  "\<exists>cs. run_state (handleSupervisorInput (''lz'' @ [CHR 0x7F] @ ''s'')) ex_pod =
    (Ret (), with_calls cs (ex_pod\<lparr>lineBuf := ''ls''\<rparr>))"
proof -
  have "\<forall>b \<in> set (''lz'' @ [CHR 0x7F] @ ''s''). \<not> isEnter b" by code_simp
  moreover have "foldl edit [] (''lz'' @ [CHR 0x7F] @ ''s'') = ''ls''" by code_simp
  ultimately show ?thesis using line_editor [of "''lz'' @ [CHR 0x7F] @ ''s''" ex_pod] ex_pod_parts(1) by simp
qed

theorem exec_confined_witness:
  "\<exists>cs. trace (after (d_exec '':a1 id'') (ex_pod\<lparr>targets := [(''bctor-a1'', ex_target)]\<rparr>)) =
      trace (ex_pod\<lparr>targets := [(''bctor-a1'', ex_target)]\<rparr>) @ cs \<and>
    set (filter is_command cs) \<subseteq> {inside ex_target ''id''}"
proof -
  let ?s = "ex_pod\<lparr>targets := [(''bctor-a1'', ex_target)]\<rparr>"
  have cmd: "TrimSpace (SplitN (drop 1 '':a1 id'') (CHR '' '') 2 ! 1) = ''id''" by code_simp
  have "\<And>tr pid. o_err ?s tr (PrC (Kill pid SIGNONE)) = None \<longleftrightarrow> True" by (simp add: ex_pod_parts)
  from exec_confined [OF this, of "'':a1 id''"] cmd obtain cs where
    "trace (after (d_exec '':a1 id'') ?s) = trace ?s @ cs"
    "\<forall>c \<in> set cs. is_command c \<longrightarrow> (\<exists>(cid, tg) \<in> set (targets ?s). c = inside tg ''id'' \<and> running (\<lambda>_. True) cid ?s)"
    by auto
  then show ?thesis by (intro exI [of _ cs]) auto
qed

section \<open>Routing\<close>

fun is_write :: "call \<Rightarrow> bool" where
  "is_write (FdC (Write fd data)) = True"
| "is_write _ = False"

fun printed :: "call \<Rightarrow> string option" where
  "printed (UiC (Print p)) = Some p"
| "printed _ = None"

lemma pipeLoop_feeds:
  assumes "feeds pty chunks s" and "length chunks < n"
  shows "\<exists>cs. run_state (pipeLoop n cid pty) s = (True, with_calls cs s) \<and>
    List.map_filter printed cs = (if activeID s = cid then chunks else [])"
  using assms
proof (induction n arbitrary: chunks s)
  case (Suc n)
  show ?case
  proof (cases chunks)
    case Nil
    with Suc.prems(1) obtain e where "o_str s (trace s) (FdC (Read pty)) = Inl e" using feeds_Nil by blast
    with Nil show ?thesis by (auto simp: emit_with_calls map_filter_simps intro!: exI [of _ "[FdC (Read pty)]"])
  next
    case (Cons c rest)
    let ?a = "activeID s = cid"
    let ?cs = "[UiC (Lock MuxMu), UiC (Unlock MuxMu)] @ (if ?a then [UiC (Print c)] else [])"
    let ?s = "with_calls ?cs (emit (FdC (Read pty)) s)"
    note r = feeds_Cons [OF Suc.prems(1) [unfolded Cons]]
    have f: "feeds pty rest ?s" by (rule feeds_calls [OF r(2)]) auto
    obtain cs where "run_state (pipeLoop n cid pty) ?s = (True, with_calls cs ?s)"
      "List.map_filter printed cs = (if ?a then rest else [])"
      using Suc.IH [OF f] Suc.prems(2) Cons by auto
    then show ?thesis
      using r(1) by (auto simp: Cons locked_def emit_with_calls map_filter_simps intro!: exI [of _ "FdC (Read pty) # ?cs @ cs"])
  qed
qed simp

text \<open>
  C8: with a container attached, what the user types goes to that container's terminal and to no
  other, in one write with its carriage returns as newlines, except for Ctrl+X by itself, which detaches;
  and of what the containers print, the user sees the attached one's output, all of it and in order, and no other's.
\<close>

theorem terminal_routed:
  assumes "activeID s \<noteq> []"
    and "map_get (targets s) cid = Some \<lparr>PTY = Some pty, TPID = pid\<rparr>"
    and "feeds pty chunks s" and "length chunks < n"
  shows "result (handleInput buf) s = Ret () \<and>
    activeID (after (handleInput buf) s) = (if buf = [CHR 0x18] then [] else activeID s) \<and>
    filter is_write (calls (handleInput buf) s) =
      (if buf = [CHR 0x18] then []
       else case Option.bind (map_get (targets s) (activeID s)) PTY of
         None \<Rightarrow> [] | Some fd \<Rightarrow> [FdC (Write fd (normalize buf))]) \<and>
    List.map_filter printed (calls (pipeOutput n cid) s) = (if activeID s = cid then chunks else [])"
proof -
  have i: "result (handleInput buf) s = Ret () \<and>
    activeID (after (handleInput buf) s) = (if buf = [CHR 0x18] then [] else activeID s) \<and>
    filter is_write (calls (handleInput buf) s) =
      (if buf = [CHR 0x18] then []
       else case Option.bind (map_get (targets s) (activeID s)) PTY of
         None \<Rightarrow> [] | Some fd \<Rightarrow> [FdC (Write fd (normalize buf))])"
    using assms(1)
    by (auto simp: handleInput_def ret_def detach_def muxWrite_def locked_def printf_def RefreshPrompt_def result_def after_def
      calls_def emit_with_calls State_Monad.update_def Let_def split: option.split sum.split)
  have "feeds pty chunks (with_calls [UiC (Lock MuxMu), UiC (Unlock MuxMu)] s)"
    by (rule feeds_calls [OF assms(3)]) simp
  then obtain cs where "run_state (pipeLoop n cid pty) (with_calls [UiC (Lock MuxMu), UiC (Unlock MuxMu)] s) =
      (True, with_calls cs (with_calls [UiC (Lock MuxMu), UiC (Unlock MuxMu)] s))"
    "List.map_filter printed cs = (if activeID s = cid then chunks else [])"
    using pipeLoop_feeds [OF _ assms(4), of pty "with_calls [UiC (Lock MuxMu), UiC (Unlock MuxMu)] s" cid] by auto
  then have "List.map_filter printed (calls (pipeOutput n cid) s) = (if activeID s = cid then chunks else [])"
    using assms(2) by (simp add: pipeOutput_def locked_def calls_def emit_with_calls map_filter_simps)
  with i show ?thesis by blast
qed

definition ex_term :: app where
  "ex_term = boot\<lparr>o_str := o_str ex_feed, activeID := ''bctor-a1'',
     targets := [(''bctor-a1'', \<lparr>PTY = Some 5, TPID = 42\<rparr>), (''bctor-a2'', \<lparr>PTY = Some 6, TPID = 44\<rparr>)]\<rparr>"

theorem terminal_routed_witness:
  "filter is_write (calls (handleInput ''ls'') ex_term) = [FdC (Write 5 ''ls'')] \<and>
    List.map_filter printed (calls (pipeOutput 3 ''bctor-a1'') ex_term) = ex_chunks"
proof -
  have "feeds 5 ex_chunks ex_term"
    by (simp add: feeds_def ex_term_def ex_feed_def boot_def os.defs quiet_os_def Let_def)
  moreover have "activeID ex_term = ''bctor-a1''" by (simp add: ex_term_def)
  moreover have "map_get (targets ex_term) ''bctor-a1'' = Some \<lparr>PTY = Some 5, TPID = 42\<rparr>" by (simp add: ex_term_def)
  moreover have "length ex_chunks < 3" by (simp add: ex_chunks_def)
  moreover have "normalize ''ls'' = ''ls''" by code_simp
  ultimately show ?thesis
    using terminal_routed [of ex_term "''bctor-a1''" 5 42 ex_chunks 3 "''ls''"] by simp
qed

end
