(* ===== verification/Confinement.thy ===== *)
theory Confinement
  imports Init
begin

text \<open>
  What a container's init may reach before its workload runs: \<open>PrepareRoot\<close> of \<open>lib/fs.go\<close> stays
  below the root it prepares, since the paths it joins are cleaned ones of plain names; and an
  init that needs cgroups does not go on without them.
\<close>

section \<open>Cleaned paths\<close>

lemma clean_out_plain:
  "(\<And>c. c \<in> set cs \<Longrightarrow> CHR ''/'' \<notin> set c) \<Longrightarrow> (\<And>n. n \<in> set out \<Longrightarrow> plain_name n) \<Longrightarrow>
    n \<in> set (foldl (clean_comp True) out cs) \<Longrightarrow> plain_name n"
proof (induction cs arbitrary: out)
  case (Cons c cs)
  have "plain_name m" if "m \<in> set (clean_comp True out c)" for m
  proof -
    have "\<not> plain_name ''..''" by (simp add: plain_name_def)
    then have "m \<in> set out \<or> m = c \<and> c \<noteq> [] \<and> c \<noteq> ''.'' \<and> c \<noteq> ''..''"
      using that Cons.prems(2) by (cases out) (auto split: if_splits)
    then show ?thesis using Cons.prems(1) [of c] Cons.prems(2) by (auto simp: plain_name_def)
  qed
  then show ?case using Cons.IH [of "clean_comp True out c"] Cons.prems(1,3) by simp
qed simp

lemma Clean_rooted:
  assumes "HasPrefix p ''/''"
  obtains ns where "\<And>n. n \<in> set ns \<Longrightarrow> plain_name n" "Clean p = CHR ''/'' # Join ns ''/''"
proof (rule that [of "rev (foldl (clean_comp True) [] (Split p CHR ''/''))"])
  show "plain_name n" if "n \<in> set (rev (foldl (clean_comp True) [] (Split p CHR ''/'')))" for n
    using that by (auto intro: clean_out_plain [of "Split p CHR ''/''" "[]"] dest: Split_pieces)
qed (use assms in \<open>simp add: Clean_def Let_def\<close>)

lemma Clean_plain:
  assumes "\<And>n. n \<in> set ns \<Longrightarrow> plain_name n"
  shows "Clean (CHR ''/'' # Join ns ''/'') = CHR ''/'' # Join ns ''/''"
proof -
  have "foldl (clean_comp True) [] (Split (CHR ''/'' # Join ns ''/'') CHR ''/'') = rev ns"
  proof (cases "ns = []")
    case False
    then have "Split (Join ns ''/'') CHR ''/'' = ns"
      using assms by (intro Split_Join) (auto simp: plain_name_def)
    then show ?thesis using foldl_clean_plain [of ns True "[]"] assms by simp
  qed simp
  then show ?thesis by (simp add: Clean_def Let_def)
qed

lemma PathJoin_clean:
  assumes p: "HasPrefix p ''/''" and n: "plain_name n"
  shows "Clean (PathJoin [p, n]) = PathJoin [p, n] \<and> HasPrefix (PathJoin [p, n]) ''/'' \<and> PathJoin [p, n] \<noteq> ''/'' \<and>
    (Clean p \<noteq> ''/'' \<longrightarrow> HasPrefix (PathJoin [p, n]) (Clean p @ ''/''))"
proof -
  from Clean_rooted [OF p] obtain ns where
    ns: "\<And>n. n \<in> set ns \<Longrightarrow> plain_name n" and c: "Clean p = CHR ''/'' # Join ns ''/''" by blast
  have "n \<noteq> []" using n by (simp add: plain_name_def)
  have e: "PathJoin [p, n] = CHR ''/'' # Join (ns @ [n]) ''/''"
  proof (cases "ns = []")
    case True
    then show ?thesis using PathJoin_below [OF p n] c by simp
  next
    case False
    have "Join ns ''/'' \<noteq> []"
    proof (cases ns)
      case (Cons m ms)
      then have "m \<noteq> []" using ns [of m] by (simp add: plain_name_def)
      then show ?thesis using Cons by (cases ms) simp_all
    qed (use False in simp)
    then show ?thesis using PathJoin_below [OF p n] c False by (simp add: Join_append1)
  qed
  have "Clean (PathJoin [p, n]) = PathJoin [p, n]"
    unfolding e using ns n by (intro Clean_plain) auto
  moreover have "PathJoin [p, n] \<noteq> ''/''"
    using PathJoin_below [OF p n] \<open>n \<noteq> []\<close> c by auto
  moreover have "Clean p \<noteq> ''/'' \<longrightarrow> HasPrefix (PathJoin [p, n]) (Clean p @ ''/'')"
    using PathJoin_below [OF p n] by (simp add: HasPrefix_iff)
  ultimately show ?thesis using e by simp
qed


section \<open>Where the root is prepared\<close>

text \<open>
  The paths that a call makes, changes or covers. \<open>MkdirAll\<close> makes the directory and every missing
  directory above it: all the pieces of the path that end before a slash.
\<close>

definition dirsOf :: "string \<Rightarrow> string list" where
  "dirsOf p = p # map (\<lambda>i. take i p) (filter (\<lambda>i. 0 < i \<and> p ! i = CHR ''/'') [0..<length p])"

fun touched :: "call \<Rightarrow> string list" where
  "touched (FsC (Mount src target fs flags data)) = [target]"
| "touched (FsC (UnmountDetach p)) = [p]"
| "touched (FsC (MkdirAll p)) = dirsOf p"
| "touched (FsC (OpenCreate p)) = [p]"
| "touched (FsC (WriteFile p data)) = [p]"
| "touched (FsC (Remove p)) = [p]"
| "touched (FsC (RemoveAll p)) = [p]"
| "touched (FsC (Symlink old new)) = [new]"
| "touched _ = []"

text \<open>The two mounts on \<open>/\<close> that only change how the tree propagates mounts.\<close>

definition propagation :: "call list" where
  "propagation = [FsC (Mount '''' ''/'' '''' [MS_REC, MS_SLAVE] ''''), FsC (Mount '''' ''/'' '''' [MS_REC, MS_PRIVATE] '''')]"

definition within :: "string \<Rightarrow> string \<Rightarrow> bool" where
  "within root p \<longleftrightarrow> p = root \<or> p = Clean root \<or> HasPrefix p (Clean root @ ''/'')"

text \<open>A directory above the root, as the path is written or cleaned.\<close>

definition above :: "string \<Rightarrow> string \<Rightarrow> bool" where
  "above root p \<longleftrightarrow> HasPrefix root (p @ ''/'') \<or> HasPrefix (Clean root) (p @ ''/'')"

fun makes_dir :: "call \<Rightarrow> bool" where
  "makes_dir (FsC (MkdirAll _)) = True"
| "makes_dir _ = False"

definition confinedTo :: "string \<Rightarrow> call \<Rightarrow> bool" where
  "confinedTo root c \<longleftrightarrow> c \<in> set propagation \<or>
     list_all (\<lambda>p. within root p \<or> makes_dir c \<and> above root p) (touched c)"

lemma dirsOf_iff: "q \<in> set (dirsOf p) \<longleftrightarrow> q = p \<or> q \<noteq> [] \<and> HasPrefix p (q @ ''/'')"
proof
  assume "q \<in> set (dirsOf p)"
  then consider "q = p" | i where "0 < i" "i < length p" "p ! i = CHR ''/''" "q = take i p"
    by (auto simp: dirsOf_def)
  then show "q = p \<or> q \<noteq> [] \<and> HasPrefix p (q @ ''/'')"
  proof cases
    case 2
    then have "p = q @ CHR ''/'' # drop (Suc i) p" by (metis id_take_nth_drop)
    then show ?thesis using 2 by (auto simp: HasPrefix_iff)
  qed simp
next
  assume "q = p \<or> q \<noteq> [] \<and> HasPrefix p (q @ ''/'')"
  then show "q \<in> set (dirsOf p)"
    by (auto simp: dirsOf_def HasPrefix_iff intro!: image_eqI [of _ _ "length q"])
qed

lemma root_dirs: "list_all (\<lambda>p. within root p \<or> above root p) (dirsOf root)"
  by (auto simp: list_all_iff dirsOf_iff within_def above_def)

definition below :: "string \<Rightarrow> string \<Rightarrow> bool" where
  "below root d \<longleftrightarrow> HasPrefix d ''/'' \<and> d \<noteq> ''/'' \<and> Clean d = d \<and> HasPrefix d (Clean root @ ''/'')"

lemma below_root: "\<lbrakk> HasPrefix root ''/''; Clean root \<noteq> ''/''; plain_name n \<rbrakk> \<Longrightarrow> below root (PathJoin [root, n])"
  using PathJoin_clean [of root n] by (simp add: below_def)

lemma HasPrefix_trans: "HasPrefix a b \<Longrightarrow> HasPrefix b c \<Longrightarrow> HasPrefix a c"
  by (auto simp: HasPrefix_iff)

lemma HasPrefix_add: "HasPrefix a c \<Longrightarrow> HasPrefix (a @ b) c"
  by (auto simp: HasPrefix_iff)

lemma below_join: "\<lbrakk> below root d; plain_name n \<rbrakk> \<Longrightarrow> below root (PathJoin [d, n])"
  using PathJoin_clean [of d n] HasPrefix_trans [of "PathJoin [d, n]" "d @ ''/''" "Clean root @ ''/''"]
    HasPrefix_add [of d "Clean root @ ''/''" "''/''"]
  by (simp add: below_def)

lemma below_within: "below root d \<Longrightarrow> within root d"
  by (simp add: below_def within_def)

lemma below_dirs:
  assumes "below root d" shows "list_all (\<lambda>p. within root p \<or> above root p) (dirsOf d)"
  unfolding list_all_iff
proof
  fix q assume "q \<in> set (dirsOf d)"
  then consider "q = d" | "HasPrefix d (q @ ''/'')" by (auto simp: dirsOf_iff)
  then show "within root q \<or> above root q"
  proof cases
    case 2
    then obtain u where u: "d = q @ CHR ''/'' # u" unfolding HasPrefix_iff by auto
    have "HasPrefix d (Clean root @ ''/'')" using assms unfolding below_def by blast
    then obtain v where v: "d = Clean root @ CHR ''/'' # v" unfolding HasPrefix_iff by auto
    from u v have "q @ CHR ''/'' # u = Clean root @ CHR ''/'' # v" by simp
    then consider w where "q = Clean root @ w" "w @ CHR ''/'' # u = CHR ''/'' # v"
      | w where "Clean root = q @ w" "w @ CHR ''/'' # v = CHR ''/'' # u"
      by (auto simp: append_eq_append_conv2)
    then show ?thesis
    proof cases
      case 1
      then show ?thesis by (cases w) (auto simp: within_def HasPrefix_iff)
    next
      case 2
      then show ?thesis by (cases w) (auto simp: within_def above_def HasPrefix_iff)
    qed
  qed (use assms below_within in auto)
qed

text \<open>Computations of which every call has a property, composed part by part.\<close>

lemma yields_all_bind:
  assumes "yields m (\<lambda>_ cs. \<forall>c \<in> set cs. S c)" and "\<And>x. yields (f x) (\<lambda>_ cs. \<forall>c \<in> set cs. S c)"
  shows "yields (m \<bind> f) (\<lambda>_ cs. \<forall>c \<in> set cs. S c)"
  by (rule yields_bind_rule [OF assms(1)], rule yields_mono [OF assms(2)]) auto

lemmas yields_all_rules = yields_all_bind yields_split yields_prims yields_return yields_Log

lemma yields_installBusybox_within:
  assumes "below root d"
  shows "yields (installBusybox d) (\<lambda>_ cs. \<forall>c \<in> set cs. confinedTo root c)"
proof -
  have j: "within root (PathJoin [d, n])" if n: "n \<in> {''busybox'', ''sh'', ''ls'', ''nc'', ''ip'', ''ping''}" for n
  proof -
    have "plain_name n" using n by (elim insertE emptyE) (simp_all add: plain_name_def)
    then show ?thesis by (rule below_within [OF below_join [OF assms]])
  qed
  show ?thesis
    unfolding installBusybox_def Let_def for_each.simps
    by (rule yields_all_rules | (simp add: confinedTo_def j; fail))+
qed

lemma yields_bindDevice_within:
  assumes "below root d" and "n \<in> {''null'', ''zero'', ''urandom''}"
  shows "yields (bindDevice d n) (\<lambda>_ cs. \<forall>c \<in> set cs. confinedTo root c)"
proof -
  have "plain_name n" using assms(2) by (elim insertE emptyE) (simp_all add: plain_name_def)
  then have j: "within root (PathJoin [d, n])" by (rule below_within [OF below_join [OF assms(1)]])
  show ?thesis
    unfolding bindDevice_def Let_def by (rule yields_all_rules | (simp add: confinedTo_def j; fail))+
qed

lemma yields_PrepareRoot_within:
  assumes r: "HasPrefix (Rootfs cfg) ''/''" "Clean (Rootfs cfg) \<noteq> ''/''"
  shows "yields (PrepareRoot cfg) (\<lambda>_ cs. \<forall>c \<in> set cs. confinedTo (Rootfs cfg) c)"
proof -
  have j: "below (Rootfs cfg) (PathJoin [Rootfs cfg, n])" if "n \<in> {''bin'', ''dev'', ''.pivot_old''}" for n
  proof -
    have "plain_name n" using that by (elim insertE emptyE) (simp_all add: plain_name_def)
    then show ?thesis by (rule below_root [OF r])
  qed
  have w: "within (Rootfs cfg) (PathJoin [Rootfs cfg, n])" if "n \<in> {''bin'', ''dev'', ''.pivot_old''}" for n
    using j [OF that] by (rule below_within)
  have s: "within (Rootfs cfg) (Rootfs cfg)" by (simp add: within_def)
  have ds: "list_all (\<lambda>p. within (Rootfs cfg) p \<or> above (Rootfs cfg) p) (dirsOf (PathJoin [Rootfs cfg, n]))"
    if "n \<in> {''bin'', ''dev'', ''.pivot_old''}" for n
    using j [OF that] by (rule below_dirs)
  have b: "below (Rootfs cfg) (PathJoin [Rootfs cfg, ''bin''])" and d: "below (Rootfs cfg) (PathJoin [Rootfs cfg, ''dev''])"
    using j by simp_all
  show ?thesis
    unfolding PrepareRoot_def Let_def fail_with_def
    by (rule yields_installBusybox_within [OF b] yields_all_rules
        yields_for_each_err_all [where S = "confinedTo (Rootfs cfg)"] yields_bindDevice_within [OF d]
      | (simp add: confinedTo_def propagation_def s w ds root_dirs; fail))+
qed

text \<open>
  C18: preparing a container's root touches nothing outside of it. For an absolute root other than
  \<open>/\<close>, every path that a call of \<open>PrepareRoot\<close> makes, removes, writes or mounts on is the root or
  below it; the only exceptions are missing directories above the root, which \<open>MkdirAll\<close> makes, and
  the two mounts on \<open>/\<close> that change the propagation of the tree.
\<close>

theorem root_prepared_within:
  assumes "HasPrefix (Rootfs cfg) ''/''" and "Clean (Rootfs cfg) \<noteq> ''/''"
    and "c \<in> set (calls (PrepareRoot cfg) s)" and "p \<in> set (touched c)"
  shows "within (Rootfs cfg) p \<or> makes_dir c \<and> above (Rootfs cfg) p \<or> c \<in> set propagation"
  using yieldsD [OF yields_PrepareRoot_within [OF assms(1,2)], of s] assms(3,4)
  by (auto simp: confinedTo_def list_all_iff)

definition ex_root :: FSConfig where
  "ex_root = (FS DefaultSpec)\<lparr>Rootfs := ''/dev/shm/bctor-root/''\<rparr>"

theorem root_prepared_within_witness:
  "\<exists>c \<in> set (calls (PrepareRoot ex_root) quiet_os). ''/dev/shm'' \<in> set (touched c) \<and>
    ''/dev/shm/bctor-root/dev'' \<in> set (touched c) \<and> makes_dir c \<and>
    within (Rootfs ex_root) ''/dev/shm/bctor-root/dev'' \<and> above (Rootfs ex_root) ''/dev/shm''"
proof -
  let ?c = "FsC (MkdirAll ''/dev/shm/bctor-root/dev'')"
  have r: "HasPrefix (Rootfs ex_root) ''/''" "Clean (Rootfs ex_root) \<noteq> ''/''"
    unfolding ex_root_def by (simp, code_simp)
  have "PathJoin [''/dev/shm/bctor-root/'', ''dev''] = ''/dev/shm/bctor-root/dev''" by code_simp
  moreover have "FsC (MkdirAll (PathJoin [''/dev/shm/bctor-root/'', ''dev''])) \<in> set (calls (PrepareRoot ex_root) quiet_os)"
    by (simp add: calls_def ex_root_def PrepareRoot_def installBusybox_def bindDevice_def quiet_os_answers run_for_each_sys Let_def)
  ultimately have c: "?c \<in> set (calls (PrepareRoot ex_root) quiet_os)" by simp
  have t: "''/dev/shm'' \<in> set (touched ?c)" "''/dev/shm/bctor-root/dev'' \<in> set (touched ?c)" by code_simp+
  have n: "\<not> within (Rootfs ex_root) ''/dev/shm''" "\<not> above (Rootfs ex_root) ''/dev/shm/bctor-root/dev''"
    "?c \<notin> set propagation"
    unfolding ex_root_def by (code_simp, code_simp, simp add: propagation_def)
  from root_prepared_within [OF r c t(1)] root_prepared_within [OF r c t(2)] n c t show ?thesis
    by (intro bexI [of _ ?c]) simp_all
qed

section \<open>Cgroups\<close>

definition noFork :: "call \<Rightarrow> bool" where
  "noFork c \<longleftrightarrow> c \<noteq> PrC Fork"

lemma yields_all_obind:
  assumes "yields m (\<lambda>_ cs. \<forall>c \<in> set cs. S c)" and "\<And>x. yields (f x) (\<lambda>_ cs. \<forall>c \<in> set cs. S c)"
  shows "yields (obind m f) (\<lambda>_ cs. \<forall>c \<in> set cs. S c)"
  by (rule yields_obind, rule yields_mono [OF assms(1)])
    (auto split: outcome.splits intro!: yields_mono [OF assms(2)])

lemma yields_joinShared_noFork: "yields (joinShared shared) (\<lambda>_ cs. \<forall>c \<in> set cs. noFork c)"
proof (induction shared)
  case (Cons p shared)
  have "yields (nsTypeToCloneFlag t) (\<lambda>_ cs. \<forall>c \<in> set cs. noFork c)" for t
    by (cases t) (simp_all add: yields_return, (rule yield_rules | (simp add: noFork_def; fail))+)
  note f = this
  obtain ns fd where p: "p = (ns, fd)" by (cases p)
  show ?case unfolding p joinShared.simps
    by (rule f Cons.IH yields_all_obind yields_all_rules | (simp add: noFork_def; fail))+
qed (simp add: yields_return)

lemma yields_ApplyNamespaces_noFork:
  "yields (ApplyNamespaces spec ipc) (\<lambda>_ cs. \<forall>c \<in> set cs. noFork c)"
proof -
  have "yields (unshareFlags spec shared [NSNet, NSMnt, NSPID, NSIPC, NSUTS, NSCgroup] [])
      (\<lambda>_ cs. \<forall>c \<in> set cs. noFork c)" for shared
    by (rule yields_mono [OF yields_new_flags]) simp
  note f = this
  show ?thesis
    unfolding ApplyNamespaces_def enterNamespaces_def flagsChecks_def enterUserNS_def
      RecvNamespaceFDs_def SetupUserNSAndContinue_def
      WaitFd_def FreeFd_def Let_def
    by (rule f yields_joinShared_noFork yields_all_obind yields_all_rules | (simp add: noFork_def; fail))+
qed

lemma SetupCgroups_unmounted:
  assumes "\<And>t. o_int s t (FsC (Statfs ''/sys/fs/cgroup'')) \<noteq> Inr CGROUP2_SUPER_MAGIC"
  shows "\<exists>cs. run_state (SetupCgroups cg cfg) s = (Exit 1, with_calls cs s) \<and> PrC Fork \<notin> set cs"
  using assms [of "trace s @ [UiC (Print (''[*] Init of TestCGroups'' @ [CHR 0x0A]))]"]
  by (auto simp: SetupCgroups_def CheckCgroupV2_def fatal_def emit_with_calls split: sum.splits)

text \<open>
  C19: a container that asks for cgroups is not started without them: where \<open>/sys/fs/cgroup\<close> is
  missing or is not a version 2 hierarchy, its init ends with an error and never forks the workload.
\<close>

theorem cgroups_fail_closed:
  assumes "CGROUP (Namespaces spec)"
    and "\<And>t. o_int s t (FsC (Statfs ''/sys/fs/cgroup'')) \<noteq> Inr CGROUP2_SUPER_MAGIC"
  shows "\<not> is_Ret (result (RunContainerInit spec ipc) s) \<and> PrC Fork \<notin> set (calls (RunContainerInit spec ipc) s)"
proof -
  let ?s = "emit (UiC (Log TypeInfo ''Init: Start to Apply Namespaces'' [])) s"
  obtain r s' where r: "run_state (ApplyNamespaces spec ipc) ?s = (r, s')" by (cases "run_state (ApplyNamespaces spec ipc) ?s")
  obtain cs where cs: "s' = with_calls cs ?s" "\<forall>c \<in> set cs. noFork c"
    using yields_ApplyNamespaces_noFork [of spec ipc] r unfolding yields_def by (metis fst_conv snd_conv)
  have "\<And>t. o_int s' t (FsC (Statfs ''/sys/fs/cgroup'')) \<noteq> Inr CGROUP2_SUPER_MAGIC"
    using assms(2) by (simp add: cs)
  from SetupCgroups_unmounted [OF this, of True "Cgroups spec"] obtain ds where
    ds: "run_state (SetupCgroups True (Cgroups spec)) s' = (Exit 1, with_calls ds s')" "PrC Fork \<notin> set ds" by blast
  have "PrC Fork \<notin> set cs" using cs(2) by (auto simp: noFork_def)
  then show ?thesis
    using r ds assms(1)
    by (cases r) (auto simp: RunContainerInit_def result_def calls_def obind_def cs split: option.split)
qed


theorem cgroups_fail_closed_witness:
  "\<exists>spec :: ContainerSpec. CGROUP (Namespaces spec) \<and> \<not> is_Ret (result (RunContainerInit spec ex_ipc) quiet_os) \<and>
    PrC Fork \<notin> set (calls (RunContainerInit spec ex_ipc) quiet_os)"
proof -
  let ?spec = "DefaultSpec\<lparr>Namespaces := (Namespaces DefaultSpec)\<lparr>CGROUP := True\<rparr>\<rparr>"
  have "CGROUP (Namespaces ?spec)" by simp
  moreover have "o_int quiet_os t (FsC (Statfs ''/sys/fs/cgroup'')) \<noteq> Inr CGROUP2_SUPER_MAGIC" for t
    by (simp add: quiet_os_def CGROUP2_SUPER_MAGIC_def)
  ultimately show ?thesis using cgroups_fail_closed [of ?spec quiet_os ex_ipc] by blast
qed

end
